(* ===== verification/Witchy_Prelude.thy ===== *)
theory Witchy_Prelude
  imports Main "HOL-Library.Word" "HOL-Library.Char_ord" "HOL-Library.List_Lexorder"
    "HOL-Library.Code_Target_Nat"
begin

text \<open>
  Shared vocabulary of the development: results, the parts of Rust's \<open>str\<close> and integer
  parsing API that the modelled crates call, UTF-8 decoding, and the lemma collections that the
  component theories extend.

  A Rust \<open>String\<close> or \<open>&str\<close> is a \<^typ>\<open>string\<close> holding its UTF-8 bytes, so \<open>len\<close>, byte
  slicing, \<open>starts_with\<close>, \<open>split\<close> and the ordering (byte-wise lexicographic) are the list
  operations on it; operations on \<open>chars()\<close> go through \<open>utf8_decode\<close>. A Rust
  \<open>Result<T, E>\<close> is the sum type with the error on the left.
\<close>

section \<open>Results\<close>

named_theorems result_simps \<open>rewriting of result-valued code\<close>
named_theorems string_simps \<open>the string routines on concatenations\<close>

type_synonym ('e, 'a) result = "'e + 'a"

abbreviation Ok :: "'a \<Rightarrow> ('e, 'a) result" where "Ok \<equiv> Inr"
abbreviation Err :: "'e \<Rightarrow> ('e, 'a) result" where "Err \<equiv> Inl"

definition rbind :: "('e, 'a) result \<Rightarrow> ('a \<Rightarrow> ('e, 'b) result) \<Rightarrow> ('e, 'b) result" where
  "rbind r f = (case r of Inl e \<Rightarrow> Inl e | Inr x \<Rightarrow> f x)"

definition rguard :: "bool \<Rightarrow> 'e \<Rightarrow> ('e, unit) result" where
  "rguard b e = (if b then Inr () else Inl e)"

definition ok_or :: "'a option \<Rightarrow> 'e \<Rightarrow> ('e, 'a) result" where
  "ok_or x e = (case x of None \<Rightarrow> Inl e | Some v \<Rightarrow> Inr v)"

lemma rbind_Ok [simp]: "rbind (Inr x) f = f x"
  by (simp add: rbind_def)

lemma rbind_Err [simp]: "rbind (Inl e) f = Inl e"
  by (simp add: rbind_def)

lemma rbind_eq_Ok [result_simps]: "rbind r f = Inr y \<longleftrightarrow> (\<exists>x. r = Inr x \<and> f x = Inr y)"
  by (cases r) auto

lemma rguard_True [simp]: "rguard True e = Inr ()"
  by (simp add: rguard_def)

lemma rguard_False [simp]: "rguard False e = Inl e"
  by (simp add: rguard_def)

lemma rguard_eq_Ok [result_simps]: "rguard b e = Inr u \<longleftrightarrow> b"
  by (simp add: rguard_def)

lemma ok_or_simps [simp]: "ok_or None e = Inl e" "ok_or (Some v) e = Inr v"
  by (simp_all add: ok_or_def)

lemma ok_or_eq_Ok [result_simps]: "ok_or x e = Inr v \<longleftrightarrow> x = Some v"
  by (cases x) simp_all

text \<open>Taking a successful run of a chain of fallible steps apart, one step at a time.\<close>

lemma rbind_OkE: "rbind r f = Inr y \<Longrightarrow> (\<And>x. r = Inr x \<Longrightarrow> f x = Inr y \<Longrightarrow> P) \<Longrightarrow> P"
  by (cases r) simp_all

lemma rbind_pair_OkE: "rbind r (\<lambda>(a, b). f a b) = Inr y \<Longrightarrow>
    (\<And>a b. r = Inr (a, b) \<Longrightarrow> f a b = Inr y \<Longrightarrow> P) \<Longrightarrow> P"
  by (cases r) (auto split: prod.splits)

lemma if_Err_OkE: "(if b then Inl e else r) = Inr y \<Longrightarrow> (\<not> b \<Longrightarrow> r = Inr y \<Longrightarrow> P) \<Longrightarrow> P"
  by (cases b) simp_all

lemma rbind_ErrE: "rbind r f = Inl e \<Longrightarrow> (r = Inl e \<Longrightarrow> P) \<Longrightarrow>
    (\<And>x. r = Inr x \<Longrightarrow> f x = Inl e \<Longrightarrow> P) \<Longrightarrow> P"
  by (cases r) auto

lemma rbind_pair_ErrE: "rbind r (\<lambda>(a, b). f a b) = Inl e \<Longrightarrow> (r = Inl e \<Longrightarrow> P) \<Longrightarrow>
    (\<And>a b. r = Inr (a, b) \<Longrightarrow> f a b = Inl e \<Longrightarrow> P) \<Longrightarrow> P"
  by (cases r) auto

lemma if_Err_ErrE: "(if b then Inl e' else r) = Inl e \<Longrightarrow> (b \<Longrightarrow> e' = e \<Longrightarrow> P) \<Longrightarrow>
    (\<not> b \<Longrightarrow> r = Inl e \<Longrightarrow> P) \<Longrightarrow> P"
  by (cases b) simp_all

lemma if_Ok_iff: "(if b then Inl e else Inr x) = Inr y \<longleftrightarrow> \<not> b \<and> x = y"
  by simp

lemma unit_ex: "(\<exists>u :: unit. P u) \<longleftrightarrow> P ()"
  by (metis unit.exhaust)

text \<open>A loop that stops at the first error, as \<open>?\<close> in a \<open>for\<close> body does.\<close>

fun rtraverse :: "('a \<Rightarrow> ('e, 'b) result) \<Rightarrow> 'a list \<Rightarrow> ('e, 'b list) result" where
  "rtraverse f [] = Inr []"
| "rtraverse f (x # xs) = rbind (f x) (\<lambda>y. rbind (rtraverse f xs) (\<lambda>ys. Inr (y # ys)))"

lemma rtraverse_Ok_iff [result_simps]:
  "rtraverse f xs = Inr ys \<longleftrightarrow> list_all2 (\<lambda>x y. f x = Inr y) xs ys"
  by (induction xs arbitrary: ys) (auto simp: result_simps list_all2_Cons1)

section \<open>Splitting and joining strings\<close>

definition strip_prefix :: "string \<Rightarrow> string \<Rightarrow> string option" where
  "strip_prefix p s = (if take (length p) s = p then Some (drop (length p) s) else None)"

definition strip_suffix :: "string \<Rightarrow> string \<Rightarrow> string option" where
  "strip_suffix p s = map_option rev (strip_prefix (rev p) (rev s))"

definition starts_with :: "string \<Rightarrow> string \<Rightarrow> bool" where
  "starts_with p s \<longleftrightarrow> take (length p) s = p"

definition ends_with :: "string \<Rightarrow> string \<Rightarrow> bool" where
  "ends_with p s \<longleftrightarrow> starts_with (rev p) (rev s)"

lemma strip_prefix_eq_Some [string_simps]: "strip_prefix p s = Some r \<longleftrightarrow> s = p @ r"
  by (auto simp: strip_prefix_def) (metis append_take_drop_id)

lemma strip_prefix_append [simp]: "strip_prefix p (p @ r) = Some r"
  by (simp add: strip_prefix_def)

lemma strip_prefix_None [string_simps]: "strip_prefix p s = None \<longleftrightarrow> \<not> starts_with p s"
  by (simp add: strip_prefix_def starts_with_def)

lemma starts_with_iff: "starts_with p s \<longleftrightarrow> (\<exists>r. s = p @ r)"
  by (metis not_None_eq strip_prefix_None strip_prefix_eq_Some)

lemma strip_suffix_eq_Some [string_simps]: "strip_suffix p s = Some r \<longleftrightarrow> s = r @ p"
  by (auto simp: strip_suffix_def strip_prefix_eq_Some) (metis rev_append rev_rev_ident)

lemma ends_with_iff: "ends_with p s \<longleftrightarrow> (\<exists>r. s = r @ p)"
  by (auto simp: ends_with_def starts_with_iff) (metis rev_append rev_rev_ident)

text \<open>\<open>str::split\<close> on one character: always at least one piece.\<close>

fun split_on :: "char \<Rightarrow> string \<Rightarrow> string list" where
  "split_on c [] = [[]]"
| "split_on c (x # xs) =
     (if x = c then [] # split_on c xs
      else (case split_on c xs of [] \<Rightarrow> [[x]] | y # ys \<Rightarrow> (x # y) # ys))"

fun join_with :: "string \<Rightarrow> string list \<Rightarrow> string" where
  "join_with sep [] = []"
| "join_with sep [x] = x"
| "join_with sep (x # y # ys) = x @ sep @ join_with sep (y # ys)"

lemma split_on_nonempty [simp]: "split_on c s \<noteq> []"
  by (cases s) (auto split: list.splits)

lemma split_on_no_sep: "y \<in> set (split_on c s) \<Longrightarrow> c \<notin> set y"
proof (induction s arbitrary: y)
  case (Cons x xs)
  obtain z zs where zs: "split_on c xs = z # zs" by (cases "split_on c xs") auto
  show ?case using Cons.prems Cons.IH by (auto simp: zs split: if_splits)
qed simp

lemma split_on_no_occ: "c \<notin> set x \<Longrightarrow> split_on c x = [x]"
  by (induction x) auto

lemma split_on_append_sep: "c \<notin> set x \<Longrightarrow> split_on c (x @ c # ys) = x # split_on c ys"
  by (induction x) auto

lemma split_on_join: "xs \<noteq> [] \<Longrightarrow> (\<And>x. x \<in> set xs \<Longrightarrow> c \<notin> set x) \<Longrightarrow>
    split_on c (join_with [c] xs) = xs"
proof (induction "[c]" xs rule: join_with.induct)
  case (3 x y ys)
  then show ?case by (simp add: split_on_append_sep)
qed (simp_all add: split_on_no_occ)

lemma join_split_on: "join_with [c] (split_on c s) = s"
proof (induction s)
  case (Cons x xs)
  obtain z zs where zs: "split_on c xs = z # zs" by (cases "split_on c xs") auto
  show ?case using Cons.IH by (cases zs) (auto simp: zs)
qed simp

lemma join_with_eq_Nil: "join_with sep xs = [] \<Longrightarrow> sep \<noteq> [] \<Longrightarrow> xs = [] \<or> xs = [[]]"
  by (cases xs rule: list.exhaust; cases "tl xs") auto

text \<open>\<open>str::split_once\<close> and \<open>str::rsplit_once\<close> on one character, and \<open>split_once\<close> on a string.\<close>

fun split_once :: "char \<Rightarrow> string \<Rightarrow> (string \<times> string) option" where
  "split_once c [] = None"
| "split_once c (x # xs) =
     (if x = c then Some ([], xs) else map_option (\<lambda>(a, b). (x # a, b)) (split_once c xs))"

definition rsplit_once :: "char \<Rightarrow> string \<Rightarrow> (string \<times> string) option" where
  "rsplit_once c s = map_option (\<lambda>(a, b). (rev b, rev a)) (split_once c (rev s))"

fun split_once_str :: "string \<Rightarrow> string \<Rightarrow> (string \<times> string) option" where
  "split_once_str p s =
     (case strip_prefix p s of
        Some r \<Rightarrow> Some ([], r)
      | None \<Rightarrow> (case s of [] \<Rightarrow> None
                 | x # xs \<Rightarrow> map_option (\<lambda>(a, b). (x # a, b)) (split_once_str p xs)))"

declare split_once_str.simps [simp del]

lemma split_once_eq_Some [string_simps]:
  "split_once c s = Some (a, b) \<longleftrightarrow> s = a @ c # b \<and> c \<notin> set a"
proof (induction s arbitrary: a)
  case (Cons x xs)
  show ?case using Cons.IH by (cases a) auto
qed simp

lemma split_once_None [string_simps]: "split_once c s = None \<longleftrightarrow> c \<notin> set s"
  by (induction s) auto

lemma rsplit_once_eq_Some [string_simps]:
  "rsplit_once c s = Some (a, b) \<longleftrightarrow> s = a @ c # b \<and> c \<notin> set b"
proof -
  have "rsplit_once c s = Some (a, b) \<longleftrightarrow> split_once c (rev s) = Some (rev b, rev a)"
    by (auto simp: rsplit_once_def)
  also have "\<dots> \<longleftrightarrow> rev s = rev b @ c # rev a \<and> c \<notin> set b"
    by (simp add: split_once_eq_Some)
  also have "\<dots> \<longleftrightarrow> s = a @ c # b \<and> c \<notin> set b"
    by (metis append_Cons append_Nil append_assoc rev.simps(2) rev_append rev_rev_ident)
  finally show ?thesis .
qed

lemma rsplit_once_None [string_simps]: "rsplit_once c s = None \<longleftrightarrow> c \<notin> set s"
  by (simp add: rsplit_once_def split_once_None)

lemma split_once_str_sound: "split_once_str p s = Some (a, b) \<Longrightarrow> s = a @ p @ b"
proof (induction p s arbitrary: a rule: split_once_str.induct)
  case (1 p s)
  show ?case
  proof (cases "strip_prefix p s")
    case None
    with "1.prems" obtain x xs a' where
      s: "s = x # xs" and rec: "split_once_str p xs = Some (a', b)" and a: "a = x # a'"
      by (auto simp: split_once_str.simps[of p s] split: list.splits)
    have "xs = a' @ p @ b" by (rule "1.IH"[OF None s rec])
    with s a show ?thesis by simp
  next
    case (Some r)
    with "1.prems" show ?thesis by (simp add: split_once_str.simps[of p s] string_simps)
  qed
qed

section \<open>ASCII case and decimal numbers\<close>

definition ascii_code :: "char \<Rightarrow> nat" where
  "ascii_code c = of_char c"

definition ascii_lower_char :: "char \<Rightarrow> char" where
  "ascii_lower_char c =
     (if 65 \<le> ascii_code c \<and> ascii_code c \<le> 90 then char_of (ascii_code c + 32) else c)"

definition to_ascii_lowercase :: "string \<Rightarrow> string" where
  "to_ascii_lowercase = map ascii_lower_char"

definition eq_ignore_ascii_case :: "string \<Rightarrow> string \<Rightarrow> bool" where
  "eq_ignore_ascii_case a b \<longleftrightarrow> to_ascii_lowercase a = to_ascii_lowercase b"

lemma ascii_code_char_of: "n < 256 \<Longrightarrow> ascii_code (char_of n) = n"
  by (simp add: ascii_code_def)

lemma ascii_lower_char_idem [simp]: "ascii_lower_char (ascii_lower_char c) = ascii_lower_char c"
  by (simp add: ascii_lower_char_def ascii_code_char_of)

lemma to_ascii_lowercase_idem [simp]: "to_ascii_lowercase (to_ascii_lowercase s) = to_ascii_lowercase s"
  by (simp add: to_ascii_lowercase_def)

lemma length_to_ascii_lowercase [simp]: "length (to_ascii_lowercase s) = length s"
  by (simp add: to_ascii_lowercase_def)

lemma to_ascii_lowercase_eq_Nil [simp]: "to_ascii_lowercase s = [] \<longleftrightarrow> s = []"
  by (simp add: to_ascii_lowercase_def)

lemma to_ascii_lowercase_simps [simp]:
  "to_ascii_lowercase [] = []"
  "to_ascii_lowercase (c # cs) = ascii_lower_char c # to_ascii_lowercase cs"
  "to_ascii_lowercase (s @ t) = to_ascii_lowercase s @ to_ascii_lowercase t"
  by (simp_all add: to_ascii_lowercase_def)

text \<open>A character outside the upper-case range is produced by lower-casing only from itself.\<close>

lemma ascii_lower_char_eq_iff:
  assumes "\<not> (97 \<le> ascii_code d \<and> ascii_code d \<le> 122)" "\<not> (65 \<le> ascii_code d \<and> ascii_code d \<le> 90)"
  shows "ascii_lower_char c = d \<longleftrightarrow> c = d"
  using assms by (auto simp: ascii_lower_char_def ascii_code_char_of)

lemma in_set_to_ascii_lowercase:
  assumes "\<not> (97 \<le> ascii_code d \<and> ascii_code d \<le> 122)" "\<not> (65 \<le> ascii_code d \<and> ascii_code d \<le> 90)"
  shows "d \<in> set (to_ascii_lowercase s) \<longleftrightarrow> d \<in> set s"
proof -
  have "d \<in> set (to_ascii_lowercase s) \<longleftrightarrow> (\<exists>c \<in> set s. ascii_lower_char c = d)"
    by (auto simp: to_ascii_lowercase_def)
  then show ?thesis by (simp add: ascii_lower_char_eq_iff[OF assms])
qed

definition is_ascii_digit :: "char \<Rightarrow> bool" where
  "is_ascii_digit c \<longleftrightarrow> 48 \<le> ascii_code c \<and> ascii_code c \<le> 57"

definition digit_value :: "char \<Rightarrow> nat" where
  "digit_value c = ascii_code c - 48"

definition digit_char :: "nat \<Rightarrow> char" where
  "digit_char n = char_of (n + 48)"

definition digits_value :: "string \<Rightarrow> nat" where
  "digits_value = foldl (\<lambda>a c. 10 * a + digit_value c) 0"

text \<open>
  \<open>str::parse\<close> for an unsigned type whose values are below \<open>bound\<close>: an optional \<open>+\<close>, at least
  one decimal digit, no other character, and no overflow.
\<close>

definition parse_uint :: "nat \<Rightarrow> string \<Rightarrow> nat option" where
  "parse_uint bound s =
     (let d = (case s of [] \<Rightarrow> [] | c # r \<Rightarrow> if c = CHR ''+'' then r else s)
      in if d = [] \<or> \<not> list_all is_ascii_digit d then None
         else if digits_value d < bound then Some (digits_value d) else None)"

fun show_nat :: "nat \<Rightarrow> string" where
  "show_nat n = (if n < 10 then [digit_char n] else show_nat (n div 10) @ [digit_char (n mod 10)])"

declare show_nat.simps [simp del]

lemma digit_char_facts:
  assumes "n < 10"
  shows "is_ascii_digit (digit_char n)" "digit_value (digit_char n) = n"
    "ascii_code (digit_char n) = n + 48" "digit_char n \<noteq> CHR ''+''"
proof -
  show c: "ascii_code (digit_char n) = n + 48"
    using assms by (simp add: digit_char_def ascii_code_char_of)
  show "is_ascii_digit (digit_char n)" "digit_value (digit_char n) = n"
    using assms by (simp_all add: is_ascii_digit_def digit_value_def c)
  show "digit_char n \<noteq> CHR ''+''"
    using c by (auto simp: ascii_code_def)
qed

lemma show_nat_digits: "list_all is_ascii_digit (show_nat n) \<and> digits_value (show_nat n) = n
    \<and> show_nat n \<noteq> []"
proof (induction n rule: show_nat.induct)
  case (1 n)
  show ?case
  proof (cases "n < 10")
    case True
    then show ?thesis
      by (simp add: show_nat.simps[of n] digits_value_def digit_char_facts)
  next
    case False
    with "1.IH" have "list_all is_ascii_digit (show_nat (n div 10))"
      and "digits_value (show_nat (n div 10)) = n div 10" by auto
    with False show ?thesis
      by (simp add: show_nat.simps[of n] digits_value_def digit_char_facts)
  qed
qed

lemma show_nat_hd: "hd (show_nat n) \<noteq> CHR ''+''"
proof -
  have "is_ascii_digit (hd (show_nat n))"
    using show_nat_digits[of n] by (cases "show_nat n") auto
  then show ?thesis by (auto simp: is_ascii_digit_def ascii_code_def)
qed

text \<open>Printing a number and parsing it back.\<close>

lemma parse_show_nat: "n < bound \<Longrightarrow> parse_uint bound (show_nat n) = Some n"
  using show_nat_digits[of n] show_nat_hd[of n]
  by (cases "show_nat n") (auto simp: parse_uint_def Let_def)

lemma parse_uint_bound: "parse_uint bound s = Some n \<Longrightarrow> n < bound"
  by (auto simp: parse_uint_def Let_def split: if_splits list.splits)

lemma parse_uint_nonempty: "parse_uint bound s = Some n \<Longrightarrow> s \<noteq> []"
  by (auto simp: parse_uint_def)

lemma show_nat_no_char: "\<not> is_ascii_digit c \<Longrightarrow> c \<notin> set (show_nat n)"
  using show_nat_digits[of n] by (auto simp: list_all_iff)

lemma unat_less_pow: "unat (w :: 'w::len word) < 2 ^ LENGTH('w)"
  by (rule unsigned_less)

section \<open>UTF-8\<close>

text \<open>
  \<open>String::from_utf8\<close> and \<open>str::chars\<close>: the well-formed sequences of the Unicode standard
  (table 3-7), as scalar values. Overlong forms, surrogates and values above U+10FFFF are
  rejected.
\<close>

definition utf8_cont :: "nat \<Rightarrow> bool" where
  "utf8_cont b \<longleftrightarrow> 128 \<le> b \<and> b \<le> 191"

fun utf8_decode :: "nat list \<Rightarrow> nat list option" where
  "utf8_decode [] = Some []"
| "utf8_decode (a # r) =
     (if a < 128 then map_option (\<lambda>t. a # t) (utf8_decode r)
      else (case r of
        b # r2 \<Rightarrow>
          if 194 \<le> a \<and> a \<le> 223 \<and> utf8_cont b
          then map_option (\<lambda>t. ((a - 192) * 64 + (b - 128)) # t) (utf8_decode r2)
          else (case r2 of
            c # r3 \<Rightarrow>
              if utf8_cont c \<and> 224 \<le> a \<and> a \<le> 239 \<and> utf8_cont b
                 \<and> (a = 224 \<longrightarrow> 160 \<le> b) \<and> (a = 237 \<longrightarrow> b \<le> 159)
              then map_option (\<lambda>t. ((a - 224) * 4096 + (b - 128) * 64 + (c - 128)) # t)
                     (utf8_decode r3)
              else (case r3 of
                d # r4 \<Rightarrow>
                  if utf8_cont c \<and> utf8_cont d \<and> 240 \<le> a \<and> a \<le> 244 \<and> utf8_cont b
                     \<and> (a = 240 \<longrightarrow> 144 \<le> b) \<and> (a = 244 \<longrightarrow> b \<le> 143)
                  then map_option (\<lambda>t. ((a - 240) * 262144 + (b - 128) * 4096 + (c - 128) * 64
                         + (d - 128)) # t) (utf8_decode r4)
                  else None
              | [] \<Rightarrow> None)
          | [] \<Rightarrow> None)
      | [] \<Rightarrow> None))"

definition utf8_chars :: "string \<Rightarrow> nat list" where
  "utf8_chars s = (case utf8_decode (map ascii_code s) of None \<Rightarrow> [] | Some cs \<Rightarrow> cs)"

text \<open>\<open>char::is_whitespace\<close> (the Unicode property \<open>White_Space\<close>) and \<open>str::trim().is_empty()\<close>.\<close>

definition is_whitespace :: "nat \<Rightarrow> bool" where
  "is_whitespace c \<longleftrightarrow> (9 \<le> c \<and> c \<le> 13) \<or> c = 32 \<or> c = 133 \<or> c = 160 \<or> c = 5760
     \<or> (8192 \<le> c \<and> c \<le> 8202) \<or> c = 8232 \<or> c = 8233 \<or> c = 8239 \<or> c = 8287 \<or> c = 12288"

definition trim_is_empty :: "string \<Rightarrow> bool" where
  "trim_is_empty s \<longleftrightarrow> list_all is_whitespace (utf8_chars s)"

lemma utf8_decode_ascii: "list_all (\<lambda>b. b < 128) bs \<Longrightarrow> utf8_decode bs = Some bs"
  by (induction bs) auto

text \<open>Elimination of a lookup written as a chain of tests.\<close>

lemma if_SomeE:
  "(if b then Some x else e) = Some k \<Longrightarrow> (b \<Longrightarrow> k = x \<Longrightarrow> P) \<Longrightarrow> (e = Some k \<Longrightarrow> P) \<Longrightarrow> P"
  by (cases b) simp_all

section \<open>Codings: the contract of a printer and its parser\<close>

text \<open>
  The catalogs of the program identify their entries by a spelling or a stable number: a total
  function that writes the identity and a partial one that reads it back. The contract is that
  each undoes the other; injectivity and the exact domain of the reader follow once, here.
\<close>

locale coding =
  fixes enc :: "'a \<Rightarrow> 'b"
    and dec :: "'b \<Rightarrow> 'a option"
  assumes dec_enc: "dec (enc a) = Some a"
    and enc_dec: "dec b = Some a \<Longrightarrow> enc a = b"
begin

lemma dec_iff: "dec b = Some a \<longleftrightarrow> b = enc a"
  using dec_enc enc_dec by auto

lemma enc_inj: "enc a = enc a' \<longleftrightarrow> a = a'"
  using dec_enc by (metis option.inject)

lemma dec_None: "dec b = None \<longleftrightarrow> (\<forall>a. enc a \<noteq> b)"
  using dec_iff by (metis not_None_eq)

lemma dec_inj: "dec b = dec b' \<Longrightarrow> dec b \<noteq> None \<Longrightarrow> b = b'"
  using enc_dec by (metis not_None_eq)

end

section \<open>Narrowing: the contract of an attenuation\<close>

text \<open>
  A policy admits targets, and an attenuation turns a policy into one that admits no more. The
  program attenuates a held capability any number of times; that a whole chain never widens, and
  that a policy that admits nothing stays that way, follow from the one-step law. The guarded form
  has a well-formedness condition that the attenuations keep.
\<close>

locale guarded_narrowing =
  fixes wf :: "'p \<Rightarrow> bool"
    and ok :: "'r \<Rightarrow> bool"
    and admits :: "'p \<Rightarrow> 't \<Rightarrow> bool"
    and narrow :: "'p \<Rightarrow> 'r \<Rightarrow> 'p"
  assumes narrow_wf: "wf p \<Longrightarrow> ok r \<Longrightarrow> wf (narrow p r)"
    and guarded_admits: "wf p \<Longrightarrow> ok r \<Longrightarrow> admits (narrow p r) t \<Longrightarrow> admits p t"
begin

lemma chain_wf: "wf p \<Longrightarrow> list_all ok rs \<Longrightarrow> wf (foldl narrow p rs)"
  by (induction rs arbitrary: p) (auto intro: narrow_wf)

lemma guarded_chain: "wf p \<Longrightarrow> list_all ok rs \<Longrightarrow> admits (foldl narrow p rs) t \<Longrightarrow> admits p t"
  by (induction rs arbitrary: p) (auto intro: narrow_wf dest: guarded_admits)

lemma guarded_prefix: "wf p \<Longrightarrow> list_all ok (rs @ ss) \<Longrightarrow> admits (foldl narrow p (rs @ ss)) t \<Longrightarrow> admits (foldl narrow p rs) t"
  using guarded_chain[OF chain_wf, of p rs ss] by simp

end

locale narrowing =
  fixes admits :: "'p \<Rightarrow> 't \<Rightarrow> bool"
    and narrow :: "'p \<Rightarrow> 'r \<Rightarrow> 'p"
  assumes narrow_admits: "admits (narrow p r) t \<Longrightarrow> admits p t"

sublocale narrowing \<subseteq> unguarded: guarded_narrowing "\<lambda>_. True" "\<lambda>_. True" admits narrow
  by unfold_locales (auto intro: narrow_admits)

context narrowing
begin

lemma narrow_chain_prefix: "admits (foldl narrow p (rs @ ss)) t \<Longrightarrow> admits (foldl narrow p rs) t"
  by (rule unguarded.guarded_prefix) (simp_all add: list_all_iff)

lemma narrow_dead: "(\<And>u. \<not> admits p u) \<Longrightarrow> \<not> admits (foldl narrow p rs) t"
  using narrow_chain_prefix[of p "[]" rs] by auto

end

section \<open>Authority orders: the contract of an admission test\<close>

text \<open>
  A held authority admits a required one. The judgments that follow a value through a program
  compare each value only with its immediate parent; that the comparison is reflexive on well-formed
  authorities and transitive makes the root admit everything at the end of such a lineage.
\<close>

locale authority_order =
  fixes wf :: "'a \<Rightarrow> bool"
    and admit :: "'a \<Rightarrow> 'a \<Rightarrow> bool"
  assumes admit_refl: "wf a \<Longrightarrow> admit a a"
    and admit_trans: "admit a b \<Longrightarrow> admit b c \<Longrightarrow> admit a c"
begin

definition lineage :: "'a list \<Rightarrow> bool" where
  "lineage as \<longleftrightarrow> (\<forall>i. Suc i < length as \<longrightarrow> admit (as ! i) (as ! Suc i))"

lemma lineage_Cons: "lineage (a # b # as) \<longleftrightarrow> admit a b \<and> lineage (b # as)"
  unfolding lineage_def by (auto simp: nth_Cons' less_Suc_eq_0_disj)

lemma lineage_tail_admits: "lineage (a # as) \<Longrightarrow> b \<in> set as \<Longrightarrow> admit a b"
proof (induction as arbitrary: a)
  case (Cons c as)
  from Cons.prems(1) have ac: "admit a c" and l: "lineage (c # as)" by (simp_all add: lineage_Cons)
  show ?case
  proof (cases "b = c")
    case False
    with Cons.prems(2) Cons.IH[OF l] ac show ?thesis by (auto intro: admit_trans)
  qed (use ac in simp)
qed simp

lemma lineage_root_admits: "lineage (a # as) \<Longrightarrow> wf a \<Longrightarrow> b \<in> set (a # as) \<Longrightarrow> admit a b"
  using lineage_tail_admits admit_refl by auto

end

section \<open>Search in a list\<close>

text \<open>\<open>Iterator::position\<close>.\<close>

fun position :: "('a \<Rightarrow> bool) \<Rightarrow> 'a list \<Rightarrow> nat option" where
  "position P [] = None"
| "position P (x # xs) = (if P x then Some 0 else map_option Suc (position P xs))"

lemma position_Some: "position P xs = Some i \<Longrightarrow>
    i < length xs \<and> P (xs ! i) \<and> (\<forall>j < i. \<not> P (xs ! j))"
proof (induction xs arbitrary: i)
  case (Cons x xs)
  show ?case
  proof (cases "P x")
    case False
    with Cons.prems obtain k where "position P xs = Some k" "i = Suc k" by auto
    with Cons.IH[of k] False show ?thesis by (auto simp: less_Suc_eq_0_disj)
  qed (use Cons.prems in auto)
qed simp

lemma position_None: "position P xs = None \<longleftrightarrow> (\<forall>x \<in> set xs. \<not> P x)"
  by (induction xs) auto

lemma find_in_set: "List.find P xs = Some x \<Longrightarrow> x \<in> set xs \<and> P x"
  by (induction xs) (auto split: if_splits)

lemma find_None: "List.find P xs = None \<longleftrightarrow> (\<forall>x \<in> set xs. \<not> P x)"
  by (induction xs) auto

end
