(* ===== verification/Ordered_Collections.thy ===== *)
theory Ordered_Collections
  imports Witchy_Prelude
begin

text \<open>
  \<open>BTreeSet\<close> and \<open>BTreeMap\<close> of the Rust standard library, as the crates use them: a set is the
  strictly increasing list of its elements and a map the association list of its entries in key
  order, so that iteration, equality and membership are those of the list. The locale
  \<open>ordered_map\<close> states the contract of the map operations; the capability components use the
  lemmas of its interpretation \<open>btm\<close>.
\<close>

named_theorems btree_simps \<open>rewriting of the ordered sets and maps\<close>

section \<open>Sets\<close>

type_synonym 'a btset = "'a list"

abbreviation bts_ok :: "'a::linorder btset \<Rightarrow> bool" where
  "bts_ok \<equiv> sorted_wrt (<)"

fun bts_insert :: "'a::linorder \<Rightarrow> 'a btset \<Rightarrow> 'a btset" where
  "bts_insert a [] = [a]"
| "bts_insert a (b # s) =
     (if a = b then b # s else if a < b then a # b # s else b # bts_insert a s)"

definition bts_extend :: "'a::linorder list \<Rightarrow> 'a btset \<Rightarrow> 'a btset" where
  "bts_extend xs s = fold bts_insert xs s"

definition bts_of :: "'a::linorder list \<Rightarrow> 'a btset" where
  "bts_of xs = bts_extend xs []"

definition bts_difference :: "'a btset \<Rightarrow> 'a btset \<Rightarrow> 'a btset" where
  "bts_difference s t = filter (\<lambda>x. x \<notin> set t) s"

definition bts_intersection :: "'a btset \<Rightarrow> 'a btset \<Rightarrow> 'a btset" where
  "bts_intersection s t = filter (\<lambda>x. x \<in> set t) s"

lemma set_bts_insert [simp, btree_simps]: "set (bts_insert a s) = insert a (set s)"
  by (induction s) auto

lemma bts_ok_insert: "bts_ok s \<Longrightarrow> bts_ok (bts_insert a s)"
  by (induction s) auto

lemma set_bts_extend [simp, btree_simps]: "set (bts_extend xs s) = set xs \<union> set s"
  unfolding bts_extend_def by (induction xs arbitrary: s) auto

lemma bts_ok_extend: "bts_ok s \<Longrightarrow> bts_ok (bts_extend xs s)"
  unfolding bts_extend_def by (induction xs arbitrary: s) (auto intro: bts_ok_insert)

lemma set_bts_of [simp, btree_simps]: "set (bts_of xs) = set xs"
  by (simp add: bts_of_def)

lemma bts_ok_of [simp]: "bts_ok (bts_of xs)"
  by (simp add: bts_of_def bts_ok_extend)

lemma set_bts_difference [simp, btree_simps]: "set (bts_difference s t) = set s - set t"
  by (auto simp: bts_difference_def)

lemma bts_ok_difference: "bts_ok s \<Longrightarrow> bts_ok (bts_difference s t)"
  by (simp add: bts_difference_def sorted_wrt_filter)

lemma set_bts_intersection [simp, btree_simps]: "set (bts_intersection s t) = set s \<inter> set t"
  by (auto simp: bts_intersection_def)

lemma bts_ok_intersection: "bts_ok s \<Longrightarrow> bts_ok (bts_intersection s t)"
  by (simp add: bts_intersection_def sorted_wrt_filter)

lemma bts_eq_iff: "bts_ok s \<Longrightarrow> bts_ok t \<Longrightarrow> s = t \<longleftrightarrow> set s = set t"
  using strict_sorted_equal by blast

lemma bts_ok_distinct: "bts_ok s \<Longrightarrow> distinct s"
  by (simp add: strict_sorted_iff)

section \<open>Maps\<close>

type_synonym ('k, 'v) btmap = "('k \<times> 'v) list"

abbreviation btm_ok :: "('k::linorder, 'v) btmap \<Rightarrow> bool" where
  "btm_ok m \<equiv> sorted_wrt (<) (map fst m)"

abbreviation btm_get :: "('k, 'v) btmap \<Rightarrow> 'k \<Rightarrow> 'v option" where
  "btm_get \<equiv> map_of"

definition btm_contains_key :: "('k, 'v) btmap \<Rightarrow> 'k \<Rightarrow> bool" where
  "btm_contains_key m k \<longleftrightarrow> btm_get m k \<noteq> None"

text \<open>\<open>insert\<close> replaces the value of a key that is present.\<close>

fun btm_insert :: "'k::linorder \<Rightarrow> 'v \<Rightarrow> ('k, 'v) btmap \<Rightarrow> ('k, 'v) btmap" where
  "btm_insert k v [] = [(k, v)]"
| "btm_insert k v (e # m) =
     (if k = fst e then (k, v) # m else if k < fst e then (k, v) # e # m else e # btm_insert k v m)"

definition btm_remove :: "'k \<Rightarrow> ('k, 'v) btmap \<Rightarrow> ('k, 'v) btmap" where
  "btm_remove k m = filter (\<lambda>e. fst e \<noteq> k) m"

text \<open>\<open>*m.entry(k).or_insert(d) = f(...)\<close>, with \<open>d\<close> the default of a fresh entry.\<close>

definition btm_entry :: "'k::linorder \<Rightarrow> 'v \<Rightarrow> ('v \<Rightarrow> 'v) \<Rightarrow> ('k, 'v) btmap \<Rightarrow> ('k, 'v) btmap" where
  "btm_entry k d f m = btm_insert k (f (case btm_get m k of None \<Rightarrow> d | Some v \<Rightarrow> v)) m"

lemma btm_keys_insert: "fst ` set (btm_insert k v m) = insert k (fst ` set m)"
  by (induction m) auto

lemma btm_ok_insert: "btm_ok m \<Longrightarrow> btm_ok (btm_insert k v m)"
proof (induction m)
  case (Cons e m)
  then show ?case using btm_keys_insert[of k v m] by auto
qed simp

lemma btm_get_None: "\<forall>e \<in> set m. (k::'k::linorder) < fst e \<Longrightarrow> btm_get m k = None"
  by (induction m) auto

lemma btm_get_insert: "btm_ok m \<Longrightarrow> btm_get (btm_insert k v m) = (btm_get m)(k \<mapsto> v)"
proof (induction m)
  case (Cons e m)
  then show ?case by (cases e) (auto simp: fun_eq_iff btm_get_None)
qed auto

lemma btm_get_remove: "btm_get (btm_remove k m) = (btm_get m)(k := None)"
  by (induction m) (auto simp: btm_remove_def fun_eq_iff)

lemma btm_ok_remove: "btm_ok m \<Longrightarrow> btm_ok (btm_remove k m)"
  unfolding btm_remove_def by (induction m) auto

section \<open>The contract of an ordered map\<close>

locale ordered_map =
  fixes empty :: "'m"
    and get :: "'m \<Rightarrow> 'k::linorder \<Rightarrow> 'v option"
    and put :: "'k \<Rightarrow> 'v \<Rightarrow> 'm \<Rightarrow> 'm"
    and remove :: "'k \<Rightarrow> 'm \<Rightarrow> 'm"
    and entries :: "'m \<Rightarrow> ('k \<times> 'v) list"
    and invar :: "'m \<Rightarrow> bool"
  assumes invar_empty: "invar empty"
    and invar_put: "invar m \<Longrightarrow> invar (put k v m)"
    and invar_remove: "invar m \<Longrightarrow> invar (remove k m)"
    and get_empty: "get empty k = None"
    and get_put: "invar m \<Longrightarrow> get (put k v m) = (get m)(k \<mapsto> v)"
    and get_remove: "invar m \<Longrightarrow> get (remove k m) = (get m)(k := None)"
    and entries_get: "invar m \<Longrightarrow> (k, v) \<in> set (entries m) \<longleftrightarrow> get m k = Some v"
    and entries_sorted: "invar m \<Longrightarrow> sorted_wrt (<) (map fst (entries m))"
begin

lemma get_put_same: "invar m \<Longrightarrow> get (put k v m) k = Some v"
  by (simp add: get_put)

lemma get_put_other: "invar m \<Longrightarrow> k \<noteq> j \<Longrightarrow> get (put k v m) j = get m j"
  by (simp add: get_put)

text \<open>Two maps with the same lookups iterate identically.\<close>

lemma entries_ext: 
  assumes "invar m" "invar n" "get m = get n"
  shows "entries m = entries n"
proof -
  have eq: "set (entries m) = set (entries n)"
    using assms entries_get[of m] entries_get[of n] by auto
  have d: "sorted (map fst (entries x)) \<and> distinct (map fst (entries x))" if "invar x" for x
    using entries_sorted[OF that] by (simp add: strict_sorted_iff)
  have "inj_on fst (set (entries m) \<union> set (entries n))"
    using d[OF assms(1)] eq by (simp add: distinct_map)
  then show ?thesis
    using eq d[OF assms(1)] d[OF assms(2)] by (intro map_sorted_distinct_set_unique) auto
qed

text \<open>A fold of insertions keeps the invariant and binds exactly the inserted keys.\<close>

lemma invar_fold_put: "invar m \<Longrightarrow> invar (fold (\<lambda>(k, v). put k v) es m)"
  by (induction es arbitrary: m) (auto intro: invar_put)

lemma dom_fold_put: "invar m \<Longrightarrow>
    dom (get (fold (\<lambda>(k, v). put k v) es m)) = fst ` set es \<union> dom (get m)"
proof (induction es arbitrary: m)
  case (Cons e es)
  then show ?case by (cases e) (auto simp: invar_put get_put)
qed simp

end

interpretation btm: ordered_map "[]" btm_get btm_insert btm_remove "\<lambda>m. m" btm_ok
proof unfold_locales
  fix m :: "('a::linorder \<times> 'b) list" and k v
  assume ok: "btm_ok m"
  then have d: "distinct (map fst m)" by (simp add: strict_sorted_iff)
  show "((k, v) \<in> set m) = (btm_get m k = Some v)"
    using map_of_eq_Some_iff[OF d, of k v] by blast
qed (simp_all add: btm_ok_insert btm_ok_remove btm_get_insert btm_get_remove)

lemma btm_eq_iff: "btm_ok m \<Longrightarrow> btm_ok n \<Longrightarrow> m = n \<longleftrightarrow> btm_get m = btm_get n"
  using btm.entries_ext by blast

lemma btm_get_entry: "btm_ok m \<Longrightarrow>
    btm_get (btm_entry k d f m) = (btm_get m)(k \<mapsto> f (case btm_get m k of None \<Rightarrow> d | Some v \<Rightarrow> v))"
  by (simp add: btm_entry_def btm_get_insert)

lemma btm_ok_entry: "btm_ok m \<Longrightarrow> btm_ok (btm_entry k d f m)"
  by (simp add: btm_entry_def btm_ok_insert)

lemma btm_empty_iff: "m = [] \<longleftrightarrow> (\<forall>k. btm_get m k = None)"
  by (cases m) auto

lemma btm_contains_iff: "btm_contains_key m k \<longleftrightarrow> k \<in> fst ` set m"
  by (auto simp: btm_contains_key_def map_of_eq_None_iff)

end
