(* ===== verification/Cap_Kinds.thy ===== *)
theory Cap_Kinds
  imports Ordered_Collections
begin

text \<open>
  The built-in capability vocabulary (crates/witchy-cap-model/src/lib.rs): the kinds of
  capability, their class, the rights each kind has, and the lookups by name that syntax
  resolution, type checking, footprint analysis and the host menus share.
\<close>

section \<open>Classes, rights and kinds\<close>

datatype CapabilityClass = HostClass | DerivedClass | BuildClass

datatype CapabilityRight =
    Read | Write | Connect | Listen | Tcp | Udp | Uds | Reveal | Seal

fun right_name :: "CapabilityRight \<Rightarrow> string" where
  "right_name Read = ''Read''"
| "right_name Write = ''Write''"
| "right_name Connect = ''Connect''"
| "right_name Listen = ''Listen''"
| "right_name Tcp = ''Tcp''"
| "right_name Udp = ''Udp''"
| "right_name Uds = ''Uds''"
| "right_name Reveal = ''Reveal''"
| "right_name Seal = ''Seal''"

definition READ_WRITE_RIGHTS :: "CapabilityRight list" where
  "READ_WRITE_RIGHTS = [Read, Write]"

definition NET_VERB_RIGHTS :: "CapabilityRight list" where
  "NET_VERB_RIGHTS = [Connect, Listen]"

definition NET_TRANSPORT_RIGHTS :: "CapabilityRight list" where
  "NET_TRANSPORT_RIGHTS = [Tcp, Udp, Uds]"

definition SECRET_RIGHTS :: "CapabilityRight list" where
  "SECRET_RIGHTS = [Reveal, Seal]"

definition NET_RIGHTS :: "CapabilityRight list" where
  "NET_RIGHTS = [Connect, Listen, Tcp, Udp, Uds]"

lemmas rights_consts = READ_WRITE_RIGHTS_def NET_VERB_RIGHTS_def NET_TRANSPORT_RIGHTS_def
  SECRET_RIGHTS_def NET_RIGHTS_def

datatype CapabilityKind =
    Console | Clock | Rand | Env | Secret | SecretStore | Dir | File | Net | Fetch | Exec
  | Socket | Listener | BuildOut | BuildRead | BuildEnv | BuildNet | BuildExec

definition kind_all :: "CapabilityKind list" where
  "kind_all = [Console, Clock, Rand, Env, Secret, SecretStore, Dir, File, Net, Fetch, Exec,
     Socket, Listener, BuildOut, BuildRead, BuildEnv, BuildNet, BuildExec]"

fun kind_name :: "CapabilityKind \<Rightarrow> string" where
  "kind_name Console = ''Console''"
| "kind_name Clock = ''Clock''"
| "kind_name Rand = ''Rand''"
| "kind_name Env = ''Env''"
| "kind_name Secret = ''Secret''"
| "kind_name SecretStore = ''SecretStore''"
| "kind_name Dir = ''Dir''"
| "kind_name File = ''File''"
| "kind_name Net = ''Net''"
| "kind_name Fetch = ''Fetch''"
| "kind_name Exec = ''Exec''"
| "kind_name Socket = ''Socket''"
| "kind_name Listener = ''Listener''"
| "kind_name BuildOut = ''BuildOut''"
| "kind_name BuildRead = ''BuildRead''"
| "kind_name BuildEnv = ''BuildEnv''"
| "kind_name BuildNet = ''BuildNet''"
| "kind_name BuildExec = ''BuildExec''"

fun kind_class :: "CapabilityKind \<Rightarrow> CapabilityClass" where
  "kind_class Socket = DerivedClass"
| "kind_class Listener = DerivedClass"
| "kind_class BuildOut = BuildClass"
| "kind_class BuildRead = BuildClass"
| "kind_class BuildEnv = BuildClass"
| "kind_class BuildNet = BuildClass"
| "kind_class BuildExec = BuildClass"
| "kind_class _ = HostClass"

fun kind_rights :: "CapabilityKind \<Rightarrow> CapabilityRight list" where
  "kind_rights Console = READ_WRITE_RIGHTS"
| "kind_rights Dir = READ_WRITE_RIGHTS"
| "kind_rights File = READ_WRITE_RIGHTS"
| "kind_rights Net = NET_RIGHTS"
| "kind_rights Secret = SECRET_RIGHTS"
| "kind_rights _ = []"

definition kind_right :: "CapabilityKind \<Rightarrow> string \<Rightarrow> CapabilityRight option" where
  "kind_right k name = List.find (\<lambda>r. right_name r = name) (kind_rights k)"

definition builtin_arity :: "CapabilityKind \<Rightarrow> nat option" where
  "builtin_arity k = (if kind_rights k = [] then Some 0 else None)"

definition kind_from_name :: "string \<Rightarrow> CapabilityKind option" where
  "kind_from_name name =
    (if name = ''Console'' then Some Console
     else if name = ''Clock'' then Some Clock
     else if name = ''Rand'' then Some Rand
     else if name = ''Env'' then Some Env
     else if name = ''Secret'' then Some Secret
     else if name = ''SecretStore'' then Some SecretStore
     else if name = ''Dir'' then Some Dir
     else if name = ''File'' then Some File
     else if name = ''Net'' then Some Net
     else if name = ''Fetch'' then Some Fetch
     else if name = ''Exec'' then Some Exec
     else if name = ''Socket'' then Some Socket
     else if name = ''Listener'' then Some Listener
     else if name = ''BuildOut'' then Some BuildOut
     else if name = ''BuildRead'' then Some BuildRead
     else if name = ''BuildEnv'' then Some BuildEnv
     else if name = ''BuildNet'' then Some BuildNet
     else if name = ''BuildExec'' then Some BuildExec
     else None)"

definition is_capability_type_name :: "string \<Rightarrow> bool" where
  "is_capability_type_name name \<longleftrightarrow> kind_from_name name \<noteq> None"

definition bears_rights_markers :: "string \<Rightarrow> bool" where
  "bears_rights_markers name =
     (case kind_from_name name of None \<Rightarrow> False | Some k \<Rightarrow> kind_rights k \<noteq> [])"

definition is_host_capability :: "string \<Rightarrow> bool" where
  "is_host_capability name =
     (case kind_from_name name of None \<Rightarrow> False | Some k \<Rightarrow> kind_class k = HostClass)"

definition is_build_capability :: "string \<Rightarrow> bool" where
  "is_build_capability name =
     (case kind_from_name name of None \<Rightarrow> False | Some k \<Rightarrow> kind_class k = BuildClass)"

section \<open>The derived order\<close>

text \<open>\<open>#[derive(PartialOrd, Ord)]\<close> compares by declaration order.\<close>

fun right_index :: "CapabilityRight \<Rightarrow> nat" where
  "right_index Read = 0"
| "right_index Write = 1"
| "right_index Connect = 2"
| "right_index Listen = 3"
| "right_index Tcp = 4"
| "right_index Udp = 5"
| "right_index Uds = 6"
| "right_index Reveal = 7"
| "right_index Seal = 8"

fun kind_index :: "CapabilityKind \<Rightarrow> nat" where
  "kind_index Console = 0"
| "kind_index Clock = 1"
| "kind_index Rand = 2"
| "kind_index Env = 3"
| "kind_index Secret = 4"
| "kind_index SecretStore = 5"
| "kind_index Dir = 6"
| "kind_index File = 7"
| "kind_index Net = 8"
| "kind_index Fetch = 9"
| "kind_index Exec = 10"
| "kind_index Socket = 11"
| "kind_index Listener = 12"
| "kind_index BuildOut = 13"
| "kind_index BuildRead = 14"
| "kind_index BuildEnv = 15"
| "kind_index BuildNet = 16"
| "kind_index BuildExec = 17"

lemma right_index_inj: "right_index a = right_index b \<longleftrightarrow> a = b"
  by (cases a; cases b) simp_all

lemma kind_index_all: "kind_all ! kind_index k = k"
  by (cases k) (simp_all add: kind_all_def)

lemma kind_index_inj: "kind_index a = kind_index b \<longleftrightarrow> a = b"
  by (metis kind_index_all)

instantiation CapabilityRight :: linorder
begin

definition less_eq_CapabilityRight :: "CapabilityRight \<Rightarrow> CapabilityRight \<Rightarrow> bool" where
  "less_eq_CapabilityRight a b \<longleftrightarrow> right_index a \<le> right_index b"

definition less_CapabilityRight :: "CapabilityRight \<Rightarrow> CapabilityRight \<Rightarrow> bool" where
  "less_CapabilityRight a b \<longleftrightarrow> right_index a < right_index b"

instance
  by standard (auto simp: less_eq_CapabilityRight_def less_CapabilityRight_def right_index_inj)

end

instantiation CapabilityKind :: linorder
begin

definition less_eq_CapabilityKind :: "CapabilityKind \<Rightarrow> CapabilityKind \<Rightarrow> bool" where
  "less_eq_CapabilityKind a b \<longleftrightarrow> kind_index a \<le> kind_index b"

definition less_CapabilityKind :: "CapabilityKind \<Rightarrow> CapabilityKind \<Rightarrow> bool" where
  "less_CapabilityKind a b \<longleftrightarrow> kind_index a < kind_index b"

instance
  by standard (auto simp: less_eq_CapabilityKind_def less_CapabilityKind_def kind_index_inj)

end

section \<open>Lookups by name\<close>

lemma in_kind_all [simp]: "k \<in> set kind_all"
  by (cases k) (simp_all add: kind_all_def)

lemma kind_from_name_name: "kind_from_name (kind_name k) = Some k"
  by (cases k) (simp_all add: kind_from_name_def)

lemma kind_from_name_sound: "kind_from_name s = Some k \<Longrightarrow> kind_name k = s"
  unfolding kind_from_name_def by (elim if_SomeE) simp_all

interpretation kind_names: coding kind_name kind_from_name
  by unfold_locales (simp_all add: kind_from_name_name kind_from_name_sound)

lemma right_name_inj: "right_name a = right_name b \<longleftrightarrow> a = b"
  by (cases a; cases b) simp_all

lemma kind_rights_distinct: "distinct (kind_rights k)"
  by (cases k) (simp_all add: rights_consts)

lemma kind_right_Some_iff: "kind_right k s = Some r \<longleftrightarrow> r \<in> set (kind_rights k) \<and> right_name r = s"
proof
  assume "kind_right k s = Some r"
  then show "r \<in> set (kind_rights k) \<and> right_name r = s"
    unfolding kind_right_def by (rule find_in_set)
next
  assume r: "r \<in> set (kind_rights k) \<and> right_name r = s"
  then obtain r' where "kind_right k s = Some r'"
    unfolding kind_right_def using find_None[of "\<lambda>r. right_name r = s" "kind_rights k"]
    by (metis not_None_eq)
  moreover from this have "right_name r' = s"
    unfolding kind_right_def by (auto dest: find_in_set)
  ultimately show "kind_right k s = Some r" using r right_name_inj[of r r'] by simp
qed

lemma kind_right_name: "r \<in> set (kind_rights k) \<Longrightarrow> kind_right k (right_name r) = Some r"
  by (simp add: kind_right_Some_iff)

text \<open>No right is shared between two lattices other than \<open>Read\<close>/\<open>Write\<close>, and only the kinds with
  rights have a non-zero arity.\<close>

lemma builtin_arity_iff: "builtin_arity k = Some 0 \<longleftrightarrow> \<not> bears_rights_markers (kind_name k)"
  by (simp add: builtin_arity_def bears_rights_markers_def kind_from_name_name)

lemma host_build_disjoint: "\<not> (is_host_capability s \<and> is_build_capability s)"
  by (auto simp: is_host_capability_def is_build_capability_def split: option.splits)

end
