(* ===== verification/Dir_Policy.thy ===== *)
theory Dir_Policy
  imports Ordered_Collections
begin

text \<open>
  Directory entry policies (crates/witchy-cap-model/src/lib.rs, \<open>dir_only\<close> and \<open>dir_admits\<close>): a
  policy is a newline-separated list of \<open>dimension:value\<close> rows, the empty string is
  unrestricted, and a refinement that cannot be honoured collapses to a sentinel that admits
  nothing. The theory shows that a refinement never widens a policy, that it enforces the
  requested constraints, and that denial is final.
\<close>

abbreviation nl :: char where "nl \<equiv> CHR 0x0A"

section \<open>The operations\<close>

definition DIR_DENY_ALL :: string where
  "DIR_DENY_ALL = [CHR 0x00]"

text \<open>The inner function \<open>group\<close>: the rows of a policy by dimension.\<close>

definition dir_group_row :: "string \<Rightarrow> (string, string btset) btmap \<Rightarrow> (string, string btset) btmap" where
  "dir_group_row pattern grouped =
     (case split_once CHR '':'' pattern of
        None \<Rightarrow> grouped
      | Some (dimension, _) \<Rightarrow> btm_entry dimension [] (bts_insert pattern) grouped)"

definition dir_group :: "string \<Rightarrow> (string, string btset) btmap" where
  "dir_group value = fold dir_group_row (split_on nl value) []"

text \<open>The loop over the refinement's dimensions, which returns early on an empty intersection.\<close>

fun dir_narrow :: "(string, string btset) btmap \<Rightarrow> (string \<times> string btset) list \<Rightarrow> string btset
    \<Rightarrow> string btset option" where
  "dir_narrow current [] narrowed = Some narrowed"
| "dir_narrow current ((dimension, patterns) # refinement) narrowed =
     (case btm_get current dimension of
        Some existing \<Rightarrow>
          (let intersection = bts_intersection patterns existing
           in if intersection = [] then None
              else dir_narrow current refinement (bts_extend intersection narrowed))
      | None \<Rightarrow> dir_narrow current refinement (bts_extend patterns narrowed))"

definition dir_keep :: "(string, string btset) btmap \<Rightarrow> (string, string btset) btmap \<Rightarrow> string btset" where
  "dir_keep current refinement =
     fold (\<lambda>(dimension, patterns) narrowed.
             if btm_contains_key refinement dimension then narrowed
             else bts_extend patterns narrowed) current []"

definition dir_only :: "string \<Rightarrow> string \<Rightarrow> string" where
  "dir_only current refine =
     (if refine = [] then current
      else let refinement = dir_group refine in
        if refinement = [] then DIR_DENY_ALL
        else if current = [] then refine
        else if list_ex (\<lambda>pattern. CHR '':'' \<notin> set pattern) (split_on nl current) then DIR_DENY_ALL
        else let cur = dir_group current in
          (case dir_narrow cur refinement (dir_keep cur refinement) of
             None \<Rightarrow> DIR_DENY_ALL
           | Some narrowed \<Rightarrow> join_with [nl] narrowed))"

text \<open>The scan of \<open>dir_admits\<close> over the rows, with its four flags.\<close>

fun dir_scan :: "string \<Rightarrow> bool \<Rightarrow> string list \<Rightarrow> bool \<Rightarrow> bool \<Rightarrow> bool \<Rightarrow> bool \<Rightarrow> bool" where
  "dir_scan name is_dir [] has_extension extension_allowed has_kind kind_allowed =
     ((\<not> has_extension \<or> extension_allowed) \<and> (\<not> has_kind \<or> kind_allowed))"
| "dir_scan name is_dir (pattern # rows) has_extension extension_allowed has_kind kind_allowed =
     (if pattern = DIR_DENY_ALL then False
      else (case strip_prefix ''ext:'' pattern of
        Some extension \<Rightarrow>
          dir_scan name is_dir rows True (extension_allowed \<or> is_dir \<or> ends_with extension name)
            has_kind kind_allowed
      | None \<Rightarrow> (case strip_prefix ''kind:'' pattern of
          Some kind \<Rightarrow>
            dir_scan name is_dir rows has_extension extension_allowed True
              (kind_allowed \<or> ((kind = ''dir'') = is_dir))
        | None \<Rightarrow> dir_scan name is_dir rows has_extension extension_allowed has_kind kind_allowed)))"

definition dir_admits :: "string \<Rightarrow> string \<Rightarrow> bool \<Rightarrow> bool" where
  "dir_admits policy name is_dir =
     (if policy = [] then True
      else dir_scan name is_dir (split_on nl policy) False False False False)"

section \<open>What a policy means\<close>

definition dir_row_dim :: "string \<Rightarrow> string option" where
  "dir_row_dim pattern = map_option fst (split_once CHR '':'' pattern)"

definition dir_row_admits :: "string \<Rightarrow> bool \<Rightarrow> string \<Rightarrow> bool" where
  "dir_row_admits name is_dir pattern =
     (case strip_prefix ''ext:'' pattern of
        Some extension \<Rightarrow> is_dir \<or> ends_with extension name
      | None \<Rightarrow> (case strip_prefix ''kind:'' pattern of
          Some kind \<Rightarrow> (kind = ''dir'') = is_dir
        | None \<Rightarrow> True))"

text \<open>
  The declarative reading of a set of rows: no row is the sentinel, and each of the two
  dimensions that is constrained has a row that admits the entry.
\<close>

definition dir_rows_admit :: "string set \<Rightarrow> string \<Rightarrow> bool \<Rightarrow> bool" where
  "dir_rows_admit rows name is_dir \<longleftrightarrow>
     DIR_DENY_ALL \<notin> rows \<and>
     (\<forall>d \<in> {''ext'', ''kind''}. (\<exists>p \<in> rows. dir_row_dim p = Some d) \<longrightarrow>
        (\<exists>p \<in> rows. dir_row_dim p = Some d \<and> dir_row_admits name is_dir p))"

lemma dir_row_dim_Some: "dir_row_dim p = Some d \<longleftrightarrow> (\<exists>v. p = d @ CHR '':'' # v \<and> CHR '':'' \<notin> set d)"
  by (auto simp: dir_row_dim_def string_simps)

lemma dir_row_dim_None: "dir_row_dim p = None \<longleftrightarrow> CHR '':'' \<notin> set p"
  by (auto simp: dir_row_dim_def string_simps)

lemma strip_ext_iff: "strip_prefix ''ext:'' p = Some v \<longleftrightarrow> p = ''ext'' @ CHR '':'' # v"
  by (simp add: string_simps)

lemma strip_kind_iff: "strip_prefix ''kind:'' p = Some v \<longleftrightarrow> p = ''kind'' @ CHR '':'' # v"
  by (simp add: string_simps)

lemma strip_ext_dim: "(strip_prefix ''ext:'' p = None) \<longleftrightarrow> dir_row_dim p \<noteq> Some ''ext''"
  by (auto simp: dir_row_dim_Some strip_prefix_None starts_with_iff)

lemma strip_kind_dim: "(strip_prefix ''kind:'' p = None) \<longleftrightarrow> dir_row_dim p \<noteq> Some ''kind''"
  by (auto simp: dir_row_dim_Some strip_prefix_None starts_with_iff)

lemma DIR_DENY_ALL_dim: "dir_row_dim DIR_DENY_ALL = None"
  by (simp add: dir_row_dim_None DIR_DENY_ALL_def)

lemma dir_scan_spec:
  "dir_scan name is_dir rows he ea hk ka \<longleftrightarrow>
     DIR_DENY_ALL \<notin> set rows \<and>
     (he \<or> (\<exists>p \<in> set rows. dir_row_dim p = Some ''ext'') \<longrightarrow>
        ea \<or> (\<exists>p \<in> set rows. dir_row_dim p = Some ''ext'' \<and> dir_row_admits name is_dir p)) \<and>
     (hk \<or> (\<exists>p \<in> set rows. dir_row_dim p = Some ''kind'') \<longrightarrow>
        ka \<or> (\<exists>p \<in> set rows. dir_row_dim p = Some ''kind'' \<and> dir_row_admits name is_dir p))"
proof (induction rows arbitrary: he ea hk ka)
  case (Cons p rows)
  consider (deny) "p = DIR_DENY_ALL"
    | (ext) v where "p \<noteq> DIR_DENY_ALL" "strip_prefix ''ext:'' p = Some v"
    | (kind) v where "p \<noteq> DIR_DENY_ALL" "strip_prefix ''ext:'' p = None"
        "strip_prefix ''kind:'' p = Some v"
    | (other) "p \<noteq> DIR_DENY_ALL" "strip_prefix ''ext:'' p = None" "strip_prefix ''kind:'' p = None"
    by (meson not_None_eq)
  then show ?case
  proof cases
    case deny
    then show ?thesis by simp
  next
    case ext
    then have "dir_row_dim p = Some ''ext''"
      using strip_ext_dim[of p] by simp
    with ext show ?thesis by (auto simp: Cons.IH dir_row_admits_def)
  next
    case kind
    then have "dir_row_dim p = Some ''kind''"
      using strip_kind_dim[of p] by simp
    with kind show ?thesis by (auto simp: Cons.IH dir_row_admits_def)
  next
    case other
    then have "dir_row_dim p \<noteq> Some ''ext''" "dir_row_dim p \<noteq> Some ''kind''"
      using strip_ext_dim[of p] strip_kind_dim[of p] by simp_all
    with other show ?thesis by (auto simp: Cons.IH)
  qed
qed simp

lemma dir_admits_rows: "policy \<noteq> [] \<Longrightarrow>
    dir_admits policy name is_dir \<longleftrightarrow> dir_rows_admit (set (split_on nl policy)) name is_dir"
  by (auto simp: dir_admits_def dir_scan_spec dir_rows_admit_def)

lemma dir_admits_deny_all [simp]: "\<not> dir_admits DIR_DENY_ALL name is_dir"
  by (simp add: dir_admits_def DIR_DENY_ALL_def)

section \<open>What grouping and narrowing compute\<close>

definition rows_of_dim :: "string list \<Rightarrow> string \<Rightarrow> string set" where
  "rows_of_dim rows d = {p \<in> set rows. dir_row_dim p = Some d}"

definition grouped_rows :: "(string, string btset) btmap \<Rightarrow> string \<Rightarrow> string set" where
  "grouped_rows m d = (case btm_get m d of None \<Rightarrow> {} | Some s \<Rightarrow> set s)"

definition dir_group_inv :: "(string, string btset) btmap \<Rightarrow> bool" where
  "dir_group_inv m \<longleftrightarrow> btm_ok m \<and> (\<forall>d. btm_get m d \<noteq> Some [])"

lemma dir_group_row_step:
  assumes "dir_group_inv m"
  shows "dir_group_inv (dir_group_row p m) \<and>
    grouped_rows (dir_group_row p m) d = grouped_rows m d \<union> rows_of_dim [p] d"
proof (cases "split_once CHR '':'' p")
  case None
  then have "dir_row_dim p = None" by (simp add: dir_row_dim_def)
  with None assms show ?thesis by (auto simp: dir_group_row_def rows_of_dim_def)
next
  case (Some ev)
  then obtain e v where ev: "split_once CHR '':'' p = Some (e, v)" by (cases ev) auto
  have ok: "btm_ok m" using assms by (simp add: dir_group_inv_def)
  have dim: "dir_row_dim p = Some e" by (simp add: dir_row_dim_def ev)
  have row: "dir_group_row p m = btm_entry e [] (bts_insert p) m"
    by (simp add: dir_group_row_def ev)
  have "bts_insert p s \<noteq> []" for s by (metis insert_not_empty list.set(1) set_bts_insert)
  with assms have "dir_group_inv (dir_group_row p m)"
    by (auto simp: dir_group_inv_def row btm_get_entry[OF ok] btm_ok_entry)
  moreover have "grouped_rows (dir_group_row p m) d = grouped_rows m d \<union> rows_of_dim [p] d"
    by (auto simp: grouped_rows_def row btm_get_entry[OF ok] rows_of_dim_def dim split: option.splits)
  ultimately show ?thesis ..
qed

lemma dir_group_fold:
  assumes "dir_group_inv m"
  shows "dir_group_inv (fold dir_group_row rows m) \<and>
    grouped_rows (fold dir_group_row rows m) d = grouped_rows m d \<union> rows_of_dim rows d"
  using assms
proof (induction rows arbitrary: m)
  case Nil
  then show ?case by (simp add: rows_of_dim_def)
next
  case (Cons p rows)
  note step = dir_group_row_step[OF Cons.prems, of p d]
  from step have inv: "dir_group_inv (dir_group_row p m)" ..
  from Cons.IH[OF inv] step show ?case by (auto simp: rows_of_dim_def)
qed

lemma dir_group_inv: "dir_group_inv (dir_group v)"
  unfolding dir_group_def using dir_group_fold[of "[]"] by (simp add: dir_group_inv_def)

lemma dir_group_ok: "btm_ok (dir_group v)"
  using dir_group_inv by (simp add: dir_group_inv_def)

lemma dir_group_rows: "grouped_rows (dir_group v) d = rows_of_dim (split_on nl v) d"
  unfolding dir_group_def using dir_group_fold[of "[]" "split_on nl v" d]
  by (simp add: dir_group_inv_def grouped_rows_def)

lemma dir_group_None: "btm_get (dir_group v) d = None \<longleftrightarrow> rows_of_dim (split_on nl v) d = {}"
  using dir_group_rows[of v d] dir_group_inv[of v]
  by (auto simp: grouped_rows_def dir_group_inv_def split: option.splits)

lemma dir_group_Some: "btm_get (dir_group v) d = Some s \<Longrightarrow> set s = rows_of_dim (split_on nl v) d"
  using dir_group_rows[of v d] by (simp add: grouped_rows_def)

lemma dir_group_mem: "(d, s) \<in> set (dir_group v) \<longleftrightarrow> btm_get (dir_group v) d = Some s"
  using btm.entries_get[OF dir_group_ok] .

lemma dir_keep_fold:
  "p \<in> set (fold (\<lambda>(d, s) acc. if btm_contains_key m d then acc else bts_extend s acc) es acc) \<longleftrightarrow>
     p \<in> set acc \<or> (\<exists>e \<in> set es. \<not> btm_contains_key m (fst e) \<and> p \<in> set (snd e))"
  by (induction es arbitrary: acc) (auto split: if_splits)

lemma dir_group_bex: "(\<exists>e \<in> set (dir_group v). Q (fst e) (snd e)) \<longleftrightarrow>
    (\<exists>d s. btm_get (dir_group v) d = Some s \<and> Q d s)"
  using dir_group_mem by force

lemma dir_group_grouped: "(\<exists>e \<in> set (dir_group v). p \<in> set (snd e) \<and> Q (fst e)) \<longleftrightarrow>
    (\<exists>d. p \<in> grouped_rows (dir_group v) d \<and> Q d)"
  unfolding dir_group_bex[of v "\<lambda>d s. p \<in> set s \<and> Q d"] grouped_rows_def
  by (auto split: option.splits)

lemma dir_keep_mem:
  "p \<in> set (dir_keep (dir_group c) (dir_group r)) \<longleftrightarrow>
     p \<in> set (split_on nl c) \<and> (\<exists>d. dir_row_dim p = Some d \<and> rows_of_dim (split_on nl r) d = {})"
proof -
  have "p \<in> set (dir_keep (dir_group c) (dir_group r)) \<longleftrightarrow>
      (\<exists>d s. btm_get (dir_group c) d = Some s \<and> \<not> btm_contains_key (dir_group r) d \<and> p \<in> set s)"
    unfolding dir_keep_def dir_keep_fold
    using dir_group_bex[of c "\<lambda>d s. \<not> btm_contains_key (dir_group r) d \<and> p \<in> set s"] by simp
  also have "\<dots> \<longleftrightarrow> (\<exists>d. p \<in> grouped_rows (dir_group c) d \<and> btm_get (dir_group r) d = None)"
    by (auto simp: grouped_rows_def btm_contains_key_def split: option.splits)
  finally show ?thesis
    by (auto simp: dir_group_rows dir_group_None rows_of_dim_def)
qed

lemma dir_narrow_mem:
  "dir_narrow cur es acc = Some res \<Longrightarrow>
     (p \<in> set res \<longleftrightarrow> p \<in> set acc \<or>
        (\<exists>e \<in> set es. p \<in> set (snd e) \<and> (btm_get cur (fst e) = None \<or> p \<in> grouped_rows cur (fst e))))
     \<and> (\<forall>e \<in> set es. btm_get cur (fst e) \<noteq> None \<longrightarrow> set (snd e) \<inter> grouped_rows cur (fst e) \<noteq> {})"
proof (induction cur es acc rule: dir_narrow.induct)
  case (2 cur d s es acc)
  show ?case
  proof (cases "btm_get cur d")
    case None
    with 2 show ?thesis by auto
  next
    case (Some t)
    with "2.prems" have ne: "bts_intersection s t \<noteq> []"
      and rec: "dir_narrow cur es (bts_extend (bts_intersection s t) acc) = Some res"
      by (auto simp: Let_def split: if_splits)
    from ne have "set s \<inter> set t \<noteq> {}" by (metis set_bts_intersection set_empty)
    with "2.IH"(2)[OF Some refl ne rec] Some show ?thesis by (auto simp: grouped_rows_def)
  qed
qed simp

text \<open>
  A refinement of a constrained policy either denies everything or has exactly these rows: the
  current rows of the dimensions the refinement leaves alone, and the requested rows that the
  current policy has too or whose dimension it leaves alone.
\<close>

lemma dir_only_cases:
  assumes c: "c \<noteq> []" and r: "r \<noteq> []" and nd: "dir_only c r \<noteq> DIR_DENY_ALL"
  shows "\<exists>res. dir_only c r = join_with [nl] res \<and> res \<noteq> []
      \<and> (\<forall>p \<in> set (split_on nl c). CHR '':'' \<in> set p)
      \<and> (\<forall>p. p \<in> set res \<longleftrightarrow>
         p \<in> set (split_on nl c) \<and> (\<exists>d. dir_row_dim p = Some d \<and> rows_of_dim (split_on nl r) d = {})
         \<or> (\<exists>d. p \<in> rows_of_dim (split_on nl r) d \<and>
             (rows_of_dim (split_on nl c) d = {} \<or> p \<in> rows_of_dim (split_on nl c) d)))
      \<and> (\<forall>d. rows_of_dim (split_on nl c) d \<noteq> {} \<longrightarrow> rows_of_dim (split_on nl r) d \<noteq> {} \<longrightarrow>
         rows_of_dim (split_on nl c) d \<inter> rows_of_dim (split_on nl r) d \<noteq> {})"
    (is "\<exists>res. _ \<and> _ \<and> _ \<and> ?mem res \<and> ?over")
proof -
  from c r nd obtain res where g: "dir_group r \<noteq> []"
    and colon: "\<forall>p \<in> set (split_on nl c). CHR '':'' \<in> set p"
    and res: "dir_narrow (dir_group c) (dir_group r) (dir_keep (dir_group c) (dir_group r)) = Some res"
    and only: "dir_only c r = join_with [nl] res"
    by (auto simp: dir_only_def Let_def list_ex_iff split: if_splits option.splits)
  note narrow = dir_narrow_mem[OF res]
  have member: "?mem res"
  proof
    fix p
    have "(\<exists>e \<in> set (dir_group r). p \<in> set (snd e) \<and>
          (btm_get (dir_group c) (fst e) = None \<or> p \<in> grouped_rows (dir_group c) (fst e)))
       \<longleftrightarrow> (\<exists>d. p \<in> grouped_rows (dir_group r) d \<and>
            (btm_get (dir_group c) d = None \<or> p \<in> grouped_rows (dir_group c) d))"
      by (rule dir_group_grouped)
    then show "p \<in> set res \<longleftrightarrow>
         p \<in> set (split_on nl c) \<and> (\<exists>d. dir_row_dim p = Some d \<and> rows_of_dim (split_on nl r) d = {})
         \<or> (\<exists>d. p \<in> rows_of_dim (split_on nl r) d \<and>
             (rows_of_dim (split_on nl c) d = {} \<or> p \<in> rows_of_dim (split_on nl c) d))"
      using narrow[of p] by (simp add: dir_keep_mem dir_group_rows dir_group_None)
  qed
  have overlap: ?over
  proof (intro allI impI)
    fix d assume cd: "rows_of_dim (split_on nl c) d \<noteq> {}" and rd: "rows_of_dim (split_on nl r) d \<noteq> {}"
    from rd obtain s where s: "btm_get (dir_group r) d = Some s"
      using dir_group_None[of r d] by auto
    from s have "(d, s) \<in> set (dir_group r)" by (simp add: dir_group_mem)
    with narrow have "btm_get (dir_group c) d \<noteq> None \<longrightarrow> set s \<inter> grouped_rows (dir_group c) d \<noteq> {}"
      by fastforce
    with cd show "rows_of_dim (split_on nl c) d \<inter> rows_of_dim (split_on nl r) d \<noteq> {}"
      by (auto simp: dir_group_Some[OF s] dir_group_rows dir_group_None)
  qed
  obtain e es where e: "dir_group r = e # es" using g by (cases "dir_group r") auto
  have "btm_get (dir_group r) (fst e) \<noteq> None" by (cases e) (simp add: e)
  then obtain q where q: "q \<in> rows_of_dim (split_on nl r) (fst e)"
    unfolding dir_group_None ex_in_conv[symmetric] ..
  have "\<exists>p. p \<in> set res"
  proof (cases "rows_of_dim (split_on nl c) (fst e) = {}")
    case True
    with q member have "q \<in> set res" by blast
    then show ?thesis ..
  next
    case False
    with overlap q obtain p where
      "p \<in> rows_of_dim (split_on nl c) (fst e)" "p \<in> rows_of_dim (split_on nl r) (fst e)" by blast
    with member have "p \<in> set res" by blast
    then show ?thesis ..
  qed
  then have "res \<noteq> []" by auto
  with only colon member overlap show ?thesis by (intro exI[of _ res] conjI) assumption+
qed

text \<open>
  Rows \<open>n\<close> implement both \<open>c\<close> and \<open>r\<close>: a dimension that either constrains is constrained by \<open>n\<close>,
  and only by rows that each side allows in it.
\<close>

definition rows_refine :: "string set \<Rightarrow> string set \<Rightarrow> bool" where
  "rows_refine n c \<longleftrightarrow> (\<forall>d. (\<exists>p \<in> c. dir_row_dim p = Some d) \<longrightarrow>
     (\<exists>p \<in> n. dir_row_dim p = Some d) \<and> (\<forall>p \<in> n. dir_row_dim p = Some d \<longrightarrow> p \<in> c))"

lemma rows_refine_admit:
  assumes ref: "rows_refine n c" and n: "dir_rows_admit n name is_dir" and deny: "DIR_DENY_ALL \<notin> c"
  shows "dir_rows_admit c name is_dir"
  unfolding dir_rows_admit_def
proof (intro conjI ballI impI)
  fix d assume d: "d \<in> {''ext'', ''kind''}" and "\<exists>p \<in> c. dir_row_dim p = Some d"
  with ref have ex: "\<exists>p \<in> n. dir_row_dim p = Some d"
    and sub: "\<forall>p \<in> n. dir_row_dim p = Some d \<longrightarrow> p \<in> c" by (simp_all add: rows_refine_def)
  from n d ex obtain p where "p \<in> n" "dir_row_dim p = Some d" "dir_row_admits name is_dir p"
    unfolding dir_rows_admit_def by meson
  with sub show "\<exists>p \<in> c. dir_row_dim p = Some d \<and> dir_row_admits name is_dir p" by blast
qed (rule deny)

lemma dir_only_refines:
  assumes c: "c \<noteq> []" and r: "r \<noteq> []" and nd: "dir_only c r \<noteq> DIR_DENY_ALL"
  shows "dir_only c r \<noteq> []" "DIR_DENY_ALL \<notin> set (split_on nl c)"
    "rows_refine (set (split_on nl (dir_only c r))) (set (split_on nl c))"
    "rows_refine (set (split_on nl (dir_only c r))) (set (split_on nl r))"
proof -
  let ?C = "set (split_on nl c)" and ?R = "set (split_on nl r)"
  from dir_only_cases[OF c r nd] obtain res where only: "dir_only c r = join_with [nl] res"
    and ne: "res \<noteq> []" and colon: "\<forall>p \<in> ?C. CHR '':'' \<in> set p"
    and mem: "\<forall>p. p \<in> set res \<longleftrightarrow>
         p \<in> ?C \<and> (\<exists>d. dir_row_dim p = Some d \<and> rows_of_dim (split_on nl r) d = {})
         \<or> (\<exists>d. p \<in> rows_of_dim (split_on nl r) d \<and>
             (rows_of_dim (split_on nl c) d = {} \<or> p \<in> rows_of_dim (split_on nl c) d))"
    and overlap: "\<forall>d. rows_of_dim (split_on nl c) d \<noteq> {} \<longrightarrow> rows_of_dim (split_on nl r) d \<noteq> {} \<longrightarrow>
         rows_of_dim (split_on nl c) d \<inter> rows_of_dim (split_on nl r) d \<noteq> {}"
    by (elim exE conjE) rule
  have in_res: "p \<in> set res \<longleftrightarrow> (p \<in> ?C \<or> p \<in> ?R) \<and>
      (p \<in> ?C \<or> rows_of_dim (split_on nl c) d = {}) \<and>
      (p \<in> ?R \<or> rows_of_dim (split_on nl r) d = {})" if "dir_row_dim p = Some d" for p d
    using mem[rule_format, of p] that by (auto simp: rows_of_dim_def)
  have ex: "\<exists>p \<in> set res. dir_row_dim p = Some d" if q: "q \<in> ?C \<union> ?R" "dir_row_dim q = Some d" for q d
  proof (cases "rows_of_dim (split_on nl c) d = {} \<or> rows_of_dim (split_on nl r) d = {}")
    case True
    with q in_res[OF q(2)] show ?thesis by (intro bexI[of _ q]) (auto simp: rows_of_dim_def)
  next
    case False
    with overlap[rule_format, of d] obtain p where "p \<in> ?C" "p \<in> ?R" "dir_row_dim p = Some d"
      by (auto simp: rows_of_dim_def)
    with in_res[of p d] show ?thesis by blast
  qed
  have sub: "p \<in> X" if "p \<in> set res" "dir_row_dim p = Some d" "q \<in> X" "dir_row_dim q = Some d"
    "X = ?C \<or> X = ?R" for p q d X
    using that in_res[OF that(2)] by (auto simp: rows_of_dim_def)
  have split: "split_on nl (dir_only c r) = res"
    unfolding only
  proof (rule split_on_join[OF ne])
    fix p assume "p \<in> set res"
    then have "p \<in> ?C \<union> ?R" using mem by (auto simp: rows_of_dim_def)
    then show "nl \<notin> set p" using split_on_no_sep by blast
  qed
  show "dir_only c r \<noteq> []"
  proof
    assume "dir_only c r = []"
    then have "[] \<in> set res" using split by auto
    then show False using mem[rule_format, of "[]"] by (simp add: dir_row_dim_def rows_of_dim_def)
  qed
  show "DIR_DENY_ALL \<notin> ?C"
    using colon by (auto simp: DIR_DENY_ALL_def)
  show "rows_refine (set (split_on nl (dir_only c r))) ?C"
    "rows_refine (set (split_on nl (dir_only c r))) ?R"
    unfolding split rows_refine_def using ex sub by blast+
qed

section \<open>Refinement never widens\<close>

lemma dir_only_narrows:
  assumes adm: "dir_admits (dir_only c r) name is_dir"
  shows "dir_admits c name is_dir"
proof (cases "c = [] \<or> r = []")
  case True
  then show ?thesis using adm by (auto simp: dir_admits_def dir_only_def)
next
  case False
  then have c: "c \<noteq> []" and r: "r \<noteq> []" by auto
  from adm have nd: "dir_only c r \<noteq> DIR_DENY_ALL" by auto
  note ref = dir_only_refines[OF c r nd]
  from adm have "dir_rows_admit (set (split_on nl (dir_only c r))) name is_dir"
    by (simp add: dir_admits_rows[OF ref(1)])
  then show ?thesis
    using rows_refine_admit[OF ref(3) _ ref(2)] by (simp add: dir_admits_rows[OF c])
qed

lemma dir_only_enforces:
  assumes adm: "dir_admits (dir_only c r) name is_dir"
    and r: "r \<noteq> []" and nodeny: "DIR_DENY_ALL \<notin> set (split_on nl r)"
  shows "dir_admits r name is_dir"
proof (cases "c = []")
  case True
  then show ?thesis using adm r by (auto simp: dir_only_def Let_def split: if_splits)
next
  case False
  from adm have nd: "dir_only c r \<noteq> DIR_DENY_ALL" by auto
  note ref = dir_only_refines[OF False r nd]
  from adm have "dir_rows_admit (set (split_on nl (dir_only c r))) name is_dir"
    by (simp add: dir_admits_rows[OF ref(1)])
  then show ?thesis
    using rows_refine_admit[OF ref(4) _ nodeny] by (simp add: dir_admits_rows[OF r])
qed

interpretation dir_policy: narrowing "\<lambda>p (name, is_dir). dir_admits p name is_dir" dir_only
  by unfold_locales (auto dest: dir_only_narrows)

lemma dir_chain_narrows:
  "dir_admits (foldl dir_only c (rs @ ss)) name is_dir \<Longrightarrow> dir_admits (foldl dir_only c rs) name is_dir"
  using dir_policy.narrow_chain_prefix[of c rs ss "(name, is_dir)"] by simp

section \<open>Properties\<close>

text \<open>
  C32: \<open>dir_admits\<close> on a non-empty policy is the declarative reading of its rows: no row is the
  deny sentinel, and in each of the dimensions \<open>ext\<close> and \<open>kind\<close> that the policy constrains some row
  admits the entry. The order and multiplicity of the rows play no part.
\<close>

theorem dir_admits_meaning:
  "dir_admits policy name is_dir \<longleftrightarrow>
     policy = [] \<or> dir_rows_admit (set (split_on nl policy)) name is_dir"
  by (cases "policy = []") (simp_all add: dir_admits_rows, simp add: dir_admits_def)

text \<open>
  C30: narrowing a directory any number of times never widens it: an entry admitted after a chain of
  refinements was admitted after every earlier part of the chain, so a denied entry stays denied.
\<close>

theorem dir_only_chain_never_widens:
  assumes "dir_admits (foldl dir_only c (rs @ ss)) name is_dir"
  shows "dir_admits (foldl dir_only c rs) name is_dir"
  using assms by (rule dir_chain_narrows)

theorem dir_only_chain_never_widens_witness:
  "dir_admits (foldl dir_only ''ext:.md'' ([''kind:file''] @ [''ext:.md''])) ''a.md'' False
   \<and> dir_admits (foldl dir_only ''ext:.md'' [''kind:file'']) ''a.md'' False"
proof -
  have h: "dir_admits (foldl dir_only ''ext:.md'' ([''kind:file''] @ [''ext:.md''])) ''a.md'' False"
    by code_simp
  show ?thesis
    using h dir_only_chain_never_widens[OF h] by blast
qed

text \<open>
  every refinement of a chain is enforced: an entry admitted after the chain is admitted by each
  requested policy on its own (a request whose own rows hold the deny sentinel is the one case in
  which the request admits nothing by itself).
\<close>

theorem dir_only_chain_enforces:
  assumes "dir_admits (foldl dir_only c (rs @ r # ss)) name is_dir"
    and "DIR_DENY_ALL \<notin> set (split_on nl r)"
  shows "dir_admits r name is_dir"
proof (cases "r = []")
  case False
  have "dir_admits (foldl dir_only c ((rs @ [r]) @ ss)) name is_dir" using assms(1) by simp
  then have "dir_admits (foldl dir_only c (rs @ [r])) name is_dir" by (rule dir_chain_narrows)
  then have "dir_admits (dir_only (foldl dir_only c rs) r) name is_dir" by simp
  from this False assms(2) show ?thesis by (rule dir_only_enforces)
qed (simp add: dir_admits_def)

theorem dir_only_chain_enforces_witness:
  "dir_admits ''kind:file'' ''a.md'' False"
  by (rule dir_only_chain_enforces[of "''ext:.md''" "[]" "''kind:file''" "[''ext:.md'']"]) code_simp+

end
