(* ===== verification/Fetch_Url.thy ===== *)
theory Fetch_Url
  imports Witchy_Prelude
begin

text \<open>
  Fetch URLs, origins and headers (crates/witchy-cap-model/src/lib.rs): the parser that every
  Fetch provider applies to a guest-supplied URL, the canonical origin that grants are compared
  with, and the syntactic checks on methods and headers. The properties show that a parsed host
  cannot smuggle another component of the URL, that origins print and parse back, and that an
  accepted header cannot split the request.
\<close>

section \<open>Schemes\<close>

type_synonym FetchUrlError = string

datatype FetchScheme = Http | Https

definition scheme_parse :: "string \<Rightarrow> (FetchUrlError, FetchScheme) result" where
  "scheme_parse v =
     (let l = to_ascii_lowercase v in
      if l = ''http'' then Ok Http
      else if l = ''https'' then Ok Https
      else Err ''Fetch URLs and origins must use `http` or `https`'')"

fun scheme_as_str :: "FetchScheme \<Rightarrow> string" where
  "scheme_as_str Http = ''http''"
| "scheme_as_str Https = ''https''"

fun default_port :: "FetchScheme \<Rightarrow> nat" where
  "default_port Http = 80"
| "default_port Https = 443"

section \<open>Origins and URLs\<close>

record FetchOrigin =
  o_scheme :: FetchScheme
  o_host :: string
  o_port :: nat

record ParsedFetchUrl =
  u_origin :: FetchOrigin
  path_and_query :: string

definition display_fetch_host :: "string \<Rightarrow> string" where
  "display_fetch_host host =
     (if CHR '':'' \<in> set host \<and> \<not> starts_with ''['' host then ''['' @ host @ '']'' else host)"

definition origin_as_str :: "FetchOrigin \<Rightarrow> string" where
  "origin_as_str og = scheme_as_str (o_scheme og) @ ''://'' @ display_fetch_host (o_host og)
     @ '':'' @ show_nat (o_port og)"

text \<open>\<open>str::parse::<u16>\<close> with the error mapped.\<close>

definition parse_url_port :: "string \<Rightarrow> (FetchUrlError, nat) result" where
  "parse_url_port s = ok_or (parse_uint 65536 s) ''invalid URL port''"

definition split_fetch_authority :: "string \<Rightarrow> nat \<Rightarrow> (FetchUrlError, string \<times> nat) result" where
  "split_fetch_authority authority dport =
     (if starts_with ''['' authority then
        (case split_once CHR '']'' authority of
           None \<Rightarrow> Err ''unterminated IPv6 host''
         | Some (inner, suffix) \<Rightarrow>
             (let host = inner @ '']'' in
              if suffix = [] then Ok (host, dport)
              else rbind (ok_or (strip_prefix '':'' suffix) ''invalid IPv6 authority'') (\<lambda>p.
                   rbind (parse_url_port p) (\<lambda>port. Ok (host, port)))))
      else if 1 < count_list authority CHR '':'' then
        Err ''IPv6 URL hosts must be enclosed in brackets''
      else (case rsplit_once CHR '':'' authority of
         Some (host, port) \<Rightarrow>
           if host \<noteq> [] \<and> port \<noteq> [] then rbind (parse_url_port port) (\<lambda>p. Ok (host, p))
           else Err ''invalid URL authority''
       | None \<Rightarrow> Ok (authority, dport)))"

definition is_ascii_control :: "char \<Rightarrow> bool" where
  "is_ascii_control c \<longleftrightarrow> ascii_code c < 32 \<or> ascii_code c = 127"

definition url_byte_forbidden :: "char \<Rightarrow> bool" where
  "url_byte_forbidden c \<longleftrightarrow> is_ascii_control c \<or> c = CHR '' ''"

definition url_path :: "string \<Rightarrow> string" where
  "url_path suffix =
     (if suffix = [] then ''/'' else if starts_with ''?'' suffix then ''/'' @ suffix else suffix)"

definition authority_char :: "char \<Rightarrow> bool" where
  "authority_char c \<longleftrightarrow> c \<noteq> CHR ''/'' \<and> c \<noteq> CHR ''?''"

definition url_parse :: "string \<Rightarrow> bool \<Rightarrow> (FetchUrlError, ParsedFetchUrl) result" where
  "url_parse input origin_only =
     (if list_ex url_byte_forbidden input then
        Err ''URL contains whitespace or a control character''
      else
        (let fragment = split_once CHR ''#'' input in
         if origin_only \<and> fragment \<noteq> None then
           Err ''an origin grant must not contain a path, query, or fragment''
         else
           (let input' = (case fragment of None \<Rightarrow> input | Some (before, _) \<Rightarrow> before) in
            rbind (ok_or (split_once_str ''://'' input') ''URL is missing `scheme://`'') (\<lambda>(sch, rest).
            rbind (scheme_parse sch) (\<lambda>scheme.
              let authority = takeWhile authority_char rest;
                  suffix = dropWhile authority_char rest
              in if authority = [] then Err ''URL has an empty host''
                 else if CHR ''@'' \<in> set authority then
                   Err ''URL credentials are forbidden; pass explicit authorization headers''
                 else rbind (split_fetch_authority authority (default_port scheme)) (\<lambda>(host, port).
                   let pq = url_path suffix in
                   if origin_only \<and> pq \<noteq> ''/'' then
                     Err ''an origin grant must not contain a path or query''
                   else Ok \<lparr>u_origin = \<lparr>o_scheme = scheme, o_host = to_ascii_lowercase host, o_port = port\<rparr>,
                            path_and_query = pq\<rparr>))))))"

definition origin_parse :: "string \<Rightarrow> (FetchUrlError, FetchOrigin) result" where
  "origin_parse input =
     rbind (url_parse input True) (\<lambda>parsed.
       if path_and_query parsed \<noteq> ''/'' then
         Err ''an origin grant must not contain a path, query, or fragment''
       else Ok (u_origin parsed))"

section \<open>Methods and headers\<close>

definition is_ascii_alphanumeric :: "char \<Rightarrow> bool" where
  "is_ascii_alphanumeric c \<longleftrightarrow> is_ascii_digit c
     \<or> (65 \<le> ascii_code c \<and> ascii_code c \<le> 90) \<or> (97 \<le> ascii_code c \<and> ascii_code c \<le> 122)"

definition token_punctuation :: "nat list" where
  "token_punctuation = [33, 35, 36, 37, 38, 39, 42, 43, 45, 46, 94, 95, 96, 124, 126]"

definition is_http_token :: "string \<Rightarrow> bool" where
  "is_http_token v \<longleftrightarrow> v \<noteq> [] \<and>
     list_all (\<lambda>b. is_ascii_alphanumeric b \<or> ascii_code b \<in> set token_punctuation) v"

definition header_byte_forbidden :: "char \<Rightarrow> bool" where
  "header_byte_forbidden b \<longleftrightarrow> ascii_code b = 13 \<or> ascii_code b = 10 \<or> ascii_code b \<le> 8
     \<or> (11 \<le> ascii_code b \<and> ascii_code b \<le> 31) \<or> ascii_code b = 127"

definition validate_http_header_syntax :: "string \<Rightarrow> string \<Rightarrow> (FetchUrlError, unit) result" where
  "validate_http_header_syntax name value =
     (if \<not> is_http_token name then Err (''header name `'' @ name @ ''` is not an HTTP token'')
      else if list_ex header_byte_forbidden value then
        Err (''header `'' @ name @ ''` contains a forbidden control character'')
      else Ok ())"

definition validate_fetch_header :: "string \<Rightarrow> string \<Rightarrow> (FetchUrlError, unit) result" where
  "validate_fetch_header name value =
     rbind (validate_http_header_syntax name value) (\<lambda>_.
       if eq_ignore_ascii_case name ''host'' \<or> eq_ignore_ascii_case name ''connection''
          \<or> eq_ignore_ascii_case name ''content-length''
          \<or> eq_ignore_ascii_case name ''transfer-encoding''
       then Err (''header `'' @ name @ ''` is controlled by the Fetch provider'')
       else Ok ())"

definition validate_fetch_method :: "string \<Rightarrow> (FetchUrlError, unit) result" where
  "validate_fetch_method mthd =
     (if is_http_token mthd then Ok () else Err ''method is not an HTTP token'')"

section \<open>What a successful parse says\<close>

definition url_clean :: "string \<Rightarrow> bool" where
  "url_clean s \<longleftrightarrow> \<not> list_ex url_byte_forbidden s \<and> CHR ''#'' \<notin> set s"

definition host_clean :: "string \<Rightarrow> bool" where
  "host_clean h \<longleftrightarrow> h \<noteq> [] \<and> url_clean h \<and> list_all authority_char h \<and> CHR ''@'' \<notin> set h
     \<and> (if starts_with ''['' h then \<exists>i. h = i @ '']'' \<and> CHR '']'' \<notin> set i else CHR '':'' \<notin> set h)"

lemma url_clean_append [simp]: "url_clean (a @ b) \<longleftrightarrow> url_clean a \<and> url_clean b"
  by (auto simp: url_clean_def)

lemma url_clean_Cons [simp]:
  "url_clean (c # s) \<longleftrightarrow> \<not> url_byte_forbidden c \<and> c \<noteq> CHR ''#'' \<and> url_clean s"
  by (auto simp: url_clean_def)

lemma url_clean_Nil [simp]: "url_clean []"
  by (simp add: url_clean_def)

lemma lower_neutral:
  assumes "\<not> is_ascii_alphanumeric d"
  shows "ascii_lower_char c = d \<longleftrightarrow> c = d" "d \<in> set (to_ascii_lowercase s) \<longleftrightarrow> d \<in> set s"
  using assms by (auto simp: is_ascii_alphanumeric_def ascii_lower_char_eq_iff in_set_to_ascii_lowercase)

lemma not_alnum [simp]:
  "\<not> is_ascii_alphanumeric CHR ''#''" "\<not> is_ascii_alphanumeric CHR ''@''"
  "\<not> is_ascii_alphanumeric CHR '':''" "\<not> is_ascii_alphanumeric CHR ''/''"
  "\<not> is_ascii_alphanumeric CHR ''?''" "\<not> is_ascii_alphanumeric CHR ''[''"
  "\<not> is_ascii_alphanumeric CHR '']''" "\<not> is_ascii_alphanumeric CHR '' ''"
  by (simp_all add: is_ascii_alphanumeric_def is_ascii_digit_def ascii_code_def)

lemma url_byte_forbidden_lower [simp]: "url_byte_forbidden (ascii_lower_char c) \<longleftrightarrow> url_byte_forbidden c"
proof -
  have "is_ascii_control (ascii_lower_char c) \<longleftrightarrow> is_ascii_control c"
    by (auto simp: is_ascii_control_def ascii_lower_char_def ascii_code_char_of)
  then show ?thesis by (simp add: url_byte_forbidden_def lower_neutral)
qed

lemma url_clean_lower [simp]: "url_clean (to_ascii_lowercase s) \<longleftrightarrow> url_clean s"
  by (induction s) (simp_all add: lower_neutral)

lemma list_all_authority_lower [simp]: "list_all authority_char (to_ascii_lowercase s) \<longleftrightarrow> list_all authority_char s"
  by (induction s) (simp_all add: authority_char_def lower_neutral)

lemma starts_bracket: "starts_with ''['' s \<longleftrightarrow> (\<exists>r. s = CHR ''['' # r)"
  by (simp add: starts_with_iff)

lemma host_clean_lower: "host_clean h \<Longrightarrow> host_clean (to_ascii_lowercase h)"
proof -
  assume h: "host_clean h"
  have br: "starts_with ''['' (to_ascii_lowercase h) \<longleftrightarrow> starts_with ''['' h"
    by (cases h) (simp_all add: starts_with_def lower_neutral)
  have "if starts_with ''['' h then \<exists>i. to_ascii_lowercase h = i @ '']'' \<and> CHR '']'' \<notin> set i
      else CHR '':'' \<notin> set (to_ascii_lowercase h)"
  proof (cases "starts_with ''['' h")
    case True
    with h obtain i where "h = i @ '']''" "CHR '']'' \<notin> set i" by (auto simp: host_clean_def)
    then have "to_ascii_lowercase h = to_ascii_lowercase i @ '']''"
      "CHR '']'' \<notin> set (to_ascii_lowercase i)" by (simp_all add: lower_neutral)
    with True show ?thesis by auto
  qed (use h in \<open>simp add: host_clean_def lower_neutral\<close>)
  with h br show ?thesis by (simp add: host_clean_def lower_neutral)
qed

lemma parse_url_port_Ok: "parse_url_port s = Inr p \<longleftrightarrow> parse_uint 65536 s = Some p"
  by (simp add: parse_url_port_def result_simps)

lemma split_fetch_authority_Ok:
  assumes "split_fetch_authority a d = Inr (h, p)" "a \<noteq> []" "url_clean a" "list_all authority_char a"
    "CHR ''@'' \<notin> set a" "d < 65536"
  shows "host_clean h \<and> p < 65536"
proof (cases "starts_with ''['' a")
  case True
  from assms(1) True obtain i s where isp: "split_once CHR '']'' a = Some (i, s)"
    by (auto simp: split_fetch_authority_def split: option.splits)
  with assms(1) True have h: "h = i @ '']''"
    by (auto simp: split_fetch_authority_def Let_def result_simps split: if_splits)
  from assms(1,6) True isp have p: "p < 65536"
    by (auto simp: split_fetch_authority_def Let_def result_simps parse_url_port_Ok
        split: if_splits dest: parse_uint_bound)
  from isp have a: "a = i @ CHR '']'' # s" "CHR '']'' \<notin> set i" by (simp_all add: string_simps)
  from True a have "starts_with ''['' h" by (cases i) (auto simp: starts_with_def h)
  with a assms p show ?thesis by (auto simp: host_clean_def h)
next
  case False
  note nb = this
  show ?thesis
  proof (cases "rsplit_once CHR '':'' a")
    case None
    then have "CHR '':'' \<notin> set a" by (simp add: string_simps)
    moreover from None assms(1) nb have "h = a" "p = d"
      by (auto simp: split_fetch_authority_def split: if_splits)
    moreover note assms nb
    ultimately show ?thesis by (simp add: host_clean_def)
  next
    case (Some hp)
    with assms(1) nb obtain q where hq: "rsplit_once CHR '':'' a = Some (h, q)" and ne: "h \<noteq> []"
      and p: "parse_uint 65536 q = Some p" and cnt: "count_list a CHR '':'' \<le> 1"
      by (cases hp) (auto simp: split_fetch_authority_def result_simps parse_url_port_Ok split: if_splits)
    from hq have a: "a = h @ CHR '':'' # q" by (simp add: string_simps)
    from cnt a have "CHR '':'' \<notin> set h" by (simp add: count_list_0_iff)
    moreover from nb a ne have "\<not> starts_with ''['' h" by (cases h) (auto simp: starts_with_def)
    ultimately show ?thesis using assms a ne p by (auto simp: host_clean_def dest: parse_uint_bound)
  qed
qed

lemma split_fetch_authority_printed:
  assumes "host_clean h" "p < 65536"
  shows "split_fetch_authority (h @ '':'' @ show_nat p) d = Inr (h, p)"
proof (cases "starts_with ''['' h")
  case True
  with assms obtain i where i: "h = i @ '']''" "CHR '']'' \<notin> set i" by (auto simp: host_clean_def)
  then have "split_once CHR '']'' (h @ '':'' @ show_nat p) = Some (i, '':'' @ show_nat p)"
    by (simp add: string_simps)
  moreover have "starts_with ''['' (h @ '':'' @ show_nat p)"
    using True by (auto simp: starts_bracket)
  moreover have "strip_prefix '':'' ('':'' @ show_nat p) = Some (show_nat p)"
    by (rule strip_prefix_append)
  ultimately show ?thesis
    using assms i by (simp add: split_fetch_authority_def parse_url_port_def parse_show_nat)
next
  case False
  with assms have c: "CHR '':'' \<notin> set h" and ne: "h \<noteq> []" by (auto simp: host_clean_def)
  have d: "CHR '':'' \<notin> set (show_nat p)"
    by (rule show_nat_no_char) (simp add: is_ascii_digit_def ascii_code_def)
  have "\<not> starts_with ''['' (h @ '':'' @ show_nat p)"
    using False ne by (cases h) (auto simp: starts_with_def)
  moreover have "count_list (h @ '':'' @ show_nat p) CHR '':'' = 1"
    using c d by (simp add: count_list_0_iff)
  moreover have "rsplit_once CHR '':'' (h @ '':'' @ show_nat p) = Some (h, show_nat p)"
    using d by (simp add: string_simps)
  ultimately show ?thesis
    using ne assms show_nat_digits[of p]
    by (simp add: split_fetch_authority_def parse_url_port_def parse_show_nat)
qed

lemma url_path_clean: "url_clean s \<Longrightarrow> url_clean (url_path s)"
  by (simp add: url_path_def url_byte_forbidden_def is_ascii_control_def ascii_code_def)

lemma url_path_slash:
  assumes "s = dropWhile authority_char r"
  shows "hd (url_path s) = CHR ''/''"
proof (cases s)
  case (Cons c t)
  then have "\<not> authority_char c" using assms by (metis hd_dropWhile list.distinct(1) list.sel(1))
  then show ?thesis by (auto simp: authority_char_def url_path_def Cons starts_with_def)
qed (simp add: url_path_def)

lemma url_parse_Ok:
  assumes "url_parse input oo = Inr u"
  shows "host_clean (o_host (u_origin u))"
    "to_ascii_lowercase (o_host (u_origin u)) = o_host (u_origin u)"
    "o_port (u_origin u) < 65536"
    "url_clean (path_and_query u)" "hd (path_and_query u) = CHR ''/''" "path_and_query u \<noteq> []"
proof -
  let ?i = "case split_once CHR ''#'' input of None \<Rightarrow> input | Some (b, _) \<Rightarrow> b"
  from assms obtain sch rest scheme h p where nf: "\<not> list_ex url_byte_forbidden input"
    and sp: "split_once_str ''://'' ?i = Some (sch, rest)"
    and ne: "takeWhile authority_char rest \<noteq> []" and at: "CHR ''@'' \<notin> set (takeWhile authority_char rest)"
    and au: "split_fetch_authority (takeWhile authority_char rest) (default_port scheme) = Inr (h, p)"
    and u: "u = \<lparr>u_origin = \<lparr>o_scheme = scheme, o_host = to_ascii_lowercase h, o_port = p\<rparr>,
                 path_and_query = url_path (dropWhile authority_char rest)\<rparr>"
    by (auto simp: url_parse_def Let_def result_simps split: if_splits)
  have "url_clean ?i"
  proof (cases "split_once CHR ''#'' input")
    case None
    then have "CHR ''#'' \<notin> set input" by (simp add: string_simps)
    with None nf show ?thesis by (simp add: url_clean_def)
  next
    case (Some ab)
    then obtain a b where ab: "split_once CHR ''#'' input = Some (a, b)" by (cases ab) auto
    then have "input = a @ CHR ''#'' # b" "CHR ''#'' \<notin> set a" by (simp_all add: string_simps)
    with ab nf show ?thesis by (simp add: url_clean_def)
  qed
  moreover have "?i = sch @ ''://'' @ rest" by (rule split_once_str_sound[OF sp])
  ultimately have "url_clean rest" by simp
  then have tw: "url_clean (takeWhile authority_char rest)" and dw: "url_clean (dropWhile authority_char rest)"
    using url_clean_append[of "takeWhile authority_char rest" "dropWhile authority_char rest"] by simp_all
  have "default_port scheme < 65536" by (cases scheme) simp_all
  moreover have "list_all authority_char (takeWhile authority_char rest)"
    by (auto simp: list_all_iff dest: set_takeWhileD)
  ultimately have hp: "host_clean h \<and> p < 65536"
    using split_fetch_authority_Ok[OF au ne tw] at by blast
  then show "host_clean (o_host (u_origin u))" by (simp add: u host_clean_lower)
  show "to_ascii_lowercase (o_host (u_origin u)) = o_host (u_origin u)" by (simp add: u)
  show "o_port (u_origin u) < 65536" using hp by (simp add: u)
  show "url_clean (path_and_query u)" using dw by (simp add: u url_path_clean)
  show "hd (path_and_query u) = CHR ''/''" using url_path_slash[OF refl] by (simp add: u)
  show "path_and_query u \<noteq> []" by (auto simp: u url_path_def)
qed

lemma split_scheme:
  "split_once_str ''://'' (''http://'' @ r) = Some (''http'', r)"
  "split_once_str ''://'' (''https://'' @ r) = Some (''https'', r)"
  by (simp_all add: split_once_str.simps strip_prefix_def)

definition origin_ok :: "FetchOrigin \<Rightarrow> bool" where
  "origin_ok og \<longleftrightarrow> host_clean (o_host og) \<and> to_ascii_lowercase (o_host og) = o_host og \<and> o_port og < 65536"

lemma display_clean_host: "host_clean h \<Longrightarrow> display_fetch_host h = h"
  by (auto simp: display_fetch_host_def host_clean_def split: if_splits)

lemma url_clean_show_nat: "url_clean (show_nat p)"
proof -
  have "\<not> url_byte_forbidden c \<and> c \<noteq> CHR ''#''" if "is_ascii_digit c" for c
    using that by (auto simp: is_ascii_digit_def url_byte_forbidden_def is_ascii_control_def ascii_code_def)
  then show ?thesis
    using show_nat_digits[of p] by (fastforce simp: url_clean_def list_all_iff list_ex_iff)
qed

lemma authority_show_nat: "list_all authority_char (show_nat p)" "CHR ''@'' \<notin> set (show_nat p)"
proof -
  have "authority_char c \<and> c \<noteq> CHR ''@''" if "is_ascii_digit c" for c
    using that by (auto simp: is_ascii_digit_def authority_char_def ascii_code_def)
  then show "list_all authority_char (show_nat p)" "CHR ''@'' \<notin> set (show_nat p)"
    using show_nat_digits[of p] by (auto simp: list_all_iff)
qed

lemma url_parse_origin:
  assumes "origin_ok og"
  shows "url_parse (origin_as_str og) True = Inr \<lparr>u_origin = og, path_and_query = ''/''\<rparr>"
proof -
  let ?a = "o_host og @ '':'' @ show_nat (o_port og)"
  from assms have h: "host_clean (o_host og)" and l: "to_ascii_lowercase (o_host og) = o_host og"
    and p: "o_port og < 65536" by (simp_all add: origin_ok_def)
  have s: "origin_as_str og = scheme_as_str (o_scheme og) @ ''://'' @ ?a"
    by (simp add: origin_as_str_def display_clean_host[OF h])
  have "url_clean (origin_as_str og)"
    using h unfolding s host_clean_def
    by (cases "o_scheme og") (simp_all add: url_clean_show_nat url_byte_forbidden_def
        is_ascii_control_def ascii_code_def)
  then have clean: "\<not> list_ex url_byte_forbidden (origin_as_str og)"
    and frag: "split_once CHR ''#'' (origin_as_str og) = None"
    by (simp_all add: url_clean_def string_simps)
  have split: "split_once_str ''://'' (origin_as_str og) = Some (scheme_as_str (o_scheme og), ?a)"
    unfolding s using split_scheme[of ?a] by (cases "o_scheme og") simp_all
  have scheme: "scheme_parse (scheme_as_str (o_scheme og)) = Inr (o_scheme og)"
    by (cases "o_scheme og") (simp_all add: scheme_parse_def ascii_lower_char_def ascii_code_def)
  have a: "\<forall>c \<in> set ?a. authority_char c" "CHR ''@'' \<notin> set ?a"
    using h authority_show_nat[of "o_port og"]
    by (auto simp: host_clean_def list_all_iff authority_char_def)
  then have tw: "takeWhile authority_char ?a = ?a" "dropWhile authority_char ?a = []"
    by (simp_all only: takeWhile_eq_all_conv dropWhile_eq_Nil_conv)
  show ?thesis
    unfolding url_parse_def Let_def using a(2) h
    by (simp only: clean frag split if_False option.simps simp_thms ok_or_simps rbind_Ok prod.case scheme tw
        split_fetch_authority_printed[OF h p]) (simp add: host_clean_def l url_path_def)
qed

section \<open>Properties\<close>

text \<open>
  C39: a URL that parses yields a host that is non-empty, lower case and free of every character that
  delimits another URL component (control characters, space, \<open>#\<close>, \<open>@\<close>, \<open>/\<close>, \<open>?\<close>; a \<open>:\<close> only inside
  brackets that close at its end), a port in range, and a request target that starts with \<open>/\<close> and
  holds no control character, space or fragment.
\<close>

theorem url_parse_components:
  assumes "url_parse input origin_only = Inr u"
  shows "origin_ok (u_origin u) \<and> url_clean (path_and_query u) \<and>
    path_and_query u \<noteq> [] \<and> hd (path_and_query u) = CHR ''/''"
  using url_parse_Ok[OF assms] by (simp add: origin_ok_def)

theorem url_parse_components_witness:
  "\<exists>u. url_parse ''HTTPS://Api.Example.com?q=1#top'' False = Inr u \<and> origin_ok (u_origin u)
     \<and> path_and_query u = ''/?q=1''"
proof -
  have h: "url_parse ''HTTPS://Api.Example.com?q=1#top'' False =
      Inr \<lparr>u_origin = \<lparr>o_scheme = Https, o_host = ''api.example.com'', o_port = 443\<rparr>,
           path_and_query = ''/?q=1''\<rparr>" by code_simp
  show ?thesis using url_parse_components[OF h] h by simp
qed

text \<open>
  C40: the printed form of an origin is canonical: every origin that parses is printed as a string
  that parses back to the same origin.
\<close>

theorem origin_print_parse:
  assumes "origin_parse input = Inr og"
  shows "origin_parse (origin_as_str og) = Inr og"
proof -
  from assms obtain u where "url_parse input True = Inr u" "og = u_origin u"
    by (auto simp: origin_parse_def result_simps split: if_splits)
  with url_parse_Ok[of input True u] have "origin_ok og" by (simp add: origin_ok_def)
  from url_parse_origin[OF this] show ?thesis by (simp add: origin_parse_def)
qed

theorem origin_print_parse_witness:
  "origin_parse (origin_as_str \<lparr>o_scheme = Http, o_host = ''[::1]'', o_port = 8080\<rparr>)
     = Inr \<lparr>o_scheme = Http, o_host = ''[::1]'', o_port = 8080\<rparr>"
  by (rule origin_print_parse[of "''http://[::1]:8080/''"]) code_simp

text \<open>
  a header is accepted exactly when its name is an HTTP token other than the four the provider
  controls (in any case) and its value has no control character but horizontal tab; in particular
  neither part holds a carriage return or line feed, so a header cannot split the request.
\<close>

theorem validate_fetch_header_Ok:
  "validate_fetch_header name value = Inr () \<longleftrightarrow>
     is_http_token name
     \<and> to_ascii_lowercase name \<notin> {''host'', ''connection'', ''content-length'', ''transfer-encoding''}
     \<and> set value \<inter> {c. is_ascii_control c \<and> ascii_code c \<noteq> 9} = {}"
proof -
  have b: "header_byte_forbidden c \<longleftrightarrow> is_ascii_control c \<and> ascii_code c \<noteq> 9" for c
    by (auto simp: header_byte_forbidden_def is_ascii_control_def)
  have l: "to_ascii_lowercase ''host'' = ''host''" "to_ascii_lowercase ''connection'' = ''connection''"
    "to_ascii_lowercase ''content-length'' = ''content-length''"
    "to_ascii_lowercase ''transfer-encoding'' = ''transfer-encoding''" by code_simp+
  have v: "list_ex header_byte_forbidden value \<longleftrightarrow>
      set value \<inter> {c. is_ascii_control c \<and> ascii_code c \<noteq> 9} \<noteq> {}"
    by (auto simp: b list_ex_iff)
  show ?thesis
    unfolding validate_fetch_header_def validate_http_header_syntax_def eq_ignore_ascii_case_def l v
    by (cases "is_http_token name";
        cases "set value \<inter> {c. is_ascii_control c \<and> ascii_code c \<noteq> 9} = {}") simp_all
qed

end
