(* ===== verification/Rights_Sets.thy ===== *)
theory Rights_Sets
  imports Cap_Kinds
begin

text \<open>
  Stable identities and right sets (crates/witchy-cap-model/src/authority.rs): the numbers that
  stand for kinds and rights in compiled artifacts, the canonical bitset \<open>RightsSet\<close> that
  certificates and checkers exchange, and the slice-level functions on rights used by the static
  catalog. The bitset is related to the set of rights it denotes, and its admission test is shown
  to be the slice-level one.
\<close>

section \<open>Stable identities\<close>

fun kind_stable_id :: "CapabilityKind \<Rightarrow> 16 word" where
  "kind_stable_id Console = 0x0001"
| "kind_stable_id Clock = 0x0002"
| "kind_stable_id Rand = 0x0003"
| "kind_stable_id Env = 0x0004"
| "kind_stable_id Secret = 0x0005"
| "kind_stable_id SecretStore = 0x0006"
| "kind_stable_id Dir = 0x0007"
| "kind_stable_id File = 0x0008"
| "kind_stable_id Net = 0x0009"
| "kind_stable_id Fetch = 0x000a"
| "kind_stable_id Exec = 0x000b"
| "kind_stable_id Socket = 0x0101"
| "kind_stable_id Listener = 0x0102"
| "kind_stable_id BuildOut = 0x0201"
| "kind_stable_id BuildRead = 0x0202"
| "kind_stable_id BuildEnv = 0x0203"
| "kind_stable_id BuildNet = 0x0204"
| "kind_stable_id BuildExec = 0x0205"

fun right_stable_id :: "CapabilityRight \<Rightarrow> 16 word" where
  "right_stable_id Read = 0x0001"
| "right_stable_id Write = 0x0002"
| "right_stable_id Connect = 0x0003"
| "right_stable_id Listen = 0x0004"
| "right_stable_id Tcp = 0x0005"
| "right_stable_id Udp = 0x0006"
| "right_stable_id Uds = 0x0007"
| "right_stable_id Reveal = 0x0008"
| "right_stable_id Seal = 0x0009"

fun canonical_bit :: "CapabilityRight \<Rightarrow> 16 word" where
  "canonical_bit Read = push_bit 0 1"
| "canonical_bit Write = push_bit 1 1"
| "canonical_bit Connect = push_bit 2 1"
| "canonical_bit Listen = push_bit 3 1"
| "canonical_bit Tcp = push_bit 4 1"
| "canonical_bit Udp = push_bit 5 1"
| "canonical_bit Uds = push_bit 6 1"
| "canonical_bit Reveal = push_bit 7 1"
| "canonical_bit Seal = push_bit 8 1"

definition capability_kind_from_id :: "16 word \<Rightarrow> CapabilityKind option" where
  "capability_kind_from_id w =
    (if w = 0x0001 then Some Console
     else if w = 0x0002 then Some Clock
     else if w = 0x0003 then Some Rand
     else if w = 0x0004 then Some Env
     else if w = 0x0005 then Some Secret
     else if w = 0x0006 then Some SecretStore
     else if w = 0x0007 then Some Dir
     else if w = 0x0008 then Some File
     else if w = 0x0009 then Some Net
     else if w = 0x000a then Some Fetch
     else if w = 0x000b then Some Exec
     else if w = 0x0101 then Some Socket
     else if w = 0x0102 then Some Listener
     else if w = 0x0201 then Some BuildOut
     else if w = 0x0202 then Some BuildRead
     else if w = 0x0203 then Some BuildEnv
     else if w = 0x0204 then Some BuildNet
     else if w = 0x0205 then Some BuildExec
     else None)"

definition capability_right_from_id :: "16 word \<Rightarrow> CapabilityRight option" where
  "capability_right_from_id w =
    (if w = 0x0001 then Some Read
     else if w = 0x0002 then Some Write
     else if w = 0x0003 then Some Connect
     else if w = 0x0004 then Some Listen
     else if w = 0x0005 then Some Tcp
     else if w = 0x0006 then Some Udp
     else if w = 0x0007 then Some Uds
     else if w = 0x0008 then Some Reveal
     else if w = 0x0009 then Some Seal
     else None)"

lemma kind_stable_id_roundtrip: "capability_kind_from_id (kind_stable_id k) = Some k"
  by (cases k) (simp_all add: capability_kind_from_id_def)

lemma kind_stable_id_sound: "capability_kind_from_id w = Some k \<Longrightarrow> kind_stable_id k = w"
  unfolding capability_kind_from_id_def by (elim if_SomeE) simp_all

lemma right_stable_id_roundtrip: "capability_right_from_id (right_stable_id r) = Some r"
  by (cases r) (simp_all add: capability_right_from_id_def)

lemma right_stable_id_sound: "capability_right_from_id w = Some r \<Longrightarrow> right_stable_id r = w"
  unfolding capability_right_from_id_def by (elim if_SomeE) simp_all

interpretation kind_ids: coding kind_stable_id capability_kind_from_id
  by unfold_locales (simp_all add: kind_stable_id_roundtrip kind_stable_id_sound)

interpretation right_ids: coding right_stable_id capability_right_from_id
  by unfold_locales (simp_all add: right_stable_id_roundtrip right_stable_id_sound)

section \<open>The canonical bitset\<close>

unbundle bit_operations_syntax

definition KNOWN_RIGHT_BITS :: "16 word" where
  "KNOWN_RIGHT_BITS = push_bit 9 1 - 1"

datatype RightsSetError =
    UnknownBits "16 word"
  | RightNotAvailable CapabilityKind CapabilityRight
  | RevealWithoutSeal

datatype RightsSet = RightsSet (bits: "16 word")

definition rights_empty :: RightsSet where
  "rights_empty = RightsSet 0"

definition all_rights :: "CapabilityRight list" where
  "all_rights = [Read, Write, Connect, Listen, Tcp, Udp, Uds, Reveal, Seal]"

fun check_available :: "CapabilityKind \<Rightarrow> 16 word \<Rightarrow> CapabilityRight list \<Rightarrow> (RightsSetError, unit) result" where
  "check_available kind b [] = Ok ()"
| "check_available kind b (right # rs) =
     (if b AND canonical_bit right \<noteq> 0 \<and> right \<notin> set (kind_rights kind)
      then Err (RightNotAvailable kind right) else check_available kind b rs)"

definition from_canonical_bits :: "CapabilityKind \<Rightarrow> 16 word \<Rightarrow> (RightsSetError, RightsSet) result" where
  "from_canonical_bits kind b =
     (let unknown = b AND NOT KNOWN_RIGHT_BITS in
      if unknown \<noteq> 0 then Err (UnknownBits unknown)
      else if b AND canonical_bit Reveal \<noteq> 0 \<and> b AND canonical_bit Seal = 0
      then Err RevealWithoutSeal
      else rbind (check_available kind b all_rights) (\<lambda>_. Ok (RightsSet b)))"

fun collect_bits :: "CapabilityKind \<Rightarrow> CapabilityRight list \<Rightarrow> 16 word \<Rightarrow> (RightsSetError, 16 word) result" where
  "collect_bits kind [] b = Ok b"
| "collect_bits kind (right # rs) b =
     (if right \<notin> set (kind_rights kind) then Err (RightNotAvailable kind right)
      else let b1 = b OR canonical_bit right;
               b2 = (if right = Reveal then b1 OR canonical_bit Seal else b1)
           in collect_bits kind rs b2)"

definition from_rights :: "CapabilityKind \<Rightarrow> CapabilityRight list \<Rightarrow> (RightsSetError, RightsSet) result" where
  "from_rights kind rights = rbind (collect_bits kind rights 0) (from_canonical_bits kind)"

definition rights_contains :: "RightsSet \<Rightarrow> CapabilityRight \<Rightarrow> bool" where
  "rights_contains s right \<longleftrightarrow> bits s AND canonical_bit right \<noteq> 0"

definition is_well_formed_for :: "RightsSet \<Rightarrow> CapabilityKind \<Rightarrow> bool" where
  "is_well_formed_for s kind = (case from_canonical_bits kind (bits s) of Inl _ \<Rightarrow> False | Inr _ \<Rightarrow> True)"

definition rights_set_admits :: "RightsSet \<Rightarrow> CapabilityKind \<Rightarrow> RightsSet \<Rightarrow> bool" where
  "rights_set_admits held kind required \<longleftrightarrow>
     is_well_formed_for held kind \<and> is_well_formed_for required kind
     \<and> bits required AND NOT (bits held) = 0"

definition is_subset_of :: "RightsSet \<Rightarrow> CapabilityKind \<Rightarrow> RightsSet \<Rightarrow> bool" where
  "is_subset_of s kind parent = rights_set_admits parent kind s"

definition rights_set_is_monotone_narrowing :: "CapabilityKind \<Rightarrow> RightsSet \<Rightarrow> RightsSet \<Rightarrow> bool" where
  "rights_set_is_monotone_narrowing kind parent child = is_subset_of child kind parent"

section \<open>Rights as slices\<close>

definition right_implies :: "CapabilityKind \<Rightarrow> CapabilityRight \<Rightarrow> CapabilityRight \<Rightarrow> bool" where
  "right_implies kind held required \<longleftrightarrow>
     held = required \<or> (kind = Secret \<and> held = Reveal \<and> required = Seal)"

fun rights_each_ok :: "CapabilityKind \<Rightarrow> CapabilityRight list \<Rightarrow> bool" where
  "rights_each_ok kind [] = True"
| "rights_each_ok kind (right # rest) =
     (if right \<notin> set (kind_rights kind) \<or> right \<in> set rest then False else rights_each_ok kind rest)"

definition rights_are_well_formed :: "CapabilityKind \<Rightarrow> CapabilityRight list \<Rightarrow> bool" where
  "rights_are_well_formed kind rights \<longleftrightarrow>
     rights_each_ok kind rights \<and> (Reveal \<notin> set rights \<or> Seal \<in> set rights)"

definition rights_admit :: "CapabilityKind \<Rightarrow> CapabilityRight list \<Rightarrow> CapabilityRight list \<Rightarrow> bool" where
  "rights_admit kind held required \<longleftrightarrow>
     rights_are_well_formed kind held \<and> rights_are_well_formed kind required
     \<and> list_all (\<lambda>req. list_ex (\<lambda>h. right_implies kind h req) held) required"

definition rights_are_monotone_narrowing :: "CapabilityKind \<Rightarrow> CapabilityRight list \<Rightarrow> CapabilityRight list \<Rightarrow> bool" where
  "rights_are_monotone_narrowing kind parent child = rights_admit kind parent child"

section \<open>The set a bitset denotes\<close>

definition rights_of :: "16 word \<Rightarrow> CapabilityRight set" where
  "rights_of b = {r. b AND canonical_bit r \<noteq> 0}"

definition reveal_closed :: "CapabilityRight set \<Rightarrow> bool" where
  "reveal_closed R \<longleftrightarrow> (Reveal \<in> R \<longrightarrow> Seal \<in> R)"

definition reveal_closure :: "CapabilityRight set \<Rightarrow> CapabilityRight set" where
  "reveal_closure R = (if Reveal \<in> R then insert Seal R else R)"

lemma canonical_bit_exp: "canonical_bit r = 2 ^ right_index r"
  by (cases r) (simp_all add: push_bit_eq_mult)

lemma in_rights_of: "r \<in> rights_of b \<longleftrightarrow> bit b (right_index r)"
  by (simp add: rights_of_def canonical_bit_exp and_exp_eq_0_iff_not_bit)

lemma right_index_less: "right_index r < 9"
  by (cases r) simp_all

lemma right_index_onto: "i < 9 \<Longrightarrow> \<exists>r. right_index r = i"
proof -
  assume "i < 9"
  then have "i = 0 \<or> i = 1 \<or> i = 2 \<or> i = 3 \<or> i = 4 \<or> i = 5 \<or> i = 6 \<or> i = 7 \<or> i = 8" by linarith
  then show ?thesis by (metis right_index.simps)
qed

lemma in_all_rights [simp]: "r \<in> set all_rights"
  by (cases r) (simp_all add: all_rights_def)

lemma known_bits: "KNOWN_RIGHT_BITS = mask 9"
  by (simp add: KNOWN_RIGHT_BITS_def mask_eq_exp_minus_1 push_bit_eq_mult)

lemma unknown_zero_iff: "b AND NOT KNOWN_RIGHT_BITS = 0 \<longleftrightarrow> (\<forall>i. bit b i \<longrightarrow> i < 9)" for b :: "16 word"
proof -
  have "b AND NOT KNOWN_RIGHT_BITS = 0 \<longleftrightarrow> (\<forall>i. bit b i \<longrightarrow> bit (mask 9 :: 16 word) i)"
  proof
    assume z: "b AND NOT KNOWN_RIGHT_BITS = 0"
    show "\<forall>i. bit b i \<longrightarrow> bit (mask 9 :: 16 word) i"
    proof (intro allI impI)
      fix i assume i: "bit b i"
      then have "i < 16" using bit_imp_le_length[of b i] by simp
      moreover have "\<not> bit (b AND NOT (mask 9)) i" using z by (simp add: known_bits)
      ultimately show "bit (mask 9 :: 16 word) i" using i by (simp add: bit_and_iff bit_not_iff)
    qed
  next
    assume "\<forall>i. bit b i \<longrightarrow> bit (mask 9 :: 16 word) i"
    then show "b AND NOT KNOWN_RIGHT_BITS = 0"
      unfolding known_bits by (intro bit_eqI) (auto simp: bit_and_iff bit_not_iff)
  qed
  also have "\<dots> \<longleftrightarrow> (\<forall>i. bit b i \<longrightarrow> i < 9)" by (auto simp: bit_mask_iff)
  finally show ?thesis .
qed

lemma rights_of_inj:
  assumes "b AND NOT KNOWN_RIGHT_BITS = 0" "c AND NOT KNOWN_RIGHT_BITS = 0" "rights_of b = rights_of c"
  shows "b = c"
proof (rule bit_eqI)
  fix i
  show "bit b i \<longleftrightarrow> bit c i"
  proof (cases "i < 9")
    case True
    then obtain r where "right_index r = i" using right_index_onto by blast
    with assms(3) show ?thesis by (metis in_rights_of)
  next
    case False
    with assms show ?thesis by (auto simp: unknown_zero_iff)
  qed
qed

lemma rights_of_or: "rights_of (b OR canonical_bit r) = insert r (rights_of b)"
proof -
  have "bit (2 ^ right_index r :: 16 word) (right_index q) \<longleftrightarrow> q = r" for q
    using right_index_less[of q] right_index_inj[of q r] by (auto simp: bit_exp_iff)
  then have "q \<in> rights_of (b OR canonical_bit r) \<longleftrightarrow> q \<in> insert r (rights_of b)" for q
    by (auto simp only: in_rights_of bit_or_iff canonical_bit_exp insert_iff)
  then show ?thesis by blast
qed

lemma rights_of_zero [simp]: "rights_of 0 = {}"
  by (simp add: rights_of_def)

lemma unknown_or: "(b OR canonical_bit r) AND NOT KNOWN_RIGHT_BITS = 0 \<longleftrightarrow> b AND NOT KNOWN_RIGHT_BITS = 0"
proof -
  have "bit (canonical_bit r) i \<Longrightarrow> i < 9" for i
    using right_index_less[of r] by (auto simp: canonical_bit_exp bit_exp_iff)
  then show ?thesis by (auto simp: unknown_zero_iff bit_or_iff)
qed

lemma check_available_Ok: "check_available kind b rs = Inr u \<longleftrightarrow>
    (\<forall>r \<in> set rs. r \<in> rights_of b \<longrightarrow> r \<in> set (kind_rights kind))"
  by (induction rs) (auto simp: rights_of_def)

lemma from_canonical_bits_Ok:
  "from_canonical_bits kind b = Inr s \<longleftrightarrow>
     s = RightsSet b \<and> b AND NOT KNOWN_RIGHT_BITS = 0 \<and> reveal_closed (rights_of b)
     \<and> rights_of b \<subseteq> set (kind_rights kind)"
proof -
  have "check_available kind b all_rights = Inr u \<longleftrightarrow> rights_of b \<subseteq> set (kind_rights kind)" for u
    by (auto simp: check_available_Ok)
  then show ?thesis
    by (auto simp: from_canonical_bits_def Let_def result_simps reveal_closed_def rights_of_def)
qed

lemma wf_iff: "is_well_formed_for s kind \<longleftrightarrow>
    bits s AND NOT KNOWN_RIGHT_BITS = 0 \<and> reveal_closed (rights_of (bits s))
     \<and> rights_of (bits s) \<subseteq> set (kind_rights kind)"
proof -
  have "is_well_formed_for s kind \<longleftrightarrow> (\<exists>t. from_canonical_bits kind (bits s) = Inr t)"
    by (auto simp: is_well_formed_for_def split: sum.splits)
  then show ?thesis by (simp add: from_canonical_bits_Ok)
qed

lemma bits_subset_iff:
  assumes "a AND NOT KNOWN_RIGHT_BITS = 0"
  shows "a AND NOT b = 0 \<longleftrightarrow> rights_of a \<subseteq> rights_of b"
proof
  assume z: "a AND NOT b = 0"
  show "rights_of a \<subseteq> rights_of b"
  proof
    fix r assume "r \<in> rights_of a"
    moreover have "\<not> bit (a AND NOT b) (right_index r)" by (simp add: z)
    ultimately show "r \<in> rights_of b"
      using right_index_less[of r] by (simp add: in_rights_of bit_and_iff bit_not_iff)
  qed
next
  assume sub: "rights_of a \<subseteq> rights_of b"
  show "a AND NOT b = 0"
  proof (rule bit_eqI)
    fix i
    show "bit (a AND NOT b) i \<longleftrightarrow> bit 0 i"
    proof (cases "i < 9")
      case True
      then obtain r where "right_index r = i" using right_index_onto by blast
      with sub show ?thesis by (auto simp: bit_and_iff bit_not_iff subset_iff in_rights_of)
    next
      case False
      with assms show ?thesis by (auto simp: unknown_zero_iff bit_and_iff)
    qed
  qed
qed

lemma admits_iff: "rights_set_admits held kind required \<longleftrightarrow>
    is_well_formed_for held kind \<and> is_well_formed_for required kind
    \<and> rights_of (bits required) \<subseteq> rights_of (bits held)"
proof (cases "is_well_formed_for required kind")
  case True
  then show ?thesis using bits_subset_iff[of "bits required" "bits held"]
    by (simp add: rights_set_admits_def wf_iff)
qed (simp add: rights_set_admits_def)

interpretation rights_sets: authority_order "\<lambda>s. is_well_formed_for s kind"
    "\<lambda>held required. rights_set_admits held kind required" for kind
  by unfold_locales (auto simp: admits_iff)

section \<open>Slices and bitsets agree\<close>

lemma rights_each_ok_iff: "rights_each_ok kind rs \<longleftrightarrow> distinct rs \<and> set rs \<subseteq> set (kind_rights kind)"
  by (induction rs) auto

lemma rights_are_well_formed_iff: "rights_are_well_formed kind rs \<longleftrightarrow>
    distinct rs \<and> set rs \<subseteq> set (kind_rights kind) \<and> reveal_closed (set rs)"
  by (auto simp: rights_are_well_formed_def rights_each_ok_iff reveal_closed_def)

lemma reveal_has_seal: "Reveal \<in> set (kind_rights kind) \<Longrightarrow> Seal \<in> set (kind_rights kind)"
  by (cases kind) (simp_all add: rights_consts)

lemma reveal_only_secret: "Reveal \<in> set (kind_rights kind) \<Longrightarrow> kind = Secret"
  by (cases kind) (simp_all add: rights_consts)

lemma rights_admit_iff: "rights_admit kind held required \<longleftrightarrow>
    rights_are_well_formed kind held \<and> rights_are_well_formed kind required \<and> set required \<subseteq> set held"
proof -
  have "list_ex (\<lambda>h. right_implies kind h req) held \<longleftrightarrow> req \<in> set held"
    if "rights_are_well_formed kind held" for req
    using that by (auto simp: list_ex_iff right_implies_def rights_are_well_formed_iff reveal_closed_def)
  then show ?thesis by (auto simp: rights_admit_def list_all_iff)
qed

interpretation rights_slices: authority_order "rights_are_well_formed kind" "rights_admit kind" for kind
  by unfold_locales (auto simp: rights_admit_iff)

lemma collect_bits_Ok:
  assumes "set rs \<subseteq> set (kind_rights kind)"
  shows "\<exists>c. collect_bits kind rs b = Inr c
     \<and> rights_of c = rights_of b \<union> reveal_closure (set rs)
     \<and> (c AND NOT KNOWN_RIGHT_BITS = 0 \<longleftrightarrow> b AND NOT KNOWN_RIGHT_BITS = 0)"
  using assms
proof (induction rs arbitrary: b)
  case (Cons r rs)
  let ?b = "if r = Reveal then (b OR canonical_bit r) OR canonical_bit Seal else b OR canonical_bit r"
  from Cons obtain c where c: "collect_bits kind rs ?b = Inr c"
    "rights_of c = rights_of ?b \<union> reveal_closure (set rs)"
    "c AND NOT KNOWN_RIGHT_BITS = 0 \<longleftrightarrow> ?b AND NOT KNOWN_RIGHT_BITS = 0"
    by (meson set_subset_Cons subset_trans)
  have "collect_bits kind (r # rs) b = Inr c" using Cons.prems c(1) by (simp add: Let_def)
  moreover have "rights_of ?b = rights_of b \<union> reveal_closure {r}"
    by (auto simp: rights_of_or reveal_closure_def simp del: canonical_bit.simps)
  moreover have "?b AND NOT KNOWN_RIGHT_BITS = 0 \<longleftrightarrow> b AND NOT KNOWN_RIGHT_BITS = 0"
    by (simp add: unknown_or del: canonical_bit.simps)
  moreover have "reveal_closure {r} \<union> reveal_closure (set rs) = reveal_closure (set (r # rs))"
    by (auto simp: reveal_closure_def)
  ultimately show ?case using c by blast
qed (simp add: reveal_closure_def)

lemma collect_bits_Err:
  assumes "\<not> set rs \<subseteq> set (kind_rights kind)"
  shows "\<exists>r. List.find (\<lambda>r. r \<notin> set (kind_rights kind)) rs = Some r
     \<and> collect_bits kind rs b = Inl (RightNotAvailable kind r)"
  using assms by (induction rs arbitrary: b) (auto simp: Let_def)

lemma from_rights_Ok:
  assumes sub: "set rs \<subseteq> set (kind_rights kind)"
  shows "\<exists>s. from_rights kind rs = Inr s \<and> is_well_formed_for s kind
    \<and> rights_of (bits s) = reveal_closure (set rs)"
proof -
  from collect_bits_Ok[OF sub, of 0] obtain c where c: "collect_bits kind rs 0 = Inr c"
    "rights_of c = reveal_closure (set rs)" "c AND NOT KNOWN_RIGHT_BITS = 0" by auto
  have "reveal_closed (rights_of c)" by (auto simp: c reveal_closed_def reveal_closure_def)
  moreover have "rights_of c \<subseteq> set (kind_rights kind)"
    using sub reveal_has_seal[of kind] by (auto simp: c reveal_closure_def)
  ultimately have "from_canonical_bits kind c = Inr (RightsSet c)"
    using c by (simp add: from_canonical_bits_Ok)
  with c show ?thesis
    by (simp add: from_rights_def is_well_formed_for_def)
qed

lemma from_rights_Err:
  assumes "\<not> set rs \<subseteq> set (kind_rights kind)"
  shows "\<exists>r. List.find (\<lambda>r. r \<notin> set (kind_rights kind)) rs = Some r
     \<and> from_rights kind rs = Inl (RightNotAvailable kind r)"
  using collect_bits_Err[OF assms, of 0] by (auto simp: from_rights_def)

lemma from_rights_SomeD:
  assumes "from_rights kind rs = Inr s"
  shows "set rs \<subseteq> set (kind_rights kind)" "is_well_formed_for s kind"
    "rights_of (bits s) = reveal_closure (set rs)"
proof -
  show sub: "set rs \<subseteq> set (kind_rights kind)"
    using assms from_rights_Err[of rs kind] by auto
  from from_rights_Ok[OF sub] assms show "is_well_formed_for s kind"
    "rights_of (bits s) = reveal_closure (set rs)" by auto
qed

lemma rights_contains_iff: "rights_contains s r \<longleftrightarrow> r \<in> rights_of (bits s)"
  by (simp add: rights_contains_def rights_of_def)

section \<open>Properties\<close>

text \<open>
  C40: \<open>RightsSet::from_rights\<close> is total and exact: it fails exactly when some right is not in the
  kind's lattice, then naming the first such right, and otherwise returns a well-formed set that
  contains the given rights and, when \<open>Reveal\<close> is among them, \<open>Seal\<close>, and nothing else.
\<close>

theorem from_rights_exact:
  "case List.find (\<lambda>r. r \<notin> set (kind_rights kind)) rs of
     Some r \<Rightarrow> from_rights kind rs = Inl (RightNotAvailable kind r)
   | None \<Rightarrow> \<exists>s. from_rights kind rs = Inr s \<and> is_well_formed_for s kind
       \<and> {r. rights_contains s r} = reveal_closure (set rs)"
proof (cases "set rs \<subseteq> set (kind_rights kind)")
  case True
  then have "List.find (\<lambda>r. r \<notin> set (kind_rights kind)) rs = None" by (auto simp: find_None)
  with from_rights_Ok[OF True] show ?thesis by (auto simp: rights_contains_iff)
next
  case False
  from from_rights_Err[OF False] show ?thesis by auto
qed

text \<open>
  the serialized form of a right set is canonical: a set built from source rights decodes to
  itself, and two right lists have the same bits exactly when they denote the same closed set of
  rights, whatever their order and repetitions.
\<close>

theorem rights_set_canonical:
  assumes "from_rights kind rs = Inr s" "from_rights kind rs' = Inr s'"
  shows "from_canonical_bits kind (bits s) = Inr s
    \<and> (bits s = bits s' \<longleftrightarrow> reveal_closure (set rs) = reveal_closure (set rs'))"
proof -
  note s = from_rights_SomeD[OF assms(1)] and s' = from_rights_SomeD[OF assms(2)]
  have "from_canonical_bits kind (bits s) = Inr s"
    using s(2) by (cases s) (simp add: wf_iff from_canonical_bits_Ok)
  moreover have "bits s = bits s' \<longleftrightarrow> rights_of (bits s) = rights_of (bits s')"
    using rights_of_inj[of "bits s" "bits s'"] s(2) s'(2) by (auto simp: wf_iff)
  ultimately show ?thesis using s(3) s'(3) by simp
qed

theorem rights_set_canonical_witness:
  "from_canonical_bits Secret 0x180 = Inr (RightsSet 0x180) \<and>
   reveal_closure {Reveal} = reveal_closure {Seal, Reveal}"
proof -
  have h: "from_rights Secret [Reveal] = Inr (RightsSet 0x180)"
    "from_rights Secret [Seal, Reveal] = Inr (RightsSet 0x180)" by code_simp+
  show ?thesis using rights_set_canonical[OF h] by simp
qed

text \<open>
  C40: the bitset admission test refines the slice-level one: on well-formed right lists,
  \<open>RightsSet::admits\<close> of their bitsets is \<open>rights_admit\<close>, including that \<open>Reveal\<close> on a \<open>Secret\<close>
  supplies \<open>Seal\<close>.
\<close>

theorem rights_set_admits_refines:
  assumes "rights_are_well_formed kind held" "rights_are_well_formed kind required"
    and "from_rights kind held = Inr h" "from_rights kind required = Inr r"
  shows "rights_set_admits h kind r \<longleftrightarrow> rights_admit kind held required"
proof -
  have "reveal_closure (set rs) = set rs" if "rights_are_well_formed kind rs" for rs
    using that by (auto simp: rights_are_well_formed_iff reveal_closed_def reveal_closure_def)
  then show ?thesis
    using assms from_rights_SomeD[OF assms(3)] from_rights_SomeD[OF assms(4)]
    by (simp add: admits_iff rights_admit_iff)
qed

theorem rights_set_admits_refines_witness:
  "rights_set_admits (RightsSet 0x180) Secret (RightsSet 0x100) \<longleftrightarrow>
     rights_admit Secret [Reveal, Seal] [Seal]"
  by (rule rights_set_admits_refines) code_simp+

text \<open>
  C29: a lineage of narrowed right sets never regains a right: when each set of a list is a monotone
  narrowing of its predecessor, every right of every set in the list is held by the first.
\<close>

theorem rights_lineage_no_escalation:
  assumes "\<forall>i. Suc i < length (s # ss) \<longrightarrow>
      rights_set_is_monotone_narrowing kind ((s # ss) ! i) ((s # ss) ! Suc i)"
    and "is_well_formed_for s kind" "t \<in> set (s # ss)" "rights_contains t r"
  shows "rights_contains s r"
proof -
  have "rights_sets.lineage kind (s # ss)"
    using assms(1) by (simp add: rights_sets.lineage_def rights_set_is_monotone_narrowing_def is_subset_of_def)
  then have "rights_set_admits s kind t"
    using assms(2,3) by (rule rights_sets.lineage_root_admits)
  then show ?thesis using assms(4) by (auto simp: admits_iff rights_contains_iff)
qed

theorem rights_lineage_no_escalation_witness: "rights_contains (RightsSet 0x3) Read"
proof (rule rights_lineage_no_escalation[of "RightsSet 0x3" "[RightsSet 0x1]" Dir "RightsSet 0x1" Read])
  have "rights_set_is_monotone_narrowing Dir (RightsSet 0x3) (RightsSet 0x1)" by code_simp
  then show "\<forall>i. Suc i < length [RightsSet 0x3, RightsSet 0x1] \<longrightarrow>
      rights_set_is_monotone_narrowing Dir ([RightsSet 0x3, RightsSet 0x1] ! i)
        ([RightsSet 0x3, RightsSet 0x1] ! Suc i)" by simp
qed code_simp+

end
