(* ===== verification/Authority.thy ===== *)
theory Authority
  imports Rights_Sets
begin

text \<open>
  The static authority catalog (crates/witchy-cap-model/src/authority.rs): target domains, scopes
  and their admission, the contract of every capability kind, and the table of every
  receiver-qualified operation with the rights it requires and the authority it produces. The
  properties are the judgments the catalog has to support: identities are unique, required rights
  exist, and no operation produces authority that its receiver does not justify.
\<close>

section \<open>Right slices of the catalog\<close>

definition NO_RIGHTS :: "CapabilityRight list" where "NO_RIGHTS = []"
definition READ_ONLY :: "CapabilityRight list" where "READ_ONLY = [Read]"
definition WRITE_ONLY :: "CapabilityRight list" where "WRITE_ONLY = [Write]"
definition CONNECT_ONLY :: "CapabilityRight list" where "CONNECT_ONLY = [Connect]"
definition CONNECT_TCP :: "CapabilityRight list" where "CONNECT_TCP = [Connect, Tcp]"
definition LISTEN_TCP :: "CapabilityRight list" where "LISTEN_TCP = [Listen, Tcp]"
definition REVEAL_SET :: "CapabilityRight list" where "REVEAL_SET = [Reveal, Seal]"
definition SEAL_ONLY :: "CapabilityRight list" where "SEAL_ONLY = [Seal]"

section \<open>Target domains\<close>

datatype HostReceiverEncoding = ErasedGhost | ExternRef

datatype InternalCarrierEncoding = CarrierExternRef

type_synonym TargetDomainId = "16 word"

definition NATIVE_RUNTIME :: TargetDomainId where "NATIVE_RUNTIME = 0x0001"
definition BROWSER_BASE :: TargetDomainId where "BROWSER_BASE = 0x0002"
definition BROWSER_CAPABILITY_PROVIDER :: TargetDomainId where "BROWSER_CAPABILITY_PROVIDER = 0x0003"
definition NATIVE_BUILD_WORKER :: TargetDomainId where "NATIVE_BUILD_WORKER = 0x0004"
definition INTERPRETER_ORACLE :: TargetDomainId where "INTERPRETER_ORACLE = 0x7fff"

lemmas target_ids = NATIVE_RUNTIME_def BROWSER_BASE_def BROWSER_CAPABILITY_PROVIDER_def
  NATIVE_BUILD_WORKER_def INTERPRETER_ORACLE_def

record TargetDomainContract =
  td_id :: TargetDomainId
  td_name :: string
  td_shippable :: bool

definition TARGET_DOMAIN_CONTRACTS :: "TargetDomainContract list" where
  "TARGET_DOMAIN_CONTRACTS =
    [\<lparr>td_id = NATIVE_RUNTIME, td_name = ''native-runtime'', td_shippable = True\<rparr>,
     \<lparr>td_id = BROWSER_BASE, td_name = ''browser-base'', td_shippable = True\<rparr>,
     \<lparr>td_id = BROWSER_CAPABILITY_PROVIDER, td_name = ''browser-capability-provider'', td_shippable = True\<rparr>,
     \<lparr>td_id = NATIVE_BUILD_WORKER, td_name = ''native-build-worker'', td_shippable = True\<rparr>,
     \<lparr>td_id = INTERPRETER_ORACLE, td_name = ''interpreter-oracle'', td_shippable = False\<rparr>]"

definition target_domain_contract :: "TargetDomainId \<Rightarrow> TargetDomainContract option" where
  "target_domain_contract w = List.find (\<lambda>c. td_id c = w) TARGET_DOMAIN_CONTRACTS"

definition NATIVE :: "TargetDomainId list" where
  "NATIVE = [NATIVE_RUNTIME, INTERPRETER_ORACLE]"

definition NATIVE_AND_BROWSER_PROVIDER :: "TargetDomainId list" where
  "NATIVE_AND_BROWSER_PROVIDER = [NATIVE_RUNTIME, BROWSER_CAPABILITY_PROVIDER, INTERPRETER_ORACLE]"

definition CONSOLE_WRITE_TARGETS :: "TargetDomainId list" where
  "CONSOLE_WRITE_TARGETS = [NATIVE_RUNTIME, BROWSER_BASE, BROWSER_CAPABILITY_PROVIDER, INTERPRETER_ORACLE]"

definition BUILD :: "TargetDomainId list" where
  "BUILD = [NATIVE_BUILD_WORKER, INTERPRETER_ORACLE]"

section \<open>Scopes\<close>

datatype AuthorityScopeKind =
    ConsoleStreams | ClockScope | Randomness | EnvironmentNames | SecretMaterial | SecretNames
  | DirectoryTree | FilePath | NetworkAddresses | FetchOrigins | ExecutablePrograms
  | ConnectedEndpoint | ListeningEndpoint
  | BuildOutputRoot | BuildReadRoots | BuildEnvironmentNames | BuildNetworkHosts | BuildTools

fun scope_stable_id :: "AuthorityScopeKind \<Rightarrow> 16 word" where
  "scope_stable_id ConsoleStreams = 0x0001"
| "scope_stable_id ClockScope = 0x0002"
| "scope_stable_id Randomness = 0x0003"
| "scope_stable_id EnvironmentNames = 0x0004"
| "scope_stable_id SecretMaterial = 0x0005"
| "scope_stable_id SecretNames = 0x0006"
| "scope_stable_id DirectoryTree = 0x0007"
| "scope_stable_id FilePath = 0x0008"
| "scope_stable_id NetworkAddresses = 0x0009"
| "scope_stable_id FetchOrigins = 0x000a"
| "scope_stable_id ExecutablePrograms = 0x000b"
| "scope_stable_id ConnectedEndpoint = 0x0101"
| "scope_stable_id ListeningEndpoint = 0x0102"
| "scope_stable_id BuildOutputRoot = 0x0201"
| "scope_stable_id BuildReadRoots = 0x0202"
| "scope_stable_id BuildEnvironmentNames = 0x0203"
| "scope_stable_id BuildNetworkHosts = 0x0204"
| "scope_stable_id BuildTools = 0x0205"

definition authority_scope_kind_from_id :: "16 word \<Rightarrow> AuthorityScopeKind option" where
  "authority_scope_kind_from_id w =
    (if w = 0x0001 then Some ConsoleStreams
     else if w = 0x0002 then Some ClockScope
     else if w = 0x0003 then Some Randomness
     else if w = 0x0004 then Some EnvironmentNames
     else if w = 0x0005 then Some SecretMaterial
     else if w = 0x0006 then Some SecretNames
     else if w = 0x0007 then Some DirectoryTree
     else if w = 0x0008 then Some FilePath
     else if w = 0x0009 then Some NetworkAddresses
     else if w = 0x000a then Some FetchOrigins
     else if w = 0x000b then Some ExecutablePrograms
     else if w = 0x0101 then Some ConnectedEndpoint
     else if w = 0x0102 then Some ListeningEndpoint
     else if w = 0x0201 then Some BuildOutputRoot
     else if w = 0x0202 then Some BuildReadRoots
     else if w = 0x0203 then Some BuildEnvironmentNames
     else if w = 0x0204 then Some BuildNetworkHosts
     else if w = 0x0205 then Some BuildTools
     else None)"

datatype ScopeRestrictionId = ScopeRestrictionId (as_bytes: "8 word list")

datatype AuthorityScope =
    Unrestricted AuthorityScopeKind
  | Restricted AuthorityScopeKind ScopeRestrictionId

datatype ScopeKindMismatch = ScopeKindMismatch (held_kind: AuthorityScopeKind) (required_kind: AuthorityScopeKind)

fun scope_kind :: "AuthorityScope \<Rightarrow> AuthorityScopeKind" where
  "scope_kind (Unrestricted kind) = kind"
| "scope_kind (Restricted kind _) = kind"

fun scope_restriction :: "AuthorityScope \<Rightarrow> ScopeRestrictionId option" where
  "scope_restriction (Unrestricted _) = None"
| "scope_restriction (Restricted _ restriction) = Some restriction"

definition scope_admits :: "AuthorityScope \<Rightarrow> AuthorityScope \<Rightarrow> (ScopeKindMismatch, bool) result" where
  "scope_admits self required =
     (if scope_kind self \<noteq> scope_kind required
      then Err (ScopeKindMismatch (scope_kind self) (scope_kind required))
      else Ok (case (self, required) of
          (Unrestricted _, _) \<Rightarrow> True
        | (Restricted _ h, Restricted _ r) \<Rightarrow> h = r
        | (Restricted _ _, Unrestricted _) \<Rightarrow> False))"

definition scope_is_monotone_narrowing :: "AuthorityScope \<Rightarrow> AuthorityScope \<Rightarrow> (ScopeKindMismatch, bool) result" where
  "scope_is_monotone_narrowing parent child = scope_admits parent child"

lemma scope_id_roundtrip: "authority_scope_kind_from_id (scope_stable_id k) = Some k"
  by (cases k) (simp_all add: authority_scope_kind_from_id_def)

lemma scope_id_sound: "authority_scope_kind_from_id w = Some k \<Longrightarrow> scope_stable_id k = w"
  unfolding authority_scope_kind_from_id_def by (elim if_SomeE) simp_all

interpretation scope_ids: coding scope_stable_id authority_scope_kind_from_id
  by unfold_locales (simp_all add: scope_id_roundtrip scope_id_sound)

lemma scope_admits_iff: "scope_admits a b = Inr True \<longleftrightarrow>
    scope_kind a = scope_kind b \<and> (scope_restriction a = None \<or> scope_restriction a = scope_restriction b)"
  by (cases a; cases b) (simp_all add: scope_admits_def)

interpretation scopes: authority_order "\<lambda>_. True" "\<lambda>a b. scope_admits a b = Inr True"
  by unfold_locales (auto simp: scope_admits_iff)

section \<open>Capability contracts\<close>

datatype RootOriginPolicy = EntryParameter | GhostEntryParameter | DerivedOnly

datatype ScopeNarrowingKind = RightsAscription | EnvOnly | ExecOnly | DirOnly | NetOnly | NetDeny | FetchOnly

datatype DerivationKind =
    SecretStoreGet | SecretStoreRequire | DirSubtree | DirReadFile | DirWriteFile | NetFetch
  | NetConnect | NetConnectPinned | NetTryConnectPinned | NetListen | NetListenTls | ListenerAccept

definition NO_DERIVATIONS :: "DerivationKind list" where "NO_DERIVATIONS = []"

definition SECRET_DERIVATIONS :: "DerivationKind list" where
  "SECRET_DERIVATIONS = [SecretStoreGet, SecretStoreRequire]"

definition DIR_DERIVATIONS :: "DerivationKind list" where "DIR_DERIVATIONS = [DirSubtree]"

definition FILE_DERIVATIONS :: "DerivationKind list" where
  "FILE_DERIVATIONS = [DirReadFile, DirWriteFile]"

definition FETCH_DERIVATIONS :: "DerivationKind list" where "FETCH_DERIVATIONS = [NetFetch]"

definition SOCKET_DERIVATIONS :: "DerivationKind list" where
  "SOCKET_DERIVATIONS = [NetConnect, NetConnectPinned, NetTryConnectPinned, ListenerAccept]"

definition LISTENER_DERIVATIONS :: "DerivationKind list" where
  "LISTENER_DERIVATIONS = [NetListen, NetListenTls]"

record CapabilityContract =
  cc_kind :: CapabilityKind
  cc_id :: "16 word"
  cc_rights :: "CapabilityRight list"
  cc_scope :: AuthorityScopeKind
  cc_host_receiver :: HostReceiverEncoding
  cc_internal_carrier :: InternalCarrierEncoding
  cc_root_origin :: RootOriginPolicy
  cc_permitted_derivations :: "DerivationKind list"

text \<open>The macro \<open>capability!\<close>.\<close>

definition contract_row :: "CapabilityKind \<Rightarrow> CapabilityRight list \<Rightarrow> AuthorityScopeKind \<Rightarrow>
    HostReceiverEncoding \<Rightarrow> RootOriginPolicy \<Rightarrow> DerivationKind list \<Rightarrow> CapabilityContract" where
  "contract_row kind rights scope host root derivations =
     \<lparr>cc_kind = kind, cc_id = kind_stable_id kind, cc_rights = rights, cc_scope = scope,
      cc_host_receiver = host, cc_internal_carrier = CarrierExternRef, cc_root_origin = root,
      cc_permitted_derivations = derivations\<rparr>"

definition CAPABILITY_CONTRACTS :: "CapabilityContract list" where
  "CAPABILITY_CONTRACTS =
    [contract_row Console READ_WRITE_RIGHTS ConsoleStreams ErasedGhost GhostEntryParameter NO_DERIVATIONS,
     contract_row Clock NO_RIGHTS ClockScope ErasedGhost GhostEntryParameter NO_DERIVATIONS,
     contract_row Rand NO_RIGHTS Randomness ErasedGhost GhostEntryParameter NO_DERIVATIONS,
     contract_row Env NO_RIGHTS EnvironmentNames ExternRef EntryParameter NO_DERIVATIONS,
     contract_row Secret SECRET_RIGHTS SecretMaterial ExternRef EntryParameter SECRET_DERIVATIONS,
     contract_row SecretStore NO_RIGHTS SecretNames ErasedGhost GhostEntryParameter NO_DERIVATIONS,
     contract_row Dir READ_WRITE_RIGHTS DirectoryTree ExternRef EntryParameter DIR_DERIVATIONS,
     contract_row File READ_WRITE_RIGHTS FilePath ExternRef EntryParameter FILE_DERIVATIONS,
     contract_row Net NET_RIGHTS NetworkAddresses ExternRef EntryParameter NO_DERIVATIONS,
     contract_row Fetch NO_RIGHTS FetchOrigins ExternRef EntryParameter FETCH_DERIVATIONS,
     contract_row Exec NO_RIGHTS ExecutablePrograms ExternRef EntryParameter NO_DERIVATIONS,
     contract_row Socket NO_RIGHTS ConnectedEndpoint ExternRef DerivedOnly SOCKET_DERIVATIONS,
     contract_row Listener NO_RIGHTS ListeningEndpoint ExternRef DerivedOnly LISTENER_DERIVATIONS,
     contract_row BuildOut NO_RIGHTS BuildOutputRoot ErasedGhost GhostEntryParameter NO_DERIVATIONS,
     contract_row BuildRead NO_RIGHTS BuildReadRoots ErasedGhost GhostEntryParameter NO_DERIVATIONS,
     contract_row BuildEnv NO_RIGHTS BuildEnvironmentNames ErasedGhost GhostEntryParameter NO_DERIVATIONS,
     contract_row BuildNet NO_RIGHTS BuildNetworkHosts ErasedGhost GhostEntryParameter NO_DERIVATIONS,
     contract_row BuildExec NO_RIGHTS BuildTools ErasedGhost GhostEntryParameter NO_DERIVATIONS]"

text \<open>\<open>capability_contract\<close> panics (\<open>None\<close>) when the table has no row for the kind.\<close>

definition capability_contract :: "CapabilityKind \<Rightarrow> CapabilityContract option" where
  "capability_contract kind = List.find (\<lambda>c. cc_kind c = kind) CAPABILITY_CONTRACTS"

definition root_origin_permits_entry :: "CapabilityKind \<Rightarrow> bool option" where
  "root_origin_permits_entry kind =
     map_option (\<lambda>c. cc_root_origin c \<noteq> DerivedOnly) (capability_contract kind)"

section \<open>Operations\<close>

datatype ImportRole =
    RootMint | AuthorityAction | AuthorityAttenuation | AuthorityDerivationRole | ResultSize | ResultFill
  | PendingResultDrain | PendingListDrain | LaunchInput | PureInfrastructure | InternalService
  | RuntimeDiagnostic

datatype ImportProtocol = Direct | PendingBytes | SplitFill | PendingList

type_synonym HostOperationId = "32 word"

record AuthorityOperandRequirement =
  ar_operand_index :: "8 word"
  ar_kind :: CapabilityKind
  ar_rights :: "CapabilityRight list"

definition NO_AUTHORITY_OPERANDS :: "AuthorityOperandRequirement list" where
  "NO_AUTHORITY_OPERANDS = []"

definition EXEC_DIR_REQUIREMENT :: "AuthorityOperandRequirement list" where
  "EXEC_DIR_REQUIREMENT = [\<lparr>ar_operand_index = 1, ar_kind = Dir, ar_rights = READ_ONLY\<rparr>]"

definition TLS_SECRET_REQUIREMENT :: "AuthorityOperandRequirement list" where
  "TLS_SECRET_REQUIREMENT = [\<lparr>ar_operand_index = 3, ar_kind = Secret, ar_rights = SEAL_ONLY\<rparr>]"

datatype DerivedRights = NoRights | PreserveReceiver | Exact "CapabilityRight list" | SecretGrantBounded

record AuthorityDerivation =
  ad_kind :: DerivationKind
  ad_result_kind :: CapabilityKind
  ad_result_rights :: DerivedRights

datatype AuthorityOperationEffect =
    Use
  | Attenuate ScopeNarrowingKind
  | Derive AuthorityDerivation

datatype AuthorityFlowEvent =
    ReceiveRoot CapabilityKind
  | NarrowRights CapabilityKind
  | NarrowScope ScopeNarrowingKind
  | DeriveEvent DerivationKind
  | UseEvent HostOperationId

record AuthorityOperationContract =
  op_id :: HostOperationId
  op_name :: string
  op_receiver :: CapabilityKind
  op_required_receiver_rights :: "CapabilityRight list"
  op_additional_authority_operands :: "AuthorityOperandRequirement list"
  op_effect :: AuthorityOperationEffect
  op_import_protocol :: ImportProtocol
  op_targets :: "TargetDomainId list"

definition use_op :: "HostOperationId \<Rightarrow> string \<Rightarrow> CapabilityKind \<Rightarrow> CapabilityRight list \<Rightarrow>
    AuthorityOperandRequirement list \<Rightarrow> ImportProtocol \<Rightarrow> TargetDomainId list \<Rightarrow>
    AuthorityOperationContract" where
  "use_op w name receiver rights additional protocol targets =
     \<lparr>op_id = w, op_name = name, op_receiver = receiver, op_required_receiver_rights = rights,
      op_additional_authority_operands = additional, op_effect = Use,
      op_import_protocol = protocol, op_targets = targets\<rparr>"

definition attenuate_op :: "HostOperationId \<Rightarrow> string \<Rightarrow> CapabilityKind \<Rightarrow> CapabilityRight list \<Rightarrow>
    ScopeNarrowingKind \<Rightarrow> ImportProtocol \<Rightarrow> TargetDomainId list \<Rightarrow>
    AuthorityOperationContract" where
  "attenuate_op w name receiver rights narrow protocol targets =
     \<lparr>op_id = w, op_name = name, op_receiver = receiver, op_required_receiver_rights = rights,
      op_additional_authority_operands = NO_AUTHORITY_OPERANDS, op_effect = Attenuate narrow,
      op_import_protocol = protocol, op_targets = targets\<rparr>"

definition derive_op :: "HostOperationId \<Rightarrow> string \<Rightarrow> CapabilityKind \<Rightarrow> CapabilityRight list \<Rightarrow>
    AuthorityOperandRequirement list \<Rightarrow> DerivationKind \<Rightarrow> CapabilityKind \<Rightarrow> DerivedRights \<Rightarrow>
    ImportProtocol \<Rightarrow> TargetDomainId list \<Rightarrow> AuthorityOperationContract" where
  "derive_op w name receiver rights additional derivation result_kind result_rights protocol targets =
     \<lparr>op_id = w, op_name = name, op_receiver = receiver, op_required_receiver_rights = rights,
      op_additional_authority_operands = additional,
      op_effect = Derive \<lparr>ad_kind = derivation, ad_result_kind = result_kind, ad_result_rights = result_rights\<rparr>,
      op_import_protocol = protocol, op_targets = targets\<rparr>"

definition ops_ambient :: "AuthorityOperationContract list" where
  "ops_ambient =
    [use_op 0x00010001 ''console.print'' Console WRITE_ONLY
         NO_AUTHORITY_OPERANDS Direct CONSOLE_WRITE_TARGETS,
     use_op 0x00010002 ''console.read_line'' Console READ_ONLY
         NO_AUTHORITY_OPERANDS PendingBytes NATIVE_AND_BROWSER_PROVIDER,
     use_op 0x00020001 ''clock.now'' Clock NO_RIGHTS
         NO_AUTHORITY_OPERANDS Direct NATIVE_AND_BROWSER_PROVIDER,
     use_op 0x00020002 ''clock.now_monotonic'' Clock NO_RIGHTS
         NO_AUTHORITY_OPERANDS Direct NATIVE_AND_BROWSER_PROVIDER,
     use_op 0x00030001 ''rand.rand_u64'' Rand NO_RIGHTS NO_AUTHORITY_OPERANDS Direct NATIVE,
     use_op 0x00040001 ''env.get_env'' Env NO_RIGHTS
         NO_AUTHORITY_OPERANDS SplitFill NATIVE_AND_BROWSER_PROVIDER,
     attenuate_op 0x00040002 ''env.only'' Env NO_RIGHTS
         EnvOnly Direct NATIVE_AND_BROWSER_PROVIDER]"

definition ops_secret_exec :: "AuthorityOperationContract list" where
  "ops_secret_exec =
    [derive_op 0x00050001 ''secretstore.get'' SecretStore NO_RIGHTS NO_AUTHORITY_OPERANDS
         SecretStoreGet Secret SecretGrantBounded Direct NATIVE_AND_BROWSER_PROVIDER,
     derive_op 0x00050002 ''secretstore.require'' SecretStore NO_RIGHTS NO_AUTHORITY_OPERANDS
         SecretStoreRequire Secret SecretGrantBounded Direct NATIVE_AND_BROWSER_PROVIDER,
     use_op 0x00060001 ''crypto.sign'' Secret SEAL_ONLY
         NO_AUTHORITY_OPERANDS Direct NATIVE_AND_BROWSER_PROVIDER,
     use_op 0x00060002 ''crypto.public_key'' Secret SEAL_ONLY
         NO_AUTHORITY_OPERANDS Direct NATIVE_AND_BROWSER_PROVIDER,
     use_op 0x00060003 ''crypto.reveal'' Secret REVEAL_SET
         NO_AUTHORITY_OPERANDS PendingBytes NATIVE_AND_BROWSER_PROVIDER,
     use_op 0x00070001 ''exec.exec'' Exec NO_RIGHTS EXEC_DIR_REQUIREMENT PendingBytes NATIVE,
     attenuate_op 0x00070002 ''exec.only'' Exec NO_RIGHTS ExecOnly Direct NATIVE]"

definition ops_build_file :: "AuthorityOperationContract list" where
  "ops_build_file =
    [use_op 0x00080001 ''build_out.write_out'' BuildOut NO_RIGHTS
         NO_AUTHORITY_OPERANDS Direct BUILD,
     use_op 0x00090001 ''build_read.read_build'' BuildRead NO_RIGHTS
         NO_AUTHORITY_OPERANDS PendingBytes BUILD,
     use_op 0x000a0001 ''build_env.get_build_env'' BuildEnv NO_RIGHTS
         NO_AUTHORITY_OPERANDS SplitFill BUILD,
     use_op 0x000b0001 ''build_net.fetch_build'' BuildNet NO_RIGHTS
         NO_AUTHORITY_OPERANDS PendingBytes BUILD,
     use_op 0x000c0001 ''build_exec.run_tool'' BuildExec NO_RIGHTS
         NO_AUTHORITY_OPERANDS PendingBytes BUILD,
     use_op 0x000d0001 ''file.read'' File READ_ONLY
         NO_AUTHORITY_OPERANDS PendingBytes NATIVE_AND_BROWSER_PROVIDER,
     use_op 0x000d0002 ''file.write'' File WRITE_ONLY
         NO_AUTHORITY_OPERANDS Direct NATIVE_AND_BROWSER_PROVIDER]"

definition ops_dir_read :: "AuthorityOperationContract list" where
  "ops_dir_read =
    [attenuate_op 0x000e0001 ''dir.only'' Dir READ_ONLY
         DirOnly Direct NATIVE_AND_BROWSER_PROVIDER,
     use_op 0x000e0002 ''dir.list'' Dir READ_ONLY
         NO_AUTHORITY_OPERANDS PendingList NATIVE_AND_BROWSER_PROVIDER,
     use_op 0x000e0003 ''dir.read'' Dir READ_ONLY
         NO_AUTHORITY_OPERANDS PendingBytes NATIVE_AND_BROWSER_PROVIDER,
     use_op 0x000e0004 ''dir.exists'' Dir READ_ONLY
         NO_AUTHORITY_OPERANDS Direct NATIVE_AND_BROWSER_PROVIDER,
     use_op 0x000e0005 ''dir.is_dir'' Dir READ_ONLY
         NO_AUTHORITY_OPERANDS Direct NATIVE_AND_BROWSER_PROVIDER,
     derive_op 0x000e0006 ''dir.subtree'' Dir READ_ONLY NO_AUTHORITY_OPERANDS
         DirSubtree Dir PreserveReceiver Direct NATIVE_AND_BROWSER_PROVIDER,
     use_op 0x000e0007 ''dir.make_dir'' Dir WRITE_ONLY
         NO_AUTHORITY_OPERANDS Direct NATIVE_AND_BROWSER_PROVIDER,
     derive_op 0x000e0008 ''dir.read_file'' Dir READ_ONLY NO_AUTHORITY_OPERANDS DirReadFile
         File (Exact READ_ONLY) Direct NATIVE_AND_BROWSER_PROVIDER,
     derive_op 0x000e0009 ''dir.write_file'' Dir WRITE_ONLY NO_AUTHORITY_OPERANDS DirWriteFile
         File (Exact WRITE_ONLY) Direct NATIVE_AND_BROWSER_PROVIDER]"

definition ops_dir_write :: "AuthorityOperationContract list" where
  "ops_dir_write =
    [use_op 0x000e000a ''dir.write'' Dir WRITE_ONLY
         NO_AUTHORITY_OPERANDS Direct NATIVE_AND_BROWSER_PROVIDER,
     use_op 0x000e000b ''dir.append'' Dir WRITE_ONLY
         NO_AUTHORITY_OPERANDS Direct NATIVE_AND_BROWSER_PROVIDER,
     use_op 0x000e000c ''dir.create_new'' Dir WRITE_ONLY
         NO_AUTHORITY_OPERANDS Direct NATIVE_AND_BROWSER_PROVIDER,
     use_op 0x000e000d ''dir.replace'' Dir WRITE_ONLY
         NO_AUTHORITY_OPERANDS Direct NATIVE_AND_BROWSER_PROVIDER,
     use_op 0x000e000e ''dir.rename'' Dir WRITE_ONLY
         NO_AUTHORITY_OPERANDS Direct NATIVE_AND_BROWSER_PROVIDER,
     use_op 0x000e000f ''dir.read_bytes'' Dir READ_ONLY
         NO_AUTHORITY_OPERANDS PendingBytes NATIVE_AND_BROWSER_PROVIDER,
     use_op 0x000e0010 ''dir.write_bytes'' Dir WRITE_ONLY
         NO_AUTHORITY_OPERANDS Direct NATIVE_AND_BROWSER_PROVIDER,
     use_op 0x000e0011 ''dir.append_bytes'' Dir WRITE_ONLY
         NO_AUTHORITY_OPERANDS Direct NATIVE_AND_BROWSER_PROVIDER,
     use_op 0x000e0012 ''dir.set_executable'' Dir WRITE_ONLY
         NO_AUTHORITY_OPERANDS Direct NATIVE_AND_BROWSER_PROVIDER]"

definition ops_net :: "AuthorityOperationContract list" where
  "ops_net =
    [derive_op 0x000f0001 ''net.connect'' Net CONNECT_TCP NO_AUTHORITY_OPERANDS
         NetConnect Socket NoRights Direct NATIVE,
     derive_op 0x000f0003 ''net.listen'' Net LISTEN_TCP NO_AUTHORITY_OPERANDS
         NetListen Listener NoRights Direct NATIVE,
     derive_op 0x000f0004 ''net.listen_tls'' Net LISTEN_TCP TLS_SECRET_REQUIREMENT
         NetListenTls Listener NoRights Direct NATIVE,
     attenuate_op 0x000f0005 ''net.only'' Net NO_RIGHTS NetOnly Direct NATIVE,
     derive_op 0x000f0006 ''net.fetch'' Net CONNECT_TCP NO_AUTHORITY_OPERANDS
         NetFetch Fetch NoRights Direct NATIVE,
     attenuate_op 0x000f0007 ''net.deny'' Net NO_RIGHTS NetDeny Direct NATIVE,
     use_op 0x000f0008 ''net.resolve'' Net CONNECT_ONLY NO_AUTHORITY_OPERANDS PendingList NATIVE,
     derive_op 0x000f0009 ''net.connect_pinned'' Net CONNECT_TCP NO_AUTHORITY_OPERANDS
         NetConnectPinned Socket NoRights Direct NATIVE,
     derive_op 0x000f000a ''net.try_connect_pinned'' Net CONNECT_TCP NO_AUTHORITY_OPERANDS
         NetTryConnectPinned Socket NoRights Direct NATIVE]"

definition ops_endpoints :: "AuthorityOperationContract list" where
  "ops_endpoints =
    [attenuate_op 0x00100001 ''fetch.only'' Fetch NO_RIGHTS
         FetchOnly Direct NATIVE_AND_BROWSER_PROVIDER,
     use_op 0x00100002 ''fetch.send_raw'' Fetch NO_RIGHTS
         NO_AUTHORITY_OPERANDS PendingBytes NATIVE_AND_BROWSER_PROVIDER,
     derive_op 0x00110001 ''listener.accept'' Listener NO_RIGHTS NO_AUTHORITY_OPERANDS
         ListenerAccept Socket NoRights Direct NATIVE,
     use_op 0x00110002 ''listener.serve_pool'' Listener NO_RIGHTS
         NO_AUTHORITY_OPERANDS Direct NATIVE,
     use_op 0x00120001 ''socket.send_line'' Socket NO_RIGHTS NO_AUTHORITY_OPERANDS Direct NATIVE,
     use_op 0x00120002 ''socket.send_bytes'' Socket NO_RIGHTS NO_AUTHORITY_OPERANDS Direct NATIVE,
     use_op 0x00120003 ''socket.recv_line'' Socket NO_RIGHTS
         NO_AUTHORITY_OPERANDS PendingBytes NATIVE,
     use_op 0x00120004 ''socket.recv_all'' Socket NO_RIGHTS
         NO_AUTHORITY_OPERANDS PendingBytes NATIVE,
     use_op 0x00120005 ''socket.recv_bytes'' Socket NO_RIGHTS
         NO_AUTHORITY_OPERANDS PendingBytes NATIVE,
     use_op 0x00120006 ''socket.close'' Socket NO_RIGHTS NO_AUTHORITY_OPERANDS Direct NATIVE]"

definition AUTHORITY_OPERATIONS :: "AuthorityOperationContract list" where
  "AUTHORITY_OPERATIONS = ops_ambient @ ops_secret_exec @ ops_build_file @ ops_dir_read @ ops_dir_write @ ops_net @ ops_endpoints"

definition authority_operation :: "HostOperationId \<Rightarrow> AuthorityOperationContract option" where
  "authority_operation w = List.find (\<lambda>op. op_id op = w) AUTHORITY_OPERATIONS"

definition authority_operation_named :: "string \<Rightarrow> AuthorityOperationContract option" where
  "authority_operation_named name = List.find (\<lambda>op. op_name op = name) AUTHORITY_OPERATIONS"

section \<open>Unique keys\<close>

text \<open>A table whose keys are distinct is searched exactly by them.\<close>

lemma find_key_unique:
  assumes "distinct (map key xs)" "x \<in> set xs"
  shows "List.find (\<lambda>y. key y = key x) xs = Some x"
  using assms by (induction xs) auto

lemmas op_tables = AUTHORITY_OPERATIONS_def ops_ambient_def ops_secret_exec_def ops_build_file_def
  ops_dir_read_def ops_dir_write_def ops_net_def ops_endpoints_def

lemma op_ids: "map op_id AUTHORITY_OPERATIONS =
    [0x00010001, 0x00010002, 0x00020001, 0x00020002, 0x00030001, 0x00040001, 0x00040002, 0x00050001,
     0x00050002, 0x00060001, 0x00060002, 0x00060003, 0x00070001, 0x00070002, 0x00080001,
     0x00090001, 0x000a0001, 0x000b0001, 0x000c0001, 0x000d0001, 0x000d0002, 0x000e0001,
     0x000e0002, 0x000e0003, 0x000e0004, 0x000e0005, 0x000e0006, 0x000e0007, 0x000e0008,
     0x000e0009, 0x000e000a, 0x000e000b, 0x000e000c, 0x000e000d, 0x000e000e, 0x000e000f,
     0x000e0010, 0x000e0011, 0x000e0012, 0x000f0001, 0x000f0003, 0x000f0004, 0x000f0005,
     0x000f0006, 0x000f0007, 0x000f0008, 0x000f0009, 0x000f000a, 0x00100001, 0x00100002,
     0x00110001, 0x00110002, 0x00120001, 0x00120002, 0x00120003, 0x00120004, 0x00120005,
     0x00120006]"
  by (simp add: op_tables use_op_def attenuate_op_def derive_op_def)

lemma op_ids_distinct: "distinct (map op_id AUTHORITY_OPERATIONS)"
proof -
  have "successively (<) (map op_id AUTHORITY_OPERATIONS)"
    unfolding op_ids by (simp add: successively.simps)
  then have "sorted_wrt (<) (map op_id AUTHORITY_OPERATIONS)"
    by (simp add: successively_conv_sorted_wrt)
  then show ?thesis by (simp add: strict_sorted_iff)
qed

lemma op_names: "map op_name AUTHORITY_OPERATIONS =
    [''console.print'', ''console.read_line'', ''clock.now'', ''clock.now_monotonic'',
     ''rand.rand_u64'', ''env.get_env'', ''env.only'', ''secretstore.get'',
     ''secretstore.require'', ''crypto.sign'', ''crypto.public_key'', ''crypto.reveal'',
     ''exec.exec'', ''exec.only'', ''build_out.write_out'', ''build_read.read_build'',
     ''build_env.get_build_env'', ''build_net.fetch_build'', ''build_exec.run_tool'',
     ''file.read'', ''file.write'', ''dir.only'', ''dir.list'', ''dir.read'', ''dir.exists'',
     ''dir.is_dir'', ''dir.subtree'', ''dir.make_dir'', ''dir.read_file'', ''dir.write_file'',
     ''dir.write'', ''dir.append'', ''dir.create_new'', ''dir.replace'', ''dir.rename'',
     ''dir.read_bytes'', ''dir.write_bytes'', ''dir.append_bytes'', ''dir.set_executable'',
     ''net.connect'', ''net.listen'', ''net.listen_tls'', ''net.only'', ''net.fetch'',
     ''net.deny'', ''net.resolve'', ''net.connect_pinned'', ''net.try_connect_pinned'',
     ''fetch.only'', ''fetch.send_raw'', ''listener.accept'', ''listener.serve_pool'',
     ''socket.send_line'', ''socket.send_bytes'', ''socket.recv_line'', ''socket.recv_all'',
     ''socket.recv_bytes'', ''socket.close'']"
  by (simp add: op_tables use_op_def attenuate_op_def derive_op_def)

lemma op_names_distinct: "distinct (map op_name AUTHORITY_OPERATIONS)"
  unfolding op_names by code_simp

lemma contract_kinds: "map cc_kind CAPABILITY_CONTRACTS = kind_all"
  by code_simp

lemma capability_contract_total: "\<exists>c \<in> set CAPABILITY_CONTRACTS. capability_contract k = Some c \<and> cc_kind c = k"
proof -
  have "k \<in> set (map cc_kind CAPABILITY_CONTRACTS)" by (simp add: contract_kinds)
  then obtain c where c: "c \<in> set CAPABILITY_CONTRACTS" "cc_kind c = k" by auto
  have "distinct (map cc_kind CAPABILITY_CONTRACTS)" by (simp add: contract_kinds kind_all_def)
  from find_key_unique[OF this c(1)] c show ?thesis by (auto simp: capability_contract_def)
qed

lemma contract_rows_ok: "list_all (\<lambda>c. cc_rights c = kind_rights (cc_kind c)
    \<and> cc_id c = kind_stable_id (cc_kind c)
    \<and> (cc_root_origin c = DerivedOnly \<longleftrightarrow> kind_class (cc_kind c) = DerivedClass)
    \<and> (cc_host_receiver c = ErasedGhost \<longleftrightarrow> cc_root_origin c = GhostEntryParameter)
    \<and> (cc_root_origin c = DerivedOnly \<longrightarrow> cc_permitted_derivations c \<noteq> [])) CAPABILITY_CONTRACTS"
  by code_simp

lemma contract_scopes_distinct: "distinct (map cc_scope CAPABILITY_CONTRACTS)"
  by code_simp

section \<open>What an operation may produce\<close>



definition op_derivation :: "AuthorityOperationContract \<Rightarrow> (DerivationKind \<times> CapabilityKind) option" where
  "op_derivation op = (case op_effect op of Derive d \<Rightarrow> Some (ad_kind d, ad_result_kind d) | _ \<Rightarrow> None)"


lemma op_requirements_ok: "list_all (\<lambda>op.
    rights_are_well_formed (op_receiver op) (op_required_receiver_rights op)
    \<and> list_all (\<lambda>a. ar_operand_index a \<noteq> 0 \<and> rights_are_well_formed (ar_kind a) (ar_rights a))
        (op_additional_authority_operands op)) AUTHORITY_OPERATIONS"
  by code_simp

lemma op_targets_ok: "list_all (\<lambda>op.
    list_all (\<lambda>t. target_domain_contract t \<noteq> None) (op_targets op)
    \<and> INTERPRETER_ORACLE \<in> set (op_targets op)
    \<and> (NATIVE_BUILD_WORKER \<in> set (op_targets op) \<longleftrightarrow> kind_class (op_receiver op) = BuildClass)
    \<and> (NATIVE_RUNTIME \<in> set (op_targets op) \<longleftrightarrow> kind_class (op_receiver op) \<noteq> BuildClass))
   AUTHORITY_OPERATIONS"
  by code_simp

text \<open>Every kind's permitted derivations, as pairs, are the derivations the operations perform.\<close>

lemma derivation_tables_agree:
  "set (List.map_filter op_derivation AUTHORITY_OPERATIONS) =
     set (concat (map (\<lambda>c. map (\<lambda>d. (d, cc_kind c)) (cc_permitted_derivations c)) CAPABILITY_CONTRACTS))"
  by code_simp

lemma derivations_distinct: "distinct (map fst (List.map_filter op_derivation AUTHORITY_OPERATIONS))"
  by code_simp

lemma count_list_distinct_le: "distinct xs \<Longrightarrow> count_list xs x \<le> 1"
  by (induction xs) (auto simp: count_list_0_iff)

section \<open>Properties\<close>



text \<open>
  the derivations of the operation table and those the capability contracts permit are the same
  relation: an operation derives a kind only by a derivation that kind's contract permits, every
  permitted derivation is performed by an operation, and each by exactly one.
\<close>

theorem derivations_match_contracts:
  "((\<exists>op \<in> set AUTHORITY_OPERATIONS. op_derivation op = Some (d, k))
     \<longleftrightarrow> (\<exists>c. capability_contract k = Some c \<and> d \<in> set (cc_permitted_derivations c)))
   \<and> count_list (map fst (List.map_filter op_derivation AUTHORITY_OPERATIONS)) d \<le> 1"
proof -
  have "(\<exists>op \<in> set AUTHORITY_OPERATIONS. op_derivation op = Some (d, k)) \<longleftrightarrow>
      (d, k) \<in> set (List.map_filter op_derivation AUTHORITY_OPERATIONS)"
    by (force simp: List.map_filter_def)
  also have "\<dots> \<longleftrightarrow> (\<exists>c \<in> set CAPABILITY_CONTRACTS. cc_kind c = k \<and> d \<in> set (cc_permitted_derivations c))"
    unfolding derivation_tables_agree by auto
  also have "\<dots> \<longleftrightarrow> (\<exists>c. capability_contract k = Some c \<and> d \<in> set (cc_permitted_derivations c))"
  proof -
    have d: "distinct (map cc_kind CAPABILITY_CONTRACTS)" by (simp add: contract_kinds kind_all_def)
    show ?thesis
      using find_key_unique[OF d] find_in_set unfolding capability_contract_def by fastforce
  qed
  finally show ?thesis using count_list_distinct_le[OF derivations_distinct] by blast
qed

text \<open>
  every operation can be performed by a holder of its receiver's full rights and asks only for
  rights that exist: the required rights are a well-formed slice of the receiver's lattice that the
  full lattice admits, and each further authority operand is a non-receiver argument with a
  well-formed requirement.
\<close>

theorem operation_requirements_satisfiable:
  assumes "op \<in> set AUTHORITY_OPERATIONS"
  shows "rights_admit (op_receiver op) (kind_rights (op_receiver op)) (op_required_receiver_rights op)
    \<and> (\<forall>a \<in> set (op_additional_authority_operands op). ar_operand_index a \<noteq> 0
         \<and> rights_admit (ar_kind a) (kind_rights (ar_kind a)) (ar_rights a))"
proof -
  have full: "rights_are_well_formed k (kind_rights k)" for k
    by (cases k) (simp_all add: rights_are_well_formed_iff rights_consts reveal_closed_def)
  show ?thesis
    using op_requirements_ok assms full by (auto simp: list_all_iff rights_admit_iff rights_are_well_formed_iff)
qed

theorem operation_requirements_satisfiable_witness:
  "rights_admit Net (kind_rights Net) CONNECT_ONLY"
proof -
  let ?op = "use_op 0x000f0008 ''net.resolve'' Net CONNECT_ONLY NO_AUTHORITY_OPERANDS PendingList NATIVE"
  have m: "?op \<in> set AUTHORITY_OPERATIONS" by (simp add: AUTHORITY_OPERATIONS_def ops_net_def)
  show ?thesis using operation_requirements_satisfiable[OF m] by (simp add: use_op_def)
qed

text \<open>
  the numeric identity and the diagnostic name of an operation each determine it: a lookup
  returns an operation exactly when it is the row of the table with that identity or that name.
\<close>

theorem authority_operation_lookup:
  "(authority_operation w = Some op \<longleftrightarrow> op \<in> set AUTHORITY_OPERATIONS \<and> op_id op = w)
   \<and> (authority_operation_named name = Some op \<longleftrightarrow> op \<in> set AUTHORITY_OPERATIONS \<and> op_name op = name)"
  using find_key_unique[OF op_ids_distinct, of op] find_key_unique[OF op_names_distinct, of op]
  unfolding authority_operation_def authority_operation_named_def by (auto dest: find_in_set)

text \<open>
  the contract lookup never panics, and a capability kind may enter as a root exactly when it
  is not a derived kind; a derived kind has at least one derivation that produces it.
\<close>

theorem capability_contract_roots:
  "\<exists>c. capability_contract k = Some c \<and> cc_kind c = k \<and> cc_rights c = kind_rights k
     \<and> capability_kind_from_id (cc_id c) = Some k
     \<and> root_origin_permits_entry k = Some (kind_class k \<noteq> DerivedClass)
     \<and> (kind_class k = HostClass \<or> kind_class k = BuildClass \<or> 0 < length (cc_permitted_derivations c))"
proof -
  obtain c where c: "c \<in> set CAPABILITY_CONTRACTS" "capability_contract k = Some c" "cc_kind c = k"
    using capability_contract_total by blast
  with contract_rows_ok show ?thesis
    by (cases "kind_class k") (auto simp: list_all_iff root_origin_permits_entry_def kind_stable_id_roundtrip)
qed

text \<open>
  every operation runs on a known target set that always includes the interpreter oracle, the
  one target that is not shippable; build capabilities are usable on the build worker and nothing
  else ships them, every other capability is usable on the native runtime and never on the build
  worker.
\<close>

theorem operation_targets:
  assumes "op \<in> set AUTHORITY_OPERATIONS"
  shows "(\<forall>t \<in> set (op_targets op). \<exists>c. target_domain_contract t = Some c \<and> td_id c = t
        \<and> (td_shippable c \<longleftrightarrow> t \<noteq> INTERPRETER_ORACLE))
    \<and> INTERPRETER_ORACLE \<in> set (op_targets op)
    \<and> (NATIVE_BUILD_WORKER \<in> set (op_targets op) \<longleftrightarrow> kind_class (op_receiver op) = BuildClass)
    \<and> (NATIVE_RUNTIME \<in> set (op_targets op) \<longleftrightarrow> kind_class (op_receiver op) \<noteq> BuildClass)"
proof -
  have "\<exists>c. target_domain_contract t = Some c \<and> td_id c = t \<and> (td_shippable c \<longleftrightarrow> t \<noteq> INTERPRETER_ORACLE)"
    if "target_domain_contract t \<noteq> None" for t
  proof -
    from that obtain c where c: "target_domain_contract t = Some c" by auto
    then have "c \<in> set TARGET_DOMAIN_CONTRACTS" "td_id c = t"
      unfolding target_domain_contract_def by (auto dest: find_in_set)
    then have "td_shippable c \<longleftrightarrow> t \<noteq> INTERPRETER_ORACLE"
      by (auto simp: TARGET_DOMAIN_CONTRACTS_def target_ids)
    with c \<open>td_id c = t\<close> show ?thesis by blast
  qed
  then show ?thesis using op_targets_ok assms by (simp add: list_all_iff)
qed

theorem operation_targets_witness: "INTERPRETER_ORACLE \<in> set BUILD"
proof -
  let ?op = "use_op 0x00080001 ''build_out.write_out'' BuildOut NO_RIGHTS NO_AUTHORITY_OPERANDS Direct BUILD"
  have m: "?op \<in> set AUTHORITY_OPERATIONS" by (simp add: AUTHORITY_OPERATIONS_def ops_build_file_def)
  show ?thesis using operation_targets[OF m] by (simp add: use_op_def)
qed

text \<open>
  The size of the surface by receiver: 53 capability methods, two secret-store operations and three
  secret operations.
\<close>

theorem authority_surface_size:
  "length AUTHORITY_OPERATIONS = 58
   \<and> length (filter (\<lambda>op. op_receiver op = SecretStore) AUTHORITY_OPERATIONS) = 2
   \<and> length (filter (\<lambda>op. op_receiver op = Secret) AUTHORITY_OPERATIONS) = 3"
  by code_simp

end
