(* ===== verification/Wire_Format.thy ===== *)
theory Wire_Format
  imports Witchy_Prelude
begin

text \<open>
  The byte layer of the compiler-worker protocol (crates/witchy-worker-protocol/src/error.rs and
  io.rs): little-endian integers, length-prefixed fields and the frame that wraps a message.

  The reader \<open>Input\<close> holds a byte slice and a cursor, and every operation of it depends on the
  unread suffix only, so its state is that suffix and a reader is a function from a suffix to a value
  and the next suffix. \<open>usize\<close> is 64 bits wide; slice lengths are natural numbers. The locale
  \<open>wire_codec\<close> states what a writer and its reader owe each other; every field of the protocol is an
  interpretation of it.
\<close>

section \<open>Errors\<close>

datatype ProtocolError =
    BudgetExceeded string
  | DigestMismatch string
  | EmptyField string
  | InvalidDiagnostic
  | InvalidLimit string
  | InvalidMagic
  | InvalidResponseShape
  | InvalidUtf8
  | LengthOverflow string
  | NonCanonical
  | NonZeroReserved
  | RequestMismatch
  | TrailingInput
  | Truncated
  | UnknownMessageKind "8 word"
  | UnknownResponseStatus "8 word"
  | UnknownTarget "16 word"
  | UnsupportedAdmissionSchema "16 word"
  | UnsupportedProtocolSchema "16 word"

fun protocol_error_display :: "ProtocolError \<Rightarrow> string" where
  "protocol_error_display (BudgetExceeded field) = ''protocol budget exceeded: '' @ field"
| "protocol_error_display (DigestMismatch field) = ''digest mismatch: '' @ field"
| "protocol_error_display (EmptyField field) = ''required field is empty: '' @ field"
| "protocol_error_display InvalidDiagnostic = ''diagnostic contains forbidden control text''"
| "protocol_error_display (InvalidLimit field) = ''invalid worker limit: '' @ field"
| "protocol_error_display InvalidMagic = ''invalid worker protocol magic''"
| "protocol_error_display InvalidResponseShape = ''invalid worker response shape''"
| "protocol_error_display InvalidUtf8 = ''diagnostic is not valid UTF-8''"
| "protocol_error_display (LengthOverflow field) = ''field does not fit the wire length: '' @ field"
| "protocol_error_display NonCanonical = ''worker protocol frame is not canonical''"
| "protocol_error_display NonZeroReserved = ''reserved worker protocol field is nonzero''"
| "protocol_error_display RequestMismatch = ''worker response belongs to a different request''"
| "protocol_error_display TrailingInput = ''worker protocol frame has trailing input''"
| "protocol_error_display Truncated = ''worker protocol frame is truncated''"
| "protocol_error_display (UnknownMessageKind kind) =
     ''unknown worker message kind '' @ show_nat (unat kind)"
| "protocol_error_display (UnknownResponseStatus status) =
     ''unknown worker response status '' @ show_nat (unat status)"
| "protocol_error_display (UnknownTarget target) = ''unknown worker target '' @ show_nat (unat target)"
| "protocol_error_display (UnsupportedAdmissionSchema schema) =
     ''unsupported admission schema '' @ show_nat (unat schema)"
| "protocol_error_display (UnsupportedProtocolSchema schema) =
     ''unsupported worker protocol schema '' @ show_nat (unat schema)"

section \<open>Little-endian integers\<close>

type_synonym byte = "8 word"
type_synonym bytes = "byte list"

primrec le_bytes :: "nat \<Rightarrow> nat \<Rightarrow> bytes" where
  "le_bytes 0 n = []"
| "le_bytes (Suc k) n = word_of_nat (n mod 256) # le_bytes k (n div 256)"

primrec le_value :: "bytes \<Rightarrow> nat" where
  "le_value [] = 0"
| "le_value (b # bs) = unat b + 256 * le_value bs"

lemma length_le_bytes [simp]: "length (le_bytes k n) = k"
  by (induction k arbitrary: n) simp_all

lemma unat_byte: "n < 256 \<Longrightarrow> unat (word_of_nat n :: byte) = n"
  by (simp add: unat_of_nat)

lemma unat_byte_less: "unat (b :: byte) < 256"
  using unat_less_pow[of b] by simp

lemma le_value_bytes: "n < 256 ^ k \<Longrightarrow> le_value (le_bytes k n) = n"
proof (induction k arbitrary: n)
  case (Suc k)
  from Suc.prems have "n div 256 < 256 ^ k" by (simp add: less_mult_imp_div_less mult.commute)
  with Suc.IH show ?case by (simp add: unat_byte)
qed simp

lemma le_value_less: "le_value bs < 256 ^ length bs"
proof (induction bs)
  case (Cons b bs)
  have "unat b + 256 * le_value bs < 256 + 256 * le_value bs" using unat_byte_less[of b] by simp
  also have "\<dots> \<le> 256 * 256 ^ length bs" using Cons.IH by simp
  finally show ?case by simp
qed simp

lemma le_bytes_value: "le_bytes (length bs) (le_value bs) = bs"
proof (induction bs)
  case (Cons b bs)
  have "(unat b + 256 * le_value bs) mod 256 = unat b" "(unat b + 256 * le_value bs) div 256 = le_value bs"
    using unat_byte_less[of b] by simp_all
  with Cons.IH show ?case by simp
qed simp

section \<open>The reader\<close>

type_synonym 'a reader = "bytes \<Rightarrow> (ProtocolError, 'a \<times> bytes) result"

definition FRAME_HEADER_BYTES :: nat where
  "FRAME_HEADER_BYTES = 16"

definition in_remaining :: "bytes \<Rightarrow> nat" where
  "in_remaining input = length input"

definition in_finish :: "bytes \<Rightarrow> (ProtocolError, unit) result" where
  "in_finish input = (if input = [] then Ok () else Err TrailingInput)"

definition in_take :: "nat \<Rightarrow> bytes reader" where
  "in_take n input = (if n \<le> length input then Ok (take n input, drop n input) else Err Truncated)"

definition in_u8 :: "byte reader" where
  "in_u8 input = rbind (in_take 1 input) (\<lambda>(b, rest). Ok (hd b, rest))"

definition in_u16 :: "16 word reader" where
  "in_u16 input = rbind (in_take 2 input) (\<lambda>(b, rest). Ok (word_of_nat (le_value b), rest))"

definition in_u32 :: "32 word reader" where
  "in_u32 input = rbind (in_take 4 input) (\<lambda>(b, rest). Ok (word_of_nat (le_value b), rest))"

definition in_u64 :: "64 word reader" where
  "in_u64 input = rbind (in_take 8 input) (\<lambda>(b, rest). Ok (word_of_nat (le_value b), rest))"

definition in_array_32 :: "bytes reader" where
  "in_array_32 input = in_take 32 input"

definition in_bytes :: "nat \<Rightarrow> string \<Rightarrow> bytes reader" where
  "in_bytes maximum field input =
     rbind (in_u32 input) (\<lambda>(len, rest).
       if unat len > maximum then Err (BudgetExceeded field) else in_take (unat len) rest)"

section \<open>The writers\<close>

definition put_u8 :: "byte \<Rightarrow> bytes" where "put_u8 v = [v]"

definition put_u16 :: "16 word \<Rightarrow> bytes" where "put_u16 v = le_bytes 2 (unat v)"

definition put_u32 :: "32 word \<Rightarrow> bytes" where "put_u32 v = le_bytes 4 (unat v)"

definition put_u64 :: "64 word \<Rightarrow> bytes" where "put_u64 v = le_bytes 8 (unat v)"

text \<open>\<open>u32::try_from\<close> of a length.\<close>

definition u32_try_from :: "nat \<Rightarrow> string \<Rightarrow> (ProtocolError, 32 word) result" where
  "u32_try_from n field = (if n < 2 ^ 32 then Ok (word_of_nat n) else Err (LengthOverflow field))"

definition put_bytes :: "bytes \<Rightarrow> string \<Rightarrow> (ProtocolError, bytes) result" where
  "put_bytes v field = rbind (u32_try_from (length v) field) (\<lambda>len. Ok (put_u32 len @ v))"

definition frame :: "bytes \<Rightarrow> 16 word \<Rightarrow> byte \<Rightarrow> bytes \<Rightarrow> (ProtocolError, bytes) result" where
  "frame magic schema kind payload =
     rbind (u32_try_from (length payload) ''frame payload'') (\<lambda>len.
       Ok (magic @ put_u16 schema @ put_u8 kind @ put_u8 0 @ put_u32 len @ payload))"

definition payload :: "bytes \<Rightarrow> nat \<Rightarrow> bytes \<Rightarrow> 16 word \<Rightarrow> byte \<Rightarrow> (ProtocolError, bytes) result" where
  "payload bs maximum magic schema kind =
     (if length bs > maximum then Err (BudgetExceeded ''frame bytes'')
      else rbind (in_take (length magic) bs) (\<lambda>(found_magic, input).
        if found_magic \<noteq> magic then Err InvalidMagic
        else rbind (in_u16 input) (\<lambda>(found_schema, input).
        if found_schema \<noteq> schema then Err (UnsupportedProtocolSchema found_schema)
        else rbind (in_u8 input) (\<lambda>(found_kind, input).
        if found_kind \<noteq> kind then Err (UnknownMessageKind found_kind)
        else rbind (in_u8 input) (\<lambda>(reserved, input).
        if reserved \<noteq> 0 then Err NonZeroReserved
        else rbind (in_u32 input) (\<lambda>(len, input).
        if unat len > in_remaining input then Err Truncated
        else if unat len < in_remaining input then Err TrailingInput
        else rbind (in_take (unat len) input) (\<lambda>(body, _). Ok body)))))))"

section \<open>The contract of a writer and its reader\<close>

text \<open>
  Reading what was written returns the value and leaves the rest untouched; and a value that was
  read was written there, in the only way. Unambiguity of concatenated fields follows.
\<close>

locale wire_codec =
  fixes ok :: "'a \<Rightarrow> bool"
    and put :: "'a \<Rightarrow> bytes"
    and get :: "'a reader"
  assumes get_put: "ok a \<Longrightarrow> get (put a @ rest) = Inr (a, rest)"
    and get_sound: "get bs = Inr (a, rest) \<Longrightarrow> ok a \<and> bs = put a @ rest"
begin

lemma get_iff: "get bs = Inr (a, rest) \<longleftrightarrow> ok a \<and> bs = put a @ rest"
  by (rule iffI, erule get_sound, elim conjE, simp only: get_put)

lemma get_put_nil: "ok a \<Longrightarrow> get (put a) = Inr (a, [])"
  using get_put[of a "[]"] by simp

lemma put_prefix_free: "ok a \<Longrightarrow> ok b \<Longrightarrow> put a @ r = put b @ s \<Longrightarrow> a = b \<and> r = s"
  by (metis get_put Inr_inject prod.inject)

lemma put_inj: "ok a \<Longrightarrow> ok b \<Longrightarrow> put a = put b \<longleftrightarrow> a = b"
  using put_prefix_free[of a b "[]" "[]"] by auto

end

named_theorems wire_simps \<open>reading back what a writer wrote\<close>

lemma in_take_iff: "in_take n bs = Inr (a, rest) \<longleftrightarrow> length a = n \<and> bs = a @ rest"
  by (auto simp: in_take_def split: if_splits)

lemma in_take_append [wire_simps]: "length a = n \<Longrightarrow> in_take n (a @ rest) = Inr (a, rest)"
  by (simp add: in_take_iff)

text \<open>A word and its bytes, for any width that is a whole number of bytes.\<close>

lemma word_le_bytes:
  assumes "LENGTH('w) = 8 * k"
  shows "word_of_nat (le_value (le_bytes k (unat w))) = (w :: 'w::len word)"
    and "length bs = k \<Longrightarrow> le_bytes k (unat (word_of_nat (le_value bs) :: 'w word)) = bs"
proof -
  have pow: "(256::nat) ^ k = 2 ^ LENGTH('w)" by (simp add: assms power_mult)
  show "word_of_nat (le_value (le_bytes k (unat w))) = w"
    using unat_less_pow[of w] by (simp add: le_value_bytes pow)
  assume len: "length bs = k"
  then have "le_value bs < 2 ^ LENGTH('w)" using le_value_less[of bs] by (simp add: pow)
  then have "unat (word_of_nat (le_value bs) :: 'w word) = le_value bs" by (simp add: unat_of_nat)
  then show "le_bytes k (unat (word_of_nat (le_value bs) :: 'w word)) = bs"
    using le_bytes_value[of bs] len by simp
qed

interpretation u8_codec: wire_codec "\<lambda>_. True" put_u8 in_u8
proof unfold_locales
  show "in_u8 bs = Inr (a, rest) \<Longrightarrow> True \<and> bs = put_u8 a @ rest" for bs a rest
    by (auto simp: in_u8_def put_u8_def result_simps in_take_iff length_Suc_conv)
qed (simp add: in_u8_def put_u8_def in_take_def)

interpretation u16_codec: wire_codec "\<lambda>_. True" put_u16 in_u16
proof unfold_locales
  show "in_u16 (put_u16 a @ rest) = Inr (a, rest)" for a rest
    by (simp add: in_u16_def put_u16_def wire_simps word_le_bytes(1)[where k = 2])
  show "in_u16 bs = Inr (a, rest) \<Longrightarrow> True \<and> bs = put_u16 a @ rest" for bs a rest
    by (auto simp: in_u16_def put_u16_def result_simps in_take_iff word_le_bytes(2)[where k = 2])
qed

interpretation u32_codec: wire_codec "\<lambda>_. True" put_u32 in_u32
proof unfold_locales
  show "in_u32 (put_u32 a @ rest) = Inr (a, rest)" for a rest
    by (simp add: in_u32_def put_u32_def wire_simps word_le_bytes(1)[where k = 4])
  show "in_u32 bs = Inr (a, rest) \<Longrightarrow> True \<and> bs = put_u32 a @ rest" for bs a rest
    by (auto simp: in_u32_def put_u32_def result_simps in_take_iff word_le_bytes(2)[where k = 4])
qed

interpretation u64_codec: wire_codec "\<lambda>_. True" put_u64 in_u64
proof unfold_locales
  show "in_u64 (put_u64 a @ rest) = Inr (a, rest)" for a rest
    by (simp add: in_u64_def put_u64_def wire_simps word_le_bytes(1)[where k = 8])
  show "in_u64 bs = Inr (a, rest) \<Longrightarrow> True \<and> bs = put_u64 a @ rest" for bs a rest
    by (auto simp: in_u64_def put_u64_def result_simps in_take_iff word_le_bytes(2)[where k = 8])
qed

interpretation array_codec: wire_codec "\<lambda>a. length a = 32" "\<lambda>a. a" in_array_32
  by unfold_locales (simp_all add: in_array_32_def in_take_iff)

lemma put_bytes_Ok: "put_bytes v field = Inr bs \<longleftrightarrow>
    length v < 2 ^ 32 \<and> bs = put_u32 (word_of_nat (length v)) @ v"
  by (auto simp: put_bytes_def u32_try_from_def)

lemma unat_len32: "n < 2 ^ 32 \<Longrightarrow> unat (word_of_nat n :: 32 word) = n"
  by (simp add: unat_of_nat)

interpretation bytes_codec: wire_codec "\<lambda>v. length v \<le> maximum \<and> length v < 2 ^ 32"
    "\<lambda>v. put_u32 (word_of_nat (length v)) @ v" "in_bytes maximum field" for maximum field
proof unfold_locales
  show "length a \<le> maximum \<and> length a < 2 ^ 32 \<Longrightarrow>
      in_bytes maximum field ((put_u32 (word_of_nat (length a)) @ a) @ rest) = Inr (a, rest)" for a rest
    by (simp add: in_bytes_def u32_codec.get_put wire_simps unat_len32)
  fix bs a rest
  assume "in_bytes maximum field bs = Inr (a, rest)"
  then obtain len r where r: "in_u32 bs = Inr (len, r)" "unat len \<le> maximum"
    "in_take (unat len) r = Inr (a, rest)"
    by (auto simp: in_bytes_def result_simps split: if_splits)
  then have l: "length a = unat len" "r = a @ rest" "bs = put_u32 len @ r"
    by (simp_all add: in_take_iff u32_codec.get_iff)
  then have "unat len < 2 ^ 32" using unat_less_pow[of len] by simp
  with l r show "(length a \<le> maximum \<and> length a < 2 ^ 32) \<and>
      bs = (put_u32 (word_of_nat (length a)) @ a) @ rest" by simp
qed

lemmas codec_gets = u8_codec.get_iff u16_codec.get_iff u32_codec.get_iff u64_codec.get_iff
  array_codec.get_iff bytes_codec.get_iff

lemmas codec_puts [wire_simps] = u8_codec.get_put[OF TrueI] u16_codec.get_put[OF TrueI]
  u32_codec.get_put[OF TrueI] u64_codec.get_put[OF TrueI] array_codec.get_put

lemma length_puts [simp]: "length (put_u8 a) = 1" "length (put_u16 b) = 2" "length (put_u32 c) = 4"
  "length (put_u64 d) = 8"
  by (simp_all add: put_u8_def put_u16_def put_u32_def put_u64_def)

section \<open>Frames\<close>

lemma frame_Ok: "frame magic schema kind body = Inr bs \<longleftrightarrow> length body < 2 ^ 32 \<and>
    bs = magic @ put_u16 schema @ put_u8 kind @ put_u8 0 @ put_u32 (word_of_nat (length body)) @ body"
  by (auto simp: frame_def u32_try_from_def)

lemma payload_Ok: "payload bs maximum magic schema kind = Inr body \<longleftrightarrow>
    length bs \<le> maximum \<and> frame magic schema kind body = Inr bs"
proof
  assume "payload bs maximum magic schema kind = Inr body"
  then obtain fm r1 fs r2 fk r3 rv r4 len r5 r6 where le: "\<not> length bs > maximum"
    and r: "in_take (length magic) bs = Inr (fm, r1)" "\<not> fm \<noteq> magic"
    "in_u16 r1 = Inr (fs, r2)" "\<not> fs \<noteq> schema" "in_u8 r2 = Inr (fk, r3)" "\<not> fk \<noteq> kind"
    "in_u8 r3 = Inr (rv, r4)" "\<not> rv \<noteq> 0" "in_u32 r4 = Inr (len, r5)"
    "\<not> unat len > in_remaining r5" "\<not> unat len < in_remaining r5"
    "in_take (unat len) r5 = Inr (body, r6)"
    unfolding payload_def by (elim if_Err_OkE rbind_pair_OkE) simp
  from r(1,3,5,7,9,12) have e: "bs = fm @ r1" "r1 = put_u16 fs @ r2" "r2 = put_u8 fk @ r3"
    "r3 = put_u8 rv @ r4" "r4 = put_u32 len @ r5" "r5 = body @ r6" and lb: "length body = unat len"
    by (simp_all only: codec_gets in_take_iff simp_thms)
  from r(10,11) e(6) lb have r6: "r6 = []" by (simp add: in_remaining_def)
  have len: "len = word_of_nat (length body)" by (simp add: lb)
  have "bs = magic @ put_u16 schema @ put_u8 kind @ put_u8 0 @ put_u32 (word_of_nat (length body)) @ body"
    using r(2,4,6,8) unfolding e r6 len[symmetric] by simp
  then show "length bs \<le> maximum \<and> frame magic schema kind body = Inr bs"
    using le unat_less_pow[of len] lb by (simp only: frame_Ok not_less) simp
next
  assume "length bs \<le> maximum \<and> frame magic schema kind body = Inr bs"
  then show "payload bs maximum magic schema kind = Inr body"
    by (auto simp: payload_def frame_Ok wire_simps in_remaining_def unat_len32 in_take_def)
qed

end
