(* ===== verification/Worker_Limits.thy ===== *)
theory Worker_Limits
  imports Wire_Format
begin

text \<open>
  The resource ceilings of a compiler worker (crates/witchy-worker-protocol/src/limits.rs): their
  validation, and their fixed-width encoding as an interpretation of the wire contract.
\<close>

definition MAX_SOURCE_BUNDLE_BYTES :: "64 word" where "MAX_SOURCE_BUNDLE_BYTES = 64 * 1024 * 1024"

definition MAX_RESPONSE_BYTES :: "64 word" where "MAX_RESPONSE_BYTES = 128 * 1024 * 1024"

definition MAX_DIAGNOSTIC_BYTES :: "32 word" where "MAX_DIAGNOSTIC_BYTES = 1024 * 1024"

definition MAX_CANDIDATE_WIR_BYTES :: "32 word" where "MAX_CANDIDATE_WIR_BYTES = 64 * 1024 * 1024"

definition MAX_AUTHORITY_WIR_BYTES :: "32 word" where "MAX_AUTHORITY_WIR_BYTES = 64 * 1024 * 1024"

definition MAX_FINAL_BYTE_PLAN_BYTES :: "32 word" where "MAX_FINAL_BYTE_PLAN_BYTES = 64 * 1024 * 1024"

definition MAX_CPU_TIME_MS :: "64 word" where "MAX_CPU_TIME_MS = 30 * 60 * 1000"

definition MAX_WALL_TIME_MS :: "64 word" where "MAX_WALL_TIME_MS = 30 * 60 * 1000"

definition MAX_MEMORY_BYTES :: "64 word" where "MAX_MEMORY_BYTES = 32 * 1024 * 1024 * 1024"

definition MAX_SOURCE_FILES :: "32 word" where "MAX_SOURCE_FILES = 100000"

definition MAX_RECURSION_DEPTH :: "32 word" where "MAX_RECURSION_DEPTH = 4096"

definition MAX_PARSER_NODES :: "64 word" where "MAX_PARSER_NODES = 100000000"

definition MAX_TYPE_EXPANSIONS :: "64 word" where "MAX_TYPE_EXPANSIONS = 100000000"

definition MAX_SPECIALIZATIONS :: "64 word" where "MAX_SPECIALIZATIONS = 10000000"

lemmas limit_consts = MAX_SOURCE_BUNDLE_BYTES_def MAX_RESPONSE_BYTES_def MAX_DIAGNOSTIC_BYTES_def MAX_CANDIDATE_WIR_BYTES_def MAX_AUTHORITY_WIR_BYTES_def MAX_FINAL_BYTE_PLAN_BYTES_def MAX_CPU_TIME_MS_def
  MAX_WALL_TIME_MS_def MAX_MEMORY_BYTES_def MAX_SOURCE_FILES_def MAX_RECURSION_DEPTH_def MAX_PARSER_NODES_def MAX_TYPE_EXPANSIONS_def MAX_SPECIALIZATIONS_def

record WorkerLimits =
  cpu_time_ms :: "64 word"
  wall_time_ms :: "64 word"
  memory_bytes :: "64 word"
  max_source_bytes :: "64 word"
  max_response_bytes :: "64 word"
  max_source_files :: "32 word"
  max_recursion_depth :: "32 word"
  max_parser_nodes :: "64 word"
  max_type_expansions :: "64 word"
  max_specializations :: "64 word"
  max_diagnostic_bytes :: "32 word"
  max_candidate_wir_bytes :: "32 word"
  max_authority_wir_bytes :: "32 word"
  max_final_byte_plan_bytes :: "32 word"

definition bounded_u32 :: "32 word \<Rightarrow> 32 word \<Rightarrow> string \<Rightarrow> (ProtocolError, unit) result" where
  "bounded_u32 v maximum field = (if v = 0 \<or> v > maximum then Err (InvalidLimit field) else Ok ())"

definition bounded_u64 :: "64 word \<Rightarrow> 64 word \<Rightarrow> string \<Rightarrow> (ProtocolError, unit) result" where
  "bounded_u64 v maximum field = (if v = 0 \<or> v > maximum then Err (InvalidLimit field) else Ok ())"

definition limits_validate :: "WorkerLimits \<Rightarrow> (ProtocolError, WorkerLimits) result" where
  "limits_validate l =
    rbind (bounded_u64 (cpu_time_ms l) MAX_CPU_TIME_MS ''cpu time'') (\<lambda>_.
    rbind (bounded_u64 (wall_time_ms l) MAX_WALL_TIME_MS ''wall time'') (\<lambda>_.
    rbind (bounded_u64 (memory_bytes l) MAX_MEMORY_BYTES ''memory bytes'') (\<lambda>_.
    rbind (bounded_u64 (max_source_bytes l) MAX_SOURCE_BUNDLE_BYTES ''source bytes'') (\<lambda>_.
    rbind (bounded_u64 (max_response_bytes l) MAX_RESPONSE_BYTES ''response bytes'') (\<lambda>_.
    rbind (bounded_u32 (max_source_files l) MAX_SOURCE_FILES ''source files'') (\<lambda>_.
    rbind (bounded_u32 (max_recursion_depth l) MAX_RECURSION_DEPTH ''recursion depth'') (\<lambda>_.
    rbind (bounded_u64 (max_parser_nodes l) MAX_PARSER_NODES ''parser nodes'') (\<lambda>_.
    rbind (bounded_u64 (max_type_expansions l) MAX_TYPE_EXPANSIONS ''type expansions'') (\<lambda>_.
    rbind (bounded_u64 (max_specializations l) MAX_SPECIALIZATIONS ''specializations'') (\<lambda>_.
    rbind (bounded_u32 (max_diagnostic_bytes l) MAX_DIAGNOSTIC_BYTES ''diagnostic bytes'') (\<lambda>_.
    rbind (bounded_u32 (max_candidate_wir_bytes l) MAX_CANDIDATE_WIR_BYTES ''candidate WIR bytes'') (\<lambda>_.
    rbind (bounded_u32 (max_authority_wir_bytes l) MAX_AUTHORITY_WIR_BYTES ''AuthorityWIR bytes'') (\<lambda>_.
    rbind (bounded_u32 (max_final_byte_plan_bytes l) MAX_FINAL_BYTE_PLAN_BYTES ''final-byte plan bytes'') (\<lambda>_.
    if ucast (max_diagnostic_bytes l) > max_response_bytes l
       \<or> ucast (max_candidate_wir_bytes l) > max_response_bytes l
       \<or> ucast (max_authority_wir_bytes l) > max_response_bytes l
       \<or> ucast (max_final_byte_plan_bytes l) > max_response_bytes l
    then Err (InvalidLimit ''per-field output exceeds aggregate response bytes'')
    else Ok l))))))))))))))"

definition limits_encode :: "WorkerLimits \<Rightarrow> bytes" where
  "limits_encode l =
    put_u64 (cpu_time_ms l) @
    put_u64 (wall_time_ms l) @
    put_u64 (memory_bytes l) @
    put_u64 (max_source_bytes l) @
    put_u64 (max_response_bytes l) @
    put_u32 (max_source_files l) @
    put_u32 (max_recursion_depth l) @
    put_u64 (max_parser_nodes l) @
    put_u64 (max_type_expansions l) @
    put_u64 (max_specializations l) @
    put_u32 (max_diagnostic_bytes l) @
    put_u32 (max_candidate_wir_bytes l) @
    put_u32 (max_authority_wir_bytes l) @
    put_u32 (max_final_byte_plan_bytes l)"

definition limits_decode :: "WorkerLimits reader" where
  "limits_decode input =
    rbind (in_u64 input) (\<lambda>(cpu_time_ms, input).
    rbind (in_u64 input) (\<lambda>(wall_time_ms, input).
    rbind (in_u64 input) (\<lambda>(memory_bytes, input).
    rbind (in_u64 input) (\<lambda>(max_source_bytes, input).
    rbind (in_u64 input) (\<lambda>(max_response_bytes, input).
    rbind (in_u32 input) (\<lambda>(max_source_files, input).
    rbind (in_u32 input) (\<lambda>(max_recursion_depth, input).
    rbind (in_u64 input) (\<lambda>(max_parser_nodes, input).
    rbind (in_u64 input) (\<lambda>(max_type_expansions, input).
    rbind (in_u64 input) (\<lambda>(max_specializations, input).
    rbind (in_u32 input) (\<lambda>(max_diagnostic_bytes, input).
    rbind (in_u32 input) (\<lambda>(max_candidate_wir_bytes, input).
    rbind (in_u32 input) (\<lambda>(max_authority_wir_bytes, input).
    rbind (in_u32 input) (\<lambda>(max_final_byte_plan_bytes, input).
    rbind (limits_validate \<lparr>cpu_time_ms = cpu_time_ms,
      wall_time_ms = wall_time_ms,
      memory_bytes = memory_bytes,
      max_source_bytes = max_source_bytes,
      max_response_bytes = max_response_bytes,
      max_source_files = max_source_files,
      max_recursion_depth = max_recursion_depth,
      max_parser_nodes = max_parser_nodes,
      max_type_expansions = max_type_expansions,
      max_specializations = max_specializations,
      max_diagnostic_bytes = max_diagnostic_bytes,
      max_candidate_wir_bytes = max_candidate_wir_bytes,
      max_authority_wir_bytes = max_authority_wir_bytes,
      max_final_byte_plan_bytes = max_final_byte_plan_bytes\<rparr>) (\<lambda>l. Ok (l, input))))))))))))))))"

definition limits_ok :: "WorkerLimits \<Rightarrow> bool" where
  "limits_ok l \<longleftrightarrow> limits_validate l = Ok l"

lemma bounded_u32_Ok: "bounded_u32 v m f = Inr u \<longleftrightarrow> 0 < v \<and> v \<le> m"
  by (auto simp: bounded_u32_def word_gt_0)

lemma bounded_u64_Ok: "bounded_u64 v m f = Inr u \<longleftrightarrow> 0 < v \<and> v \<le> m"
  by (auto simp: bounded_u64_def word_gt_0)

lemma limits_validate_Ok: "limits_validate l = Inr l' \<longleftrightarrow> l' = l \<and> limits_ok l"
proof -
  have "limits_validate l = Inr l' \<Longrightarrow> l' = l"
    unfolding limits_validate_def by (elim rbind_OkE if_Err_OkE) simp
  then show ?thesis by (auto simp: limits_ok_def)
qed

lemma limits_ok_iff: "limits_ok l \<longleftrightarrow>
    0 < cpu_time_ms l \<and> cpu_time_ms l \<le> MAX_CPU_TIME_MS
    \<and> 0 < wall_time_ms l \<and> wall_time_ms l \<le> MAX_WALL_TIME_MS
    \<and> 0 < memory_bytes l \<and> memory_bytes l \<le> MAX_MEMORY_BYTES
    \<and> 0 < max_source_bytes l \<and> max_source_bytes l \<le> MAX_SOURCE_BUNDLE_BYTES
    \<and> 0 < max_response_bytes l \<and> max_response_bytes l \<le> MAX_RESPONSE_BYTES
    \<and> 0 < max_source_files l \<and> max_source_files l \<le> MAX_SOURCE_FILES
    \<and> 0 < max_recursion_depth l \<and> max_recursion_depth l \<le> MAX_RECURSION_DEPTH
    \<and> 0 < max_parser_nodes l \<and> max_parser_nodes l \<le> MAX_PARSER_NODES
    \<and> 0 < max_type_expansions l \<and> max_type_expansions l \<le> MAX_TYPE_EXPANSIONS
    \<and> 0 < max_specializations l \<and> max_specializations l \<le> MAX_SPECIALIZATIONS
    \<and> 0 < max_diagnostic_bytes l \<and> max_diagnostic_bytes l \<le> MAX_DIAGNOSTIC_BYTES
    \<and> 0 < max_candidate_wir_bytes l \<and> max_candidate_wir_bytes l \<le> MAX_CANDIDATE_WIR_BYTES
    \<and> 0 < max_authority_wir_bytes l \<and> max_authority_wir_bytes l \<le> MAX_AUTHORITY_WIR_BYTES
    \<and> 0 < max_final_byte_plan_bytes l \<and> max_final_byte_plan_bytes l \<le> MAX_FINAL_BYTE_PLAN_BYTES
    \<and> ucast (max_diagnostic_bytes l) \<le> max_response_bytes l
    \<and> ucast (max_candidate_wir_bytes l) \<le> max_response_bytes l
    \<and> ucast (max_authority_wir_bytes l) \<le> max_response_bytes l
    \<and> ucast (max_final_byte_plan_bytes l) \<le> max_response_bytes l"
  unfolding limits_ok_def limits_validate_def
  by (simp only: rbind_eq_Ok bounded_u32_Ok bounded_u64_Ok if_Ok_iff not_less de_Morgan_disj ex_simps
      unit_ex simp_thms conj_assoc)

lemma length_limits_encode [simp]: "length (limits_encode l) = 88"
  by (simp add: limits_encode_def)

interpretation limits_codec: wire_codec limits_ok limits_encode limits_decode
proof unfold_locales
  show "limits_decode (limits_encode l @ rest) = Inr (l, rest)" if "limits_ok l" for l rest
    using that by (cases l) (simp add: limits_decode_def limits_encode_def wire_simps limits_ok_def)
next
  fix bs l rest
  assume "limits_decode bs = Inr (l, rest)"
  then show "limits_ok l \<and> bs = limits_encode l @ rest"
    unfolding limits_decode_def
    by (elim rbind_pair_OkE rbind_OkE)
      (auto simp: limits_validate_Ok codec_gets limits_encode_def)
qed

section \<open>Properties\<close>

text \<open>
  validation accepts exactly the ceilings that are all non-zero, at most their protocol maximum,
  and whose four per-field output ceilings fit in the response ceiling; an accepted value is returned
  unchanged.
\<close>

theorem limits_validate_exact:
  "limits_validate l = Inr l' \<longleftrightarrow> l' = l \<and>
    0 < cpu_time_ms l \<and> cpu_time_ms l \<le> MAX_CPU_TIME_MS
    \<and> 0 < wall_time_ms l \<and> wall_time_ms l \<le> MAX_WALL_TIME_MS
    \<and> 0 < memory_bytes l \<and> memory_bytes l \<le> MAX_MEMORY_BYTES
    \<and> 0 < max_source_bytes l \<and> max_source_bytes l \<le> MAX_SOURCE_BUNDLE_BYTES
    \<and> 0 < max_response_bytes l \<and> max_response_bytes l \<le> MAX_RESPONSE_BYTES
    \<and> 0 < max_source_files l \<and> max_source_files l \<le> MAX_SOURCE_FILES
    \<and> 0 < max_recursion_depth l \<and> max_recursion_depth l \<le> MAX_RECURSION_DEPTH
    \<and> 0 < max_parser_nodes l \<and> max_parser_nodes l \<le> MAX_PARSER_NODES
    \<and> 0 < max_type_expansions l \<and> max_type_expansions l \<le> MAX_TYPE_EXPANSIONS
    \<and> 0 < max_specializations l \<and> max_specializations l \<le> MAX_SPECIALIZATIONS
    \<and> 0 < max_diagnostic_bytes l \<and> max_diagnostic_bytes l \<le> MAX_DIAGNOSTIC_BYTES
    \<and> 0 < max_candidate_wir_bytes l \<and> max_candidate_wir_bytes l \<le> MAX_CANDIDATE_WIR_BYTES
    \<and> 0 < max_authority_wir_bytes l \<and> max_authority_wir_bytes l \<le> MAX_AUTHORITY_WIR_BYTES
    \<and> 0 < max_final_byte_plan_bytes l \<and> max_final_byte_plan_bytes l \<le> MAX_FINAL_BYTE_PLAN_BYTES
    \<and> ucast (max_diagnostic_bytes l) \<le> max_response_bytes l
    \<and> ucast (max_candidate_wir_bytes l) \<le> max_response_bytes l
    \<and> ucast (max_authority_wir_bytes l) \<le> max_response_bytes l
    \<and> ucast (max_final_byte_plan_bytes l) \<le> max_response_bytes l"
  by (simp only: limits_validate_Ok limits_ok_iff)

end
