(* ===== verification/Worker_Request.thy ===== *)
theory Worker_Request
  imports Worker_Limits
begin

text \<open>
  Requests to a compiler worker (crates/witchy-worker-protocol/src/request.rs). SHA-256 is an
  external crate: it is the parameter \<open>sha\<close> of the definitions, of which the code relies on the
  digest being 32 bytes long. A \<open>[u8; 32]\<close> is a byte list of length 32, stated by \<open>schema_ok\<close> for the
  one digest a caller supplies.
\<close>

section \<open>Admission schema and target\<close>

definition WORKER_PROTOCOL_SCHEMA_V2 :: "16 word" where "WORKER_PROTOCOL_SCHEMA_V2 = 2"

definition ADMISSION_SCHEMA_V2 :: "16 word" where "ADMISSION_SCHEMA_V2 = 2"

definition REQUEST_PRELUDE_BYTES :: nat where "REQUEST_PRELUDE_BYTES = 180"

definition REQUEST_MAGIC :: bytes where
  "REQUEST_MAGIC = map (\<lambda>c. word_of_nat (ascii_code c)) ''WCHREQ02''"

definition REQUEST_KIND :: byte where "REQUEST_KIND = 1"

definition MAX_REQUEST_FRAME_BYTES :: nat where
  "MAX_REQUEST_FRAME_BYTES = unat MAX_SOURCE_BUNDLE_BYTES + 256"

definition REQUEST_FIXED_PAYLOAD_BYTES :: nat where
  "REQUEST_FIXED_PAYLOAD_BYTES = REQUEST_PRELUDE_BYTES - FRAME_HEADER_BYTES"

datatype AdmissionSchemaId = AdmissionSchemaId (schema_sha256: bytes)

definition schema_v2 :: "bytes \<Rightarrow> (ProtocolError, AdmissionSchemaId) result" where
  "schema_v2 digest =
     (if digest = replicate 32 0 then Err (DigestMismatch ''admission schema'')
      else Ok (AdmissionSchemaId digest))"

definition schema_version :: "AdmissionSchemaId \<Rightarrow> 16 word" where
  "schema_version s = ADMISSION_SCHEMA_V2"

datatype WorkerTarget = NativeRuntime | BrowserBase | BrowserCapabilityProvider | NativeBuildWorker

fun target_u16 :: "WorkerTarget \<Rightarrow> 16 word" where
  "target_u16 NativeRuntime = 0x0001"
| "target_u16 BrowserBase = 0x0002"
| "target_u16 BrowserCapabilityProvider = 0x0003"
| "target_u16 NativeBuildWorker = 0x0004"

fun target_name :: "WorkerTarget \<Rightarrow> string" where
  "target_name NativeRuntime = ''native-runtime''"
| "target_name BrowserBase = ''browser-base''"
| "target_name BrowserCapabilityProvider = ''browser-capability-provider''"
| "target_name NativeBuildWorker = ''native-build-worker''"

definition target_decode :: "16 word \<Rightarrow> (ProtocolError, WorkerTarget) result" where
  "target_decode v =
     (if v = 0x0001 then Ok NativeRuntime
      else if v = 0x0002 then Ok BrowserBase
      else if v = 0x0003 then Ok BrowserCapabilityProvider
      else if v = 0x0004 then Ok NativeBuildWorker
      else Err (UnknownTarget v))"

lemma target_decode_Ok: "target_decode v = Inr t \<longleftrightarrow> v = target_u16 t"
  by (cases t) (auto simp: target_decode_def)

interpretation target_codes: coding target_u16 "\<lambda>v. case target_decode v of Inl _ \<Rightarrow> None | Inr t \<Rightarrow> Some t"
proof unfold_locales
  show "(case target_decode (target_u16 t) of Inl _ \<Rightarrow> None | Inr t \<Rightarrow> Some t) = Some t" for t
  proof -
    have "target_decode (target_u16 t) = Inr t" by (simp add: target_decode_Ok)
    then show ?thesis by simp
  qed
qed (auto simp: target_decode_Ok split: sum.splits)

section \<open>Requests\<close>

record WorkerRequest =
  rq_admission_schema :: AdmissionSchemaId
  rq_target :: WorkerTarget
  rq_limits :: WorkerLimits
  rq_source_bundle_sha256 :: bytes
  rq_source_bundle :: bytes

record RequestPrelude =
  rp_target :: WorkerTarget
  rp_limits :: WorkerLimits
  rp_frame_bytes :: nat

definition request_new :: "(bytes \<Rightarrow> bytes) \<Rightarrow> bytes \<Rightarrow> WorkerTarget \<Rightarrow> AdmissionSchemaId \<Rightarrow> WorkerLimits
    \<Rightarrow> (ProtocolError, WorkerRequest) result" where
  "request_new sha source_bundle target admission_schema limits =
     rbind (limits_validate limits) (\<lambda>limits.
       if source_bundle = [] then Err (EmptyField ''source bundle'')
       else if length source_bundle > unat (max_source_bytes limits)
            \<or> length source_bundle > unat MAX_SOURCE_BUNDLE_BYTES
       then Err (BudgetExceeded ''source bundle bytes'')
       else Ok \<lparr>rq_admission_schema = admission_schema, rq_target = target, rq_limits = limits,
                rq_source_bundle_sha256 = sha source_bundle, rq_source_bundle = source_bundle\<rparr>)"

definition request_encode :: "WorkerRequest \<Rightarrow> (ProtocolError, bytes) result" where
  "request_encode r =
     rbind (put_bytes (rq_source_bundle r) ''source bundle'') (\<lambda>source.
     rbind (frame REQUEST_MAGIC WORKER_PROTOCOL_SCHEMA_V2 REQUEST_KIND
       (put_u16 ADMISSION_SCHEMA_V2 @ put_u16 0 @ schema_sha256 (rq_admission_schema r)
        @ put_u16 (target_u16 (rq_target r)) @ put_u16 0 @ rq_source_bundle_sha256 r
        @ limits_encode (rq_limits r) @ source)) (\<lambda>encoded.
       if length encoded > MAX_REQUEST_FRAME_BYTES then Err (BudgetExceeded ''request frame bytes'')
       else Ok encoded))"

definition request_sha256 :: "(bytes \<Rightarrow> bytes) \<Rightarrow> WorkerRequest \<Rightarrow> (ProtocolError, bytes) result" where
  "request_sha256 sha r = rbind (request_encode r) (\<lambda>encoded. Ok (sha encoded))"

definition decode_request :: "(bytes \<Rightarrow> bytes) \<Rightarrow> bytes \<Rightarrow> (ProtocolError, WorkerRequest) result" where
  "decode_request sha bs =
     rbind (payload bs MAX_REQUEST_FRAME_BYTES REQUEST_MAGIC WORKER_PROTOCOL_SCHEMA_V2 REQUEST_KIND) (\<lambda>body.
     rbind (in_u16 body) (\<lambda>(admission_version, input).
     if admission_version \<noteq> ADMISSION_SCHEMA_V2 then Err (UnsupportedAdmissionSchema admission_version)
     else rbind (in_u16 input) (\<lambda>(reserved, input).
     if reserved \<noteq> 0 then Err NonZeroReserved
     else rbind (in_array_32 input) (\<lambda>(digest, input).
     rbind (schema_v2 digest) (\<lambda>admission_schema.
     rbind (in_u16 input) (\<lambda>(code, input).
     rbind (target_decode code) (\<lambda>target.
     rbind (in_u16 input) (\<lambda>(reserved, input).
     if reserved \<noteq> 0 then Err NonZeroReserved
     else rbind (in_array_32 input) (\<lambda>(expected_source_digest, input).
     rbind (limits_decode input) (\<lambda>(limits, input).
     rbind (in_bytes (unat (max_source_bytes limits)) ''source bundle bytes'' input) (\<lambda>(source_bundle, input).
     rbind (in_finish input) (\<lambda>_.
     if sha source_bundle \<noteq> expected_source_digest then Err (DigestMismatch ''source bundle'')
     else rbind (request_new sha source_bundle target admission_schema limits) (\<lambda>request.
     if rq_source_bundle_sha256 request \<noteq> expected_source_digest then Err (DigestMismatch ''source bundle'')
     else rbind (request_encode request) (\<lambda>encoded.
     if encoded \<noteq> bs then Err NonCanonical
     else Ok request))))))))))))))"

definition decode_request_prelude :: "bytes \<Rightarrow> (ProtocolError, RequestPrelude) result" where
  "decode_request_prelude bs =
     (if length bs \<noteq> REQUEST_PRELUDE_BYTES then Err Truncated
     else rbind (in_take (length REQUEST_MAGIC) bs) (\<lambda>(magic, input).
     if magic \<noteq> REQUEST_MAGIC then Err InvalidMagic
     else rbind (in_u16 input) (\<lambda>(schema, input).
     if schema \<noteq> WORKER_PROTOCOL_SCHEMA_V2 then Err (UnsupportedProtocolSchema schema)
     else rbind (in_u8 input) (\<lambda>(kind, input).
     if kind \<noteq> REQUEST_KIND then Err (UnknownMessageKind kind)
     else rbind (in_u8 input) (\<lambda>(reserved, input).
     if reserved \<noteq> 0 then Err NonZeroReserved
     else rbind (in_u32 input) (\<lambda>(payload_bytes, input).
     rbind (in_u16 input) (\<lambda>(admission_version, input).
     if admission_version \<noteq> ADMISSION_SCHEMA_V2 then Err (UnsupportedAdmissionSchema admission_version)
     else rbind (in_u16 input) (\<lambda>(reserved, input).
     if reserved \<noteq> 0 then Err NonZeroReserved
     else rbind (in_array_32 input) (\<lambda>(digest, input).
     rbind (schema_v2 digest) (\<lambda>_.
     rbind (in_u16 input) (\<lambda>(code, input).
     rbind (target_decode code) (\<lambda>target.
     rbind (in_u16 input) (\<lambda>(reserved, input).
     if reserved \<noteq> 0 then Err NonZeroReserved
     else rbind (in_array_32 input) (\<lambda>(_, input).
     rbind (limits_decode input) (\<lambda>(limits, input).
     rbind (in_u32 input) (\<lambda>(source_bytes, input).
     rbind (in_finish input) (\<lambda>_.
     if unat source_bytes = 0 then Err (EmptyField ''source bundle'')
     else if unat source_bytes > unat (max_source_bytes limits)
          \<or> unat source_bytes > unat MAX_SOURCE_BUNDLE_BYTES
     then Err (BudgetExceeded ''source bundle bytes'')
     else if unat payload_bytes \<noteq> REQUEST_FIXED_PAYLOAD_BYTES + unat source_bytes then Err NonCanonical
     else if FRAME_HEADER_BYTES + unat payload_bytes > MAX_REQUEST_FRAME_BYTES
     then Err (BudgetExceeded ''request frame bytes'')
     else Ok \<lparr>rp_target = target, rp_limits = limits,
              rp_frame_bytes = FRAME_HEADER_BYTES + unat payload_bytes\<rparr>)))))))))))))))))"

section \<open>Well-formed requests and their frames\<close>

definition schema_ok :: "AdmissionSchemaId \<Rightarrow> bool" where
  "schema_ok s \<longleftrightarrow> length (schema_sha256 s) = 32 \<and> schema_sha256 s \<noteq> replicate 32 0"

definition request_ok :: "(bytes \<Rightarrow> bytes) \<Rightarrow> WorkerRequest \<Rightarrow> bool" where
  "request_ok sha r \<longleftrightarrow> schema_ok (rq_admission_schema r) \<and> limits_ok (rq_limits r)
     \<and> rq_source_bundle r \<noteq> [] \<and> length (rq_source_bundle r) \<le> unat (max_source_bytes (rq_limits r))
     \<and> length (rq_source_bundle r) \<le> unat MAX_SOURCE_BUNDLE_BYTES
     \<and> rq_source_bundle_sha256 r = sha (rq_source_bundle r)"

definition request_body_prefix :: "WorkerRequest \<Rightarrow> bytes" where
  "request_body_prefix r =
     put_u16 ADMISSION_SCHEMA_V2 @ put_u16 0 @ schema_sha256 (rq_admission_schema r)
     @ put_u16 (target_u16 (rq_target r)) @ put_u16 0 @ rq_source_bundle_sha256 r
     @ limits_encode (rq_limits r) @ put_u32 (word_of_nat (length (rq_source_bundle r)))"

definition request_header :: "WorkerRequest \<Rightarrow> bytes" where
  "request_header r = REQUEST_MAGIC @ put_u16 WORKER_PROTOCOL_SCHEMA_V2 @ put_u8 REQUEST_KIND @ put_u8 0
     @ put_u32 (word_of_nat (164 + length (rq_source_bundle r)))"

lemma length_REQUEST_MAGIC [simp]: "length REQUEST_MAGIC = 8"
  by (simp add: REQUEST_MAGIC_def)

lemma unat_MAX_SOURCE [simp]: "unat MAX_SOURCE_BUNDLE_BYTES = 67108864"
  by (simp add: MAX_SOURCE_BUNDLE_BYTES_def)

lemma schema_v2_Ok: "schema_v2 d = Inr s \<longleftrightarrow> s = AdmissionSchemaId d \<and> d \<noteq> replicate 32 0"
  by (auto simp: schema_v2_def)

lemma in_finish_Ok: "in_finish r = Inr u \<longleftrightarrow> r = []"
  by (auto simp: in_finish_def)

lemma request_new_Ok: "request_new sha sb t s l = Inr r \<longleftrightarrow>
    r = \<lparr>rq_admission_schema = s, rq_target = t, rq_limits = l,
         rq_source_bundle_sha256 = sha sb, rq_source_bundle = sb\<rparr>
    \<and> limits_ok l \<and> sb \<noteq> [] \<and> length sb \<le> unat (max_source_bytes l)
    \<and> length sb \<le> unat MAX_SOURCE_BUNDLE_BYTES"
  by (auto simp: request_new_def result_simps limits_validate_Ok split: if_splits)

lemma request_encode_Ok:
  assumes "request_ok sha r" "\<And>x. length (sha x) = 32"
  shows "request_encode r = Inr (request_header r @ request_body_prefix r @ rq_source_bundle r)"
proof -
  from assms have len: "length (rq_source_bundle r) \<le> 67108864"
    and d: "length (rq_source_bundle_sha256 r) = 32" "length (schema_sha256 (rq_admission_schema r)) = 32"
    by (auto simp: request_ok_def schema_ok_def)
  let ?body = "request_body_prefix r @ rq_source_bundle r"
  have lb: "length ?body = 164 + length (rq_source_bundle r)"
    by (simp add: request_body_prefix_def d)
  have "put_bytes (rq_source_bundle r) ''source bundle'' =
      Inr (put_u32 (word_of_nat (length (rq_source_bundle r))) @ rq_source_bundle r)"
    using len by (simp add: put_bytes_Ok)
  moreover have "frame REQUEST_MAGIC WORKER_PROTOCOL_SCHEMA_V2 REQUEST_KIND ?body =
      Inr (request_header r @ ?body)"
    using len lb by (simp add: frame_Ok request_header_def)
  moreover have "length (request_header r @ ?body) \<le> MAX_REQUEST_FRAME_BYTES"
    using len lb by (simp add: request_header_def MAX_REQUEST_FRAME_BYTES_def)
  ultimately show ?thesis
    by (simp add: request_encode_def request_body_prefix_def)
qed

lemma length_request_parts:
  assumes "request_ok sha r" "\<And>x. length (sha x) = 32"
  shows "length (request_header r) = 16" "length (request_body_prefix r) = 164"
  using assms by (auto simp: request_header_def request_body_prefix_def request_ok_def schema_ok_def)

lemma decode_request_frame:
  assumes ok: "request_ok sha r" and sha: "\<And>x. length (sha x) = 32"
  shows "decode_request sha (request_header r @ request_body_prefix r @ rq_source_bundle r) = Inr r"
proof -
  let ?bs = "request_header r @ request_body_prefix r @ rq_source_bundle r"
  note enc = request_encode_Ok[OF ok sha]
  from ok have sb: "length (rq_source_bundle r) \<le> unat (max_source_bytes (rq_limits r))"
      "length (rq_source_bundle r) < 2 ^ 32" and lim: "limits_ok (rq_limits r)"
    and sch: "length (schema_sha256 (rq_admission_schema r)) = 32"
      "schema_v2 (schema_sha256 (rq_admission_schema r)) = Inr (rq_admission_schema r)"
    and dig: "rq_source_bundle_sha256 r = sha (rq_source_bundle r)"
    by (auto simp: request_ok_def schema_ok_def schema_v2_Ok)
  have tgt: "target_decode (target_u16 (rq_target r)) = Inr (rq_target r)" by (simp add: target_decode_Ok)
  have pl: "payload ?bs MAX_REQUEST_FRAME_BYTES REQUEST_MAGIC WORKER_PROTOCOL_SCHEMA_V2 REQUEST_KIND
      = Inr (request_body_prefix r @ rq_source_bundle r)"
    using enc by (auto simp: payload_Ok request_encode_def request_body_prefix_def put_bytes_Ok
        result_simps split: if_splits)
  have new: "request_new sha (rq_source_bundle r) (rq_target r) (rq_admission_schema r) (rq_limits r) = Inr r"
    using ok by (simp add: request_new_Ok request_ok_def)
  have field: "in_bytes (unat (max_source_bytes (rq_limits r))) f
      (put_u32 (word_of_nat (length (rq_source_bundle r))) @ rq_source_bundle r) = Inr (rq_source_bundle r, [])" for f
    using bytes_codec.get_put_nil[of "rq_source_bundle r"] sb by simp
  show ?thesis
    unfolding decode_request_def pl rbind_Ok
    unfolding request_body_prefix_def append_assoc
    using dig sha enc
    by (simp add: wire_simps sch tgt limits_codec.get_put[OF lim] field in_finish_def new
        request_body_prefix_def)
qed

text \<open>Every accepted frame is the frame of a well-formed request.\<close>

lemma decode_request_sound:
  assumes dec: "decode_request sha bs = Inr r"
  shows "request_ok sha r" "request_encode r = Inr bs"
  using dec unfolding decode_request_def atomize_conj
  by (elim rbind_pair_OkE rbind_OkE if_Err_OkE)
    (auto simp: request_ok_def request_new_Ok schema_v2_Ok schema_ok_def codec_gets)

section \<open>The canonical check is redundant\<close>

lemma readers_canonical:
  "in_take n bs \<noteq> Inl NonCanonical" "in_u8 bs \<noteq> Inl NonCanonical" "in_u16 bs \<noteq> Inl NonCanonical"
  "in_u32 bs \<noteq> Inl NonCanonical" "in_u64 bs \<noteq> Inl NonCanonical" "in_array_32 bs \<noteq> Inl NonCanonical"
  "in_bytes m f bs \<noteq> Inl NonCanonical" "in_finish bs \<noteq> Inl NonCanonical"
  by (auto simp: in_take_def in_u8_def in_u16_def in_u32_def in_u64_def in_array_32_def in_bytes_def
      in_finish_def rbind_def split: sum.splits if_splits)

lemma limits_validate_canonical: "limits_validate l \<noteq> Inl NonCanonical"
proof
  assume "limits_validate l = Inl NonCanonical"
  then show False unfolding limits_validate_def
    by (elim rbind_ErrE if_Err_ErrE) (simp_all add: bounded_u32_def bounded_u64_def split: if_splits)
qed

lemma limits_decode_canonical: "limits_decode bs \<noteq> Inl NonCanonical"
proof
  assume "limits_decode bs = Inl NonCanonical"
  then show False unfolding limits_decode_def
    by (elim rbind_pair_ErrE rbind_ErrE) (simp_all add: readers_canonical limits_validate_canonical)
qed

lemma payload_canonical: "payload bs m magic schema kind \<noteq> Inl NonCanonical"
proof
  assume "payload bs m magic schema kind = Inl NonCanonical"
  then show False unfolding payload_def
    by (elim if_Err_ErrE rbind_pair_ErrE) (simp_all add: readers_canonical)
qed

lemma others_canonical: "schema_v2 d \<noteq> Inl NonCanonical" "target_decode v \<noteq> Inl NonCanonical"
  "request_new sha sb t s l \<noteq> Inl NonCanonical" "request_encode r \<noteq> Inl NonCanonical"
  by (auto simp: schema_v2_def target_decode_def request_new_def request_encode_def put_bytes_def frame_def
      u32_try_from_def rbind_def limits_validate_canonical split: sum.splits if_splits)

lemma request_body_determines_frame:
  assumes pl: "payload bs MAX_REQUEST_FRAME_BYTES REQUEST_MAGIC WORKER_PROTOCOL_SCHEMA_V2 REQUEST_KIND
      = Inr (request_body_prefix r @ rq_source_bundle r)"
    and ok: "request_ok sha r" and sha: "\<And>x. length (sha x) = 32"
  shows "request_encode r = Inr bs"
proof -
  have "length (request_body_prefix r @ rq_source_bundle r) = 164 + length (rq_source_bundle r)"
    using length_request_parts[OF ok sha] by simp
  with pl have "bs = request_header r @ request_body_prefix r @ rq_source_bundle r"
    by (simp add: payload_Ok frame_Ok request_header_def)
  then show ?thesis using request_encode_Ok[OF ok sha] by simp
qed

lemma request_fields_body:
  assumes "in_u16 x = Inr (ADMISSION_SCHEMA_V2, i1)" "in_u16 i1 = Inr (0, i2)"
    "in_array_32 i2 = Inr (digest, i3)" "schema_v2 digest = Inr s"
    "in_u16 i3 = Inr (code, i4)" "target_decode code = Inr t" "in_u16 i4 = Inr (0, i5)"
    "in_array_32 i5 = Inr (sha sb, i6)" "limits_decode i6 = Inr (l, i7)"
    "in_bytes (unat (max_source_bytes l)) f i7 = Inr (sb, i8)" "in_finish i8 = Inr ()"
    "request_new sha sb t s l = Inr r"
  shows "request_ok sha r \<and> x = request_body_prefix r @ rq_source_bundle r"
  using assms
  by (simp add: codec_gets limits_codec.get_iff request_new_Ok schema_v2_Ok target_decode_Ok in_finish_Ok
      request_ok_def schema_ok_def request_body_prefix_def)

lemma decode_request_no_NonCanonical:
  assumes sha: "\<And>x. length (sha x) = 32"
  shows "decode_request sha bs \<noteq> Inl NonCanonical"
proof
  assume "decode_request sha bs = Inl NonCanonical"
  then obtain x i1 i2 digest i3 s code i4 t i5 i6 l i7 sb i8 r xe where
    pl: "payload bs MAX_REQUEST_FRAME_BYTES REQUEST_MAGIC WORKER_PROTOCOL_SCHEMA_V2 REQUEST_KIND = Inr x"
    and fields: "in_u16 x = Inr (ADMISSION_SCHEMA_V2, i1)" "in_u16 i1 = Inr (0, i2)"
    "in_array_32 i2 = Inr (digest, i3)" "schema_v2 digest = Inr s"
    "in_u16 i3 = Inr (code, i4)" "target_decode code = Inr t" "in_u16 i4 = Inr (0, i5)"
    "in_array_32 i5 = Inr (sha sb, i6)" "limits_decode i6 = Inr (l, i7)"
    "in_bytes (unat (max_source_bytes l)) ''source bundle bytes'' i7 = Inr (sb, i8)" "in_finish i8 = Inr ()"
    "request_new sha sb t s l = Inr r"
    and enc: "request_encode r = Inr xe" "xe \<noteq> bs"
    unfolding decode_request_def
    by (elim rbind_pair_ErrE rbind_ErrE if_Err_ErrE)
      (simp_all add: readers_canonical payload_canonical others_canonical limits_decode_canonical, blast)
  note body = request_fields_body[OF fields]
  have "request_encode r = Inr bs"
    by (rule request_body_determines_frame[of bs r sha]) (use pl body sha in simp_all)
  with enc show False by simp
qed

lemma prelude_of_frame:
  assumes ok: "request_ok sha r" and sha: "\<And>x. length (sha x) = 32"
  shows "decode_request_prelude (request_header r @ request_body_prefix r) =
    Inr \<lparr>rp_target = rq_target r, rp_limits = rq_limits r, rp_frame_bytes = 180 + length (rq_source_bundle r)\<rparr>"
proof -
  from ok have sb: "length (rq_source_bundle r) \<le> unat (max_source_bytes (rq_limits r))"
      "length (rq_source_bundle r) \<le> 67108864" "rq_source_bundle r \<noteq> []" and lim: "limits_ok (rq_limits r)"
    and sch: "length (schema_sha256 (rq_admission_schema r)) = 32"
      "schema_v2 (schema_sha256 (rq_admission_schema r)) = Inr (rq_admission_schema r)"
    and dig: "length (rq_source_bundle_sha256 r) = 32"
    using sha by (auto simp: request_ok_def schema_ok_def schema_v2_Ok)
  have tgt: "target_decode (target_u16 (rq_target r)) = Inr (rq_target r)" by (simp add: target_decode_Ok)
  have len: "length (request_header r @ request_body_prefix r) = REQUEST_PRELUDE_BYTES"
    using length_request_parts[OF ok sha] by (simp add: REQUEST_PRELUDE_BYTES_def)
  have n: "unat (word_of_nat (length (rq_source_bundle r)) :: 32 word) = length (rq_source_bundle r)"
    "unat (word_of_nat (164 + length (rq_source_bundle r)) :: 32 word) = 164 + length (rq_source_bundle r)"
    using sb(2) by (simp_all add: unat_len32 del: of_nat_add of_nat_numeral)
  have last: "in_u32 (put_u32 w) = Inr (w, [])" for w using u32_codec.get_put_nil by simp
  show ?thesis
    unfolding decode_request_prelude_def if_not_P[OF not_not[THEN iffD2, OF len]]
    unfolding request_header_def request_body_prefix_def append_assoc
    using sb
    by (simp add: wire_simps sch tgt dig limits_codec.get_put[OF lim] last in_finish_def
        n REQUEST_FIXED_PAYLOAD_BYTES_def REQUEST_PRELUDE_BYTES_def FRAME_HEADER_BYTES_def
        MAX_REQUEST_FRAME_BYTES_def del: of_nat_add of_nat_numeral)
qed

lemma prelude_sound:
  assumes "decode_request_prelude bs = Inr p"
  shows "limits_ok (rp_limits p)" "180 < rp_frame_bytes p" "rp_frame_bytes p \<le> MAX_REQUEST_FRAME_BYTES"
    "rp_frame_bytes p \<le> 180 + unat (max_source_bytes (rp_limits p))"
  using assms unfolding decode_request_prelude_def atomize_conj
  by (elim if_Err_OkE rbind_pair_OkE rbind_OkE)
    (auto simp: limits_codec.get_iff REQUEST_FIXED_PAYLOAD_BYTES_def REQUEST_PRELUDE_BYTES_def
      FRAME_HEADER_BYTES_def)

section \<open>Properties\<close>

text \<open>A digest of the right length and concrete ceilings, for the concrete instances below.\<close>

definition sample_sha :: "bytes \<Rightarrow> bytes" where
  "sample_sha bs = replicate 31 0 @ [word_of_nat (length bs)]"

definition sample_limits :: WorkerLimits where
  "sample_limits = \<lparr>cpu_time_ms = 30000, wall_time_ms = 60000, memory_bytes = 536870912,
     max_source_bytes = 1048576, max_response_bytes = 4194304, max_source_files = 128,
     max_recursion_depth = 256, max_parser_nodes = 1000000, max_type_expansions = 100000,
     max_specializations = 50000, max_diagnostic_bytes = 65536, max_candidate_wir_bytes = 2097152,
     max_authority_wir_bytes = 1048576, max_final_byte_plan_bytes = 1048576\<rparr>"

definition sample_schema :: AdmissionSchemaId where
  "sample_schema = AdmissionSchemaId (replicate 32 7)"

definition sample_request :: WorkerRequest where
  "sample_request = \<lparr>rq_admission_schema = sample_schema, rq_target = NativeRuntime,
     rq_limits = sample_limits, rq_source_bundle_sha256 = sample_sha [1, 2], rq_source_bundle = [1, 2]\<rparr>"

lemma length_sample_sha: "length (sample_sha x) = 32"
  by (simp add: sample_sha_def)

lemma sample_limits_ok: "limits_ok sample_limits"
  by (simp add: limits_ok_iff sample_limits_def limit_consts)

lemma sample_schema_ok: "schema_ok sample_schema"
  by (simp add: schema_ok_def sample_schema_def)

lemma sample_request_new:
  "request_new sample_sha [1, 2] NativeRuntime sample_schema sample_limits = Inr sample_request"
  using sample_limits_ok by (simp add: request_new_Ok sample_request_def) (simp add: sample_limits_def)

lemma sample_request_ok: "request_ok sample_sha sample_request"
proof -
  have "2 \<le> unat (max_source_bytes sample_limits)" by (simp add: sample_limits_def)
  then show ?thesis
    using sample_limits_ok sample_schema_ok by (simp add: request_ok_def sample_request_def)
qed

text \<open>
  C12: a request that the constructor accepts can always be encoded, in exactly 180 bytes plus the
  source bundle, and its frame decodes to the same request.
\<close>

theorem request_roundtrip:
  assumes "\<And>x. length (sha x) = 32" "schema_ok schema"
    and "request_new sha source target schema limits = Inr r"
  shows "\<exists>bs. request_encode r = Inr bs \<and> length bs = 180 + length source \<and> decode_request sha bs = Inr r"
proof -
  have ok: "request_ok sha r" and src: "rq_source_bundle r = source"
    using assms(2,3) by (auto simp: request_new_Ok request_ok_def)
  show ?thesis
    using request_encode_Ok[OF ok assms(1)] decode_request_frame[OF ok assms(1)]
      length_request_parts[OF ok assms(1)] src by simp
qed

theorem request_roundtrip_witness:
  "\<exists>bs. request_encode sample_request = Inr bs \<and> length bs = 180 + length [1, 2 :: byte]
     \<and> decode_request sample_sha bs = Inr sample_request"
  by (rule request_roundtrip[OF length_sample_sha sample_schema_ok sample_request_new])

text \<open>
  every accepted frame is a validated request: its ceilings pass validation, its non-empty
  source is within them and has the transmitted digest, its schema identity is non-zero, and the
  frame is the one encoding of the request, so two frames of the same request are equal.
\<close>

theorem decode_request_valid:
  assumes "decode_request sha bs = Inr r"
  shows "request_ok sha r \<and> request_encode r = Inr bs
    \<and> (decode_request sha bs' = Inr r \<longrightarrow> bs' = bs)"
  using decode_request_sound[OF assms] decode_request_sound[of sha bs' r] by auto

theorem decode_request_valid_witness:
  "\<exists>bs. decode_request sample_sha bs = Inr sample_request \<and> request_ok sample_sha sample_request
     \<and> request_encode sample_request = Inr bs"
proof -
  note ok = sample_request_ok
  have "decode_request sample_sha
      (request_header sample_request @ request_body_prefix sample_request @ rq_source_bundle sample_request)
      = Inr sample_request"
    by (rule decode_request_frame[OF ok length_sample_sha])
  from this decode_request_valid[OF this] show ?thesis by blast
qed

text \<open>
  C10: the byte layout is canonical by itself: the final comparison of the re-encoded request with the
  input, which reports \<open>NonCanonical\<close>, never fails on any input.
\<close>

theorem decode_request_canonical_check_redundant:
  assumes "\<And>x. length (sha x) = 32"
  shows "decode_request sha bs \<noteq> Inl NonCanonical"
  using assms by (rule decode_request_no_NonCanonical)

theorem decode_request_canonical_check_redundant_witness: "decode_request sample_sha [1, 2, 3] \<noteq> Inl NonCanonical"
  by (rule decode_request_canonical_check_redundant[OF length_sample_sha])

text \<open>
  C13: confinement before source: the first 180 bytes of any acceptable frame decode as a prelude, and
  the target, the ceilings and the frame length it announces are those of the full request; so the
  limits applied before the source is read are the request's own.
\<close>

theorem prelude_agrees_with_request:
  assumes "\<And>x. length (sha x) = 32" "decode_request sha bs = Inr r"
  shows "decode_request_prelude (take 180 bs) =
    Inr \<lparr>rp_target = rq_target r, rp_limits = rq_limits r, rp_frame_bytes = length bs\<rparr>"
proof -
  note ok = decode_request_sound[OF assms(2)]
  have bs: "bs = request_header r @ request_body_prefix r @ rq_source_bundle r"
    using request_encode_Ok[OF ok(1) assms(1)] ok(2) by simp
  note len = length_request_parts[OF ok(1) assms(1)]
  have "take 180 bs = request_header r @ request_body_prefix r" "length bs = 180 + length (rq_source_bundle r)"
    using len by (simp_all add: bs)
  then show ?thesis using prelude_of_frame[OF ok(1) assms(1)] by simp
qed

theorem prelude_agrees_with_request_witness:
  "\<exists>bs. decode_request_prelude (take 180 bs) =
     Inr \<lparr>rp_target = rq_target sample_request, rp_limits = rq_limits sample_request, rp_frame_bytes = length bs\<rparr>"
  by (rule exI, rule prelude_agrees_with_request[OF length_sample_sha
        decode_request_frame[OF sample_request_ok length_sample_sha]])

text \<open>
  a prelude that decodes announces validated ceilings and a frame that is longer than the prelude
  and no longer than the announced source ceiling and the protocol's frame ceiling allow.
\<close>

theorem prelude_bounds:
  assumes "decode_request_prelude bs = Inr p"
  shows "limits_ok (rp_limits p) \<and> 180 < rp_frame_bytes p \<and> rp_frame_bytes p \<le> MAX_REQUEST_FRAME_BYTES
    \<and> rp_frame_bytes p \<le> 180 + unat (max_source_bytes (rp_limits p))"
  using prelude_sound[OF assms] by blast

theorem prelude_bounds_witness: "180 < (182 :: nat) \<and> 182 \<le> MAX_REQUEST_FRAME_BYTES"
proof -
  note ok = sample_request_ok
  from prelude_bounds[OF prelude_of_frame[OF ok length_sample_sha]] show ?thesis
    by (simp add: sample_request_def)
qed

end
