(* ===== verification/Worker_Response.thy ===== *)
theory Worker_Response
  imports Worker_Request
begin

text \<open>
  Responses of a compiler worker (crates/witchy-worker-protocol/src/response.rs): construction under
  the request's ceilings, the canonical encoding, and the parent's decoder, which binds a response to
  the one request it answers. A Rust \<open>String\<close> is the list of its UTF-8 bytes, and \<open>is_utf8\<close> states its
  type invariant where a caller supplies it.
\<close>

section \<open>Definitions\<close>

definition RESPONSE_MAGIC :: bytes where
  "RESPONSE_MAGIC = map (\<lambda>c. word_of_nat (ascii_code c)) ''WCHRSP02''"

definition RESPONSE_KIND :: byte where "RESPONSE_KIND = 2"

datatype ResponseStatus = Candidate | Rejected

fun status_u8 :: "ResponseStatus \<Rightarrow> byte" where
  "status_u8 Candidate = 1"
| "status_u8 Rejected = 2"

definition status_decode :: "byte \<Rightarrow> (ProtocolError, ResponseStatus) result" where
  "status_decode v =
     (if v = 1 then Ok Candidate else if v = 2 then Ok Rejected else Err (UnknownResponseStatus v))"

record WorkerResponse =
  rs_request_sha256 :: bytes
  rs_limits :: WorkerLimits
  rs_status :: ResponseStatus
  rs_candidate_wir :: bytes
  rs_authority_wir :: bytes
  rs_final_byte_plan :: bytes
  rs_diagnostics :: bytes

definition is_utf8 :: "bytes \<Rightarrow> bool" where
  "is_utf8 bs \<longleftrightarrow> utf8_decode (map unat bs) \<noteq> None"

definition str_chars :: "bytes \<Rightarrow> nat list" where
  "str_chars bs = (case utf8_decode (map unat bs) of None \<Rightarrow> [] | Some cs \<Rightarrow> cs)"

text \<open>\<open>char::is_control\<close>: the general category Cc.\<close>

definition is_control :: "nat \<Rightarrow> bool" where
  "is_control c \<longleftrightarrow> c \<le> 0x1f \<or> (0x7f \<le> c \<and> c \<le> 0x9f)"

definition forbidden_diagnostic_character :: "nat \<Rightarrow> bool" where
  "forbidden_diagnostic_character c \<longleftrightarrow>
     (is_control c \<and> \<not> (c = 0x0a \<or> c = 0x09))
     \<or> c = 0x061c \<or> c = 0x200e \<or> c = 0x200f
     \<or> (0x202a \<le> c \<and> c \<le> 0x202e) \<or> (0x2066 \<le> c \<and> c \<le> 0x2069)"

definition check_length :: "nat \<Rightarrow> 32 word \<Rightarrow> string \<Rightarrow> (ProtocolError, unit) result" where
  "check_length len maximum field = (if len > unat maximum then Err (BudgetExceeded field) else Ok ())"

definition validate_diagnostics :: "bytes \<Rightarrow> 32 word \<Rightarrow> (ProtocolError, unit) result" where
  "validate_diagnostics v maximum =
     rbind (check_length (length v) maximum ''diagnostic bytes'') (\<lambda>_.
       if list_ex forbidden_diagnostic_character (str_chars v) then Err InvalidDiagnostic else Ok ())"

definition response_encode :: "WorkerResponse \<Rightarrow> (ProtocolError, bytes) result" where
  "response_encode r =
     rbind (put_bytes (rs_candidate_wir r) ''candidate WIR'') (\<lambda>candidate.
     rbind (put_bytes (rs_authority_wir r) ''AuthorityWIR'') (\<lambda>authority.
     rbind (put_bytes (rs_final_byte_plan r) ''final-byte plan'') (\<lambda>plan.
     rbind (put_bytes (rs_diagnostics r) ''diagnostics'') (\<lambda>diagnostics.
     rbind (frame RESPONSE_MAGIC WORKER_PROTOCOL_SCHEMA_V2 RESPONSE_KIND
       (rs_request_sha256 r @ put_u8 (status_u8 (rs_status r)) @ replicate 3 0
        @ candidate @ authority @ plan @ diagnostics)) (\<lambda>encoded.
       if length encoded > unat (max_response_bytes (rs_limits r))
          \<or> length encoded > unat MAX_RESPONSE_BYTES
       then Err (BudgetExceeded ''response frame bytes'')
       else Ok encoded)))))"

definition response_construct :: "(bytes \<Rightarrow> bytes) \<Rightarrow> WorkerRequest \<Rightarrow> ResponseStatus \<Rightarrow> bytes \<Rightarrow> bytes \<Rightarrow>
    bytes \<Rightarrow> bytes \<Rightarrow> (ProtocolError, WorkerResponse) result" where
  "response_construct sha request status candidate_wir authority_wir final_byte_plan diagnostics =
     (let limits = rq_limits request in
      rbind (check_length (length candidate_wir) (max_candidate_wir_bytes limits) ''candidate WIR bytes'') (\<lambda>_.
      rbind (check_length (length authority_wir) (max_authority_wir_bytes limits) ''AuthorityWIR bytes'') (\<lambda>_.
      rbind (check_length (length final_byte_plan) (max_final_byte_plan_bytes limits) ''final-byte plan bytes'') (\<lambda>_.
      rbind (validate_diagnostics diagnostics (max_diagnostic_bytes limits)) (\<lambda>_.
      rbind (request_sha256 sha request) (\<lambda>digest.
      let response = \<lparr>rs_request_sha256 = digest, rs_limits = limits, rs_status = status,
            rs_candidate_wir = candidate_wir, rs_authority_wir = authority_wir,
            rs_final_byte_plan = final_byte_plan, rs_diagnostics = diagnostics\<rparr>
      in rbind (response_encode response) (\<lambda>_. Ok response)))))))"

definition response_candidate :: "(bytes \<Rightarrow> bytes) \<Rightarrow> WorkerRequest \<Rightarrow> bytes \<Rightarrow> bytes \<Rightarrow> bytes \<Rightarrow> bytes
    \<Rightarrow> (ProtocolError, WorkerResponse) result" where
  "response_candidate sha request candidate_wir authority_wir final_byte_plan diagnostics =
     (if candidate_wir = [] then Err (EmptyField ''candidate WIR'')
      else if authority_wir = [] then Err (EmptyField ''AuthorityWIR'')
      else if final_byte_plan = [] then Err (EmptyField ''final-byte plan'')
      else response_construct sha request Candidate candidate_wir authority_wir final_byte_plan diagnostics)"

definition response_rejected :: "(bytes \<Rightarrow> bytes) \<Rightarrow> WorkerRequest \<Rightarrow> bytes
    \<Rightarrow> (ProtocolError, WorkerResponse) result" where
  "response_rejected sha request diagnostics =
     (if diagnostics = [] then Err (EmptyField ''rejection diagnostics'')
      else response_construct sha request Rejected [] [] [] diagnostics)"

text \<open>The last steps of \<open>decode_response\<close>: the response is rebuilt by its constructor.\<close>

definition rebuild_response :: "(bytes \<Rightarrow> bytes) \<Rightarrow> WorkerRequest \<Rightarrow> ResponseStatus \<Rightarrow> bytes \<Rightarrow> bytes \<Rightarrow> bytes
    \<Rightarrow> bytes \<Rightarrow> (ProtocolError, WorkerResponse) result" where
  "rebuild_response sha request status candidate_wir authority_wir final_byte_plan diagnostics =
     (case status of
        Candidate \<Rightarrow> response_candidate sha request candidate_wir authority_wir final_byte_plan diagnostics
      | Rejected \<Rightarrow>
          if candidate_wir \<noteq> [] \<or> authority_wir \<noteq> [] \<or> final_byte_plan \<noteq> []
          then Err InvalidResponseShape
          else response_rejected sha request diagnostics)"

definition decode_response :: "(bytes \<Rightarrow> bytes) \<Rightarrow> bytes \<Rightarrow> WorkerRequest \<Rightarrow> (ProtocolError, WorkerResponse) result" where
  "decode_response sha bs expected_request =
     (let limits = rq_limits expected_request;
          maximum = min (unat (max_response_bytes limits)) (unat MAX_RESPONSE_BYTES) in
     rbind (payload bs maximum RESPONSE_MAGIC WORKER_PROTOCOL_SCHEMA_V2 RESPONSE_KIND) (\<lambda>body.
     rbind (in_array_32 body) (\<lambda>(digest, input).
     rbind (request_sha256 sha expected_request) (\<lambda>expected.
     if digest \<noteq> expected then Err RequestMismatch
     else rbind (in_u8 input) (\<lambda>(code, input).
     rbind (status_decode code) (\<lambda>status.
     rbind (in_take 3 input) (\<lambda>(reserved, input).
     if reserved \<noteq> replicate 3 0 then Err NonZeroReserved
     else rbind (in_bytes (unat (max_candidate_wir_bytes limits)) ''candidate WIR bytes'' input) (\<lambda>(candidate_wir, input).
     rbind (in_bytes (unat (max_authority_wir_bytes limits)) ''AuthorityWIR bytes'' input) (\<lambda>(authority_wir, input).
     rbind (in_bytes (unat (max_final_byte_plan_bytes limits)) ''final-byte plan bytes'' input) (\<lambda>(final_byte_plan, input).
     rbind (in_bytes (unat (max_diagnostic_bytes limits)) ''diagnostic bytes'' input) (\<lambda>(diagnostics, input).
     rbind (in_finish input) (\<lambda>_.
     if \<not> is_utf8 diagnostics then Err InvalidUtf8
     else rbind (rebuild_response sha expected_request status candidate_wir authority_wir final_byte_plan diagnostics) (\<lambda>response.
     if rs_request_sha256 response \<noteq> digest then Err RequestMismatch
     else rbind (response_encode response) (\<lambda>encoded.
     if encoded \<noteq> bs then Err NonCanonical
     else Ok response))))))))))))))"

section \<open>Well-formed responses\<close>

definition response_shape :: "WorkerResponse \<Rightarrow> bool" where
  "response_shape r \<longleftrightarrow>
     (case rs_status r of
        Candidate \<Rightarrow> rs_candidate_wir r \<noteq> [] \<and> rs_authority_wir r \<noteq> [] \<and> rs_final_byte_plan r \<noteq> []
      | Rejected \<Rightarrow> rs_candidate_wir r = [] \<and> rs_authority_wir r = [] \<and> rs_final_byte_plan r = []
          \<and> rs_diagnostics r \<noteq> [])"

definition response_within :: "WorkerLimits \<Rightarrow> WorkerResponse \<Rightarrow> bool" where
  "response_within l r \<longleftrightarrow>
     length (rs_candidate_wir r) \<le> unat (max_candidate_wir_bytes l)
     \<and> length (rs_authority_wir r) \<le> unat (max_authority_wir_bytes l)
     \<and> length (rs_final_byte_plan r) \<le> unat (max_final_byte_plan_bytes l)
     \<and> length (rs_diagnostics r) \<le> unat (max_diagnostic_bytes l)
     \<and> \<not> list_ex forbidden_diagnostic_character (str_chars (rs_diagnostics r))"

definition response_ok :: "(bytes \<Rightarrow> bytes) \<Rightarrow> WorkerRequest \<Rightarrow> WorkerResponse \<Rightarrow> bool" where
  "response_ok sha rq r \<longleftrightarrow> response_shape r \<and> response_within (rq_limits rq) r
     \<and> rs_limits r = rq_limits rq \<and> request_sha256 sha rq = Inr (rs_request_sha256 r)
     \<and> (\<exists>bs. response_encode r = Inr bs)"

lemma status_decode_Ok: "status_decode v = Inr s \<longleftrightarrow> v = status_u8 s"
  by (cases s) (auto simp: status_decode_def)

interpretation status_codes: coding status_u8 "\<lambda>v. case status_decode v of Inl _ \<Rightarrow> None | Inr t \<Rightarrow> Some t"
proof unfold_locales
  show "(case status_decode (status_u8 t) of Inl _ \<Rightarrow> None | Inr t \<Rightarrow> Some t) = Some t" for t
  proof -
    have "status_decode (status_u8 t) = Inr t" by (simp add: status_decode_Ok)
    then show ?thesis by simp
  qed
qed (auto simp: status_decode_Ok split: sum.splits)

lemma check_length_Ok: "check_length n m f = Inr u \<longleftrightarrow> n \<le> unat m"
  by (simp add: check_length_def)

lemma validate_diagnostics_Ok: "validate_diagnostics v m = Inr u \<longleftrightarrow>
    length v \<le> unat m \<and> \<not> list_ex forbidden_diagnostic_character (str_chars v)"
  by (auto simp: validate_diagnostics_def result_simps check_length_Ok)

lemma response_construct_Ok: "response_construct sha rq st c a p d = Inr r \<longleftrightarrow>
    rs_status r = st \<and> rs_candidate_wir r = c \<and> rs_authority_wir r = a \<and> rs_final_byte_plan r = p
    \<and> rs_diagnostics r = d \<and> rs_limits r = rq_limits rq \<and> response_within (rq_limits rq) r
    \<and> request_sha256 sha rq = Inr (rs_request_sha256 r) \<and> (\<exists>bs. response_encode r = Inr bs)"
    (is "?L \<longleftrightarrow> ?R")
proof
  assume ?L
  then show ?R
    unfolding response_construct_def Let_def
    by (elim rbind_OkE) (auto simp: check_length_Ok validate_diagnostics_Ok response_within_def)
next
  assume ?R
  then show ?L
    by (cases r) (auto simp: response_construct_def Let_def check_length_def validate_diagnostics_def
        response_within_def)
qed

lemma rebuild_response_Ok: "rebuild_response sha rq st c a p d = Inr r \<longleftrightarrow>
    rs_status r = st \<and> rs_candidate_wir r = c \<and> rs_authority_wir r = a \<and> rs_final_byte_plan r = p
    \<and> rs_diagnostics r = d \<and> response_ok sha rq r"
  by (cases st) (auto simp: rebuild_response_def response_candidate_def response_rejected_def
      response_construct_Ok response_ok_def response_shape_def)

definition response_body :: "WorkerResponse \<Rightarrow> bytes" where
  "response_body r = rs_request_sha256 r @ put_u8 (status_u8 (rs_status r)) @ replicate 3 0
     @ (put_u32 (word_of_nat (length (rs_candidate_wir r))) @ rs_candidate_wir r)
     @ (put_u32 (word_of_nat (length (rs_authority_wir r))) @ rs_authority_wir r)
     @ (put_u32 (word_of_nat (length (rs_final_byte_plan r))) @ rs_final_byte_plan r)
     @ (put_u32 (word_of_nat (length (rs_diagnostics r))) @ rs_diagnostics r)"

lemma response_encode_Ok: "response_encode r = Inr bs \<longleftrightarrow>
    length (rs_candidate_wir r) < 2 ^ 32 \<and> length (rs_authority_wir r) < 2 ^ 32
    \<and> length (rs_final_byte_plan r) < 2 ^ 32 \<and> length (rs_diagnostics r) < 2 ^ 32
    \<and> frame RESPONSE_MAGIC WORKER_PROTOCOL_SCHEMA_V2 RESPONSE_KIND (response_body r) = Inr bs
    \<and> length bs \<le> min (unat (max_response_bytes (rs_limits r))) (unat MAX_RESPONSE_BYTES)"
    (is "_ \<longleftrightarrow> ?R")
proof
  assume "response_encode r = Inr bs"
  then show ?R
    unfolding response_encode_def
    by (elim rbind_OkE if_Err_OkE) (simp add: put_bytes_Ok response_body_def)
next
  assume R: ?R
  then have "put_bytes (rs_candidate_wir r) f = Inr (put_u32 (word_of_nat (length (rs_candidate_wir r))) @ rs_candidate_wir r)"
    "put_bytes (rs_authority_wir r) f = Inr (put_u32 (word_of_nat (length (rs_authority_wir r))) @ rs_authority_wir r)"
    "put_bytes (rs_final_byte_plan r) f = Inr (put_u32 (word_of_nat (length (rs_final_byte_plan r))) @ rs_final_byte_plan r)"
    "put_bytes (rs_diagnostics r) f = Inr (put_u32 (word_of_nat (length (rs_diagnostics r))) @ rs_diagnostics r)" for f
    by (simp_all only: put_bytes_Ok simp_thms)
  with R show "response_encode r = Inr bs"
    unfolding response_encode_def by (simp add: response_body_def)
qed

lemma decode_response_frame:
  assumes ok: "response_ok sha rq r" and sha: "\<And>x. length (sha x) = 32"
    and utf8: "is_utf8 (rs_diagnostics r)" and enc: "response_encode r = Inr bs"
  shows "decode_response sha bs rq = Inr r"
proof -
  let ?l = "rq_limits rq"
  from ok have lim: "rs_limits r = ?l" and w: "response_within ?l r"
    and dig: "request_sha256 sha rq = Inr (rs_request_sha256 r)" by (simp_all add: response_ok_def)
  have pl: "payload bs (min (unat (max_response_bytes ?l)) (unat MAX_RESPONSE_BYTES)) RESPONSE_MAGIC
      WORKER_PROTOCOL_SCHEMA_V2 RESPONSE_KIND = Inr (response_body r)"
    using enc lim by (simp add: payload_Ok response_encode_Ok)
  from dig obtain e where "sha e = rs_request_sha256 r"
    by (auto simp: request_sha256_def result_simps)
  then have d32: "length (rs_request_sha256 r) = 32" using sha[of e] by simp
  from enc have small: "length (rs_candidate_wir r) < 2 ^ 32" "length (rs_authority_wir r) < 2 ^ 32"
    "length (rs_final_byte_plan r) < 2 ^ 32" "length (rs_diagnostics r) < 2 ^ 32"
    by (simp_all only: response_encode_Ok)
  have st: "status_decode (status_u8 (rs_status r)) = Inr (rs_status r)" by (simp add: status_decode_Ok)
  have fields: "in_bytes (unat (max_candidate_wir_bytes ?l)) f
        (put_u32 (word_of_nat (length (rs_candidate_wir r))) @ rs_candidate_wir r @ rest) = Inr (rs_candidate_wir r, rest)"
    "in_bytes (unat (max_authority_wir_bytes ?l)) f
        (put_u32 (word_of_nat (length (rs_authority_wir r))) @ rs_authority_wir r @ rest) = Inr (rs_authority_wir r, rest)"
    "in_bytes (unat (max_final_byte_plan_bytes ?l)) f
        (put_u32 (word_of_nat (length (rs_final_byte_plan r))) @ rs_final_byte_plan r @ rest) = Inr (rs_final_byte_plan r, rest)"
    "in_bytes (unat (max_diagnostic_bytes ?l)) f
        (put_u32 (word_of_nat (length (rs_diagnostics r))) @ rs_diagnostics r @ rest) = Inr (rs_diagnostics r, rest)"
    for f rest
    using w small bytes_codec.get_put by (simp_all add: response_within_def)
  have last: "in_bytes (unat (max_diagnostic_bytes ?l)) f
        (put_u32 (word_of_nat (length (rs_diagnostics r))) @ rs_diagnostics r) = Inr (rs_diagnostics r, [])" for f
    using fields(4)[of f "[]"] by simp
  have rb: "rebuild_response sha rq (rs_status r) (rs_candidate_wir r) (rs_authority_wir r)
      (rs_final_byte_plan r) (rs_diagnostics r) = Inr r"
    using ok by (simp add: rebuild_response_Ok)
  show ?thesis
    unfolding decode_response_def Let_def pl rbind_Ok
    unfolding response_body_def append_assoc
    by (simp add: wire_simps d32 dig st fields last in_finish_def utf8 rb enc)
qed

lemma decode_response_sound:
  assumes dec: "decode_response sha bs rq = Inr r"
  shows "response_ok sha rq r" "is_utf8 (rs_diagnostics r)" "response_encode r = Inr bs"
    "length (rs_request_sha256 r) = 32"
  using dec unfolding decode_response_def Let_def atomize_conj
  by (elim rbind_pair_OkE rbind_OkE if_Err_OkE) (auto simp: rebuild_response_Ok array_codec.get_iff)

section \<open>Properties\<close>

definition sample_response :: WorkerResponse where
  "sample_response = \<lparr>rs_request_sha256 = sample_sha (replicate 182 0), rs_limits = sample_limits, rs_status = Rejected,
     rs_candidate_wir = [], rs_authority_wir = [], rs_final_byte_plan = [], rs_diagnostics = [104, 105]\<rparr>"

lemma sample_sha_request:
  assumes "request_ok sample_sha r"
  shows "request_sha256 sample_sha r = Inr (sample_sha (replicate (180 + length (rq_source_bundle r)) 0))"
proof -
  have "length (request_header r @ request_body_prefix r @ rq_source_bundle r) = 180 + length (rq_source_bundle r)"
    using length_request_parts[OF assms length_sample_sha] by simp
  then have "sample_sha (request_header r @ request_body_prefix r @ rq_source_bundle r)
      = sample_sha (replicate (180 + length (rq_source_bundle r)) 0)" by (simp only: sample_sha_def length_replicate)
  then show ?thesis
    using request_encode_Ok[OF assms length_sample_sha] by (simp add: request_sha256_def)
qed

lemma sample_request_sha: "request_sha256 sample_sha sample_request = Inr (sample_sha (replicate 182 0))"
  using sample_sha_request[OF sample_request_ok] by (simp add: sample_request_def)

definition sample_request' :: WorkerRequest where
  "sample_request' = sample_request\<lparr>rq_source_bundle := [1, 2, 3], rq_source_bundle_sha256 := sample_sha [1, 2, 3]\<rparr>"

lemma sample_request'_sha: "request_sha256 sample_sha sample_request' \<noteq> request_sha256 sample_sha sample_request"
proof -
  have "3 \<le> unat (max_source_bytes sample_limits)" by (simp add: sample_limits_def)
  then have "request_ok sample_sha sample_request'"
    using sample_request_ok by (simp add: request_ok_def sample_request'_def sample_request_def)
  from sample_sha_request[OF this] show ?thesis
    unfolding sample_request_sha by (simp add: sample_sha_def sample_request'_def)
qed

lemma length_sample_response: "length (response_body sample_response) = 54"
  by (simp add: response_body_def sample_response_def sample_sha_def)

lemma sample_response_encodes: "\<exists>bs. response_encode sample_response = Inr bs"
proof -
  let ?bs = "RESPONSE_MAGIC @ put_u16 WORKER_PROTOCOL_SCHEMA_V2 @ put_u8 RESPONSE_KIND @ put_u8 0
    @ put_u32 (word_of_nat (length (response_body sample_response))) @ response_body sample_response"
  have f: "frame RESPONSE_MAGIC WORKER_PROTOCOL_SCHEMA_V2 RESPONSE_KIND (response_body sample_response) = Inr ?bs"
    using length_sample_response by (simp add: frame_Ok)
  have "length ?bs = 70" using length_sample_response by (simp add: RESPONSE_MAGIC_def)
  with f have "response_encode sample_response = Inr ?bs"
    unfolding response_encode_Ok
    by (simp add: sample_response_def sample_limits_def MAX_RESPONSE_BYTES_def)
  then show ?thesis ..
qed

lemma sample_response_rejected:
  "response_rejected sample_sha sample_request [104, 105] = Inr sample_response"
proof -
  have "list_ex forbidden_diagnostic_character (str_chars [104, 105]) = False" by code_simp
  then have "response_within sample_limits sample_response"
    by (simp add: response_within_def sample_response_def sample_limits_def)
  moreover have "rq_limits sample_request = sample_limits" by (simp add: sample_request_def)
  ultimately show ?thesis
    using sample_response_encodes sample_request_sha
    by (simp add: response_rejected_def response_construct_Ok sample_response_def)
qed

lemma sample_response_decodes: "\<exists>bs. decode_response sample_sha bs sample_request = Inr sample_response"
proof -
  obtain bs where e: "response_encode sample_response = Inr bs" using sample_response_encodes by blast
  have "rs_status sample_response = Rejected" "rs_diagnostics sample_response \<noteq> []"
    "rs_candidate_wir sample_response = []" "rs_authority_wir sample_response = []"
    "rs_final_byte_plan sample_response = []" by (simp_all add: sample_response_def)
  then have ok: "response_ok sample_sha sample_request sample_response"
    using sample_response_rejected
    by (simp add: response_rejected_def response_construct_Ok response_ok_def response_shape_def)
  have u: "is_utf8 (rs_diagnostics sample_response)" unfolding sample_response_def by code_simp
  show ?thesis using decode_response_frame[OF ok length_sample_sha u e] ..
qed

text \<open>
  C31: a response that either constructor accepts for a request encodes to a frame that the parent
  decodes, against the same request, to the same response.
\<close>

theorem response_roundtrip:
  assumes "\<And>x. length (sha x) = 32" "is_utf8 diagnostics"
    and "response_candidate sha rq candidate authority plan diagnostics = Inr r
      \<or> response_rejected sha rq diagnostics = Inr r"
  shows "\<exists>bs. response_encode r = Inr bs \<and> decode_response sha bs rq = Inr r"
proof -
  have "response_ok sha rq r \<and> rs_diagnostics r = diagnostics"
    using assms(3) by (auto simp: response_candidate_def response_rejected_def response_construct_Ok
        response_ok_def response_shape_def split: if_splits)
  moreover from this obtain bs where "response_encode r = Inr bs" by (auto simp: response_ok_def)
  ultimately show ?thesis using decode_response_frame[of sha rq r bs] assms(1,2) by blast
qed

theorem response_roundtrip_witness:
  "\<exists>bs. response_encode sample_response = Inr bs
     \<and> decode_response sample_sha bs sample_request = Inr sample_response"
proof (rule response_roundtrip[OF length_sample_sha])
  show "is_utf8 [104, 105]" by code_simp
  show "response_candidate sample_sha sample_request [] [] [] [104, 105] = Inr sample_response
      \<or> response_rejected sample_sha sample_request [104, 105] = Inr sample_response"
    using sample_response_rejected ..
qed

text \<open>
  C14: what the parent accepts is bound and bounded: the response carries the digest of exactly the
  expected request's frame, is either a candidate with all three blobs non-empty or a rejection with
  all three empty and a diagnostic, keeps every field and the whole frame within the request's
  ceilings, and its diagnostics are UTF-8 without control or bidirectional-override characters.
\<close>

theorem decode_response_bound:
  assumes "decode_response sha bs rq = Inr r"
  shows "request_sha256 sha rq = Inr (rs_request_sha256 r) \<and> response_shape r
    \<and> response_within (rq_limits rq) r \<and> is_utf8 (rs_diagnostics r)
    \<and> length bs \<le> unat (max_response_bytes (rq_limits rq)) \<and> response_encode r = Inr bs"
  using decode_response_sound[OF assms] by (auto simp: response_ok_def response_encode_Ok)

theorem decode_response_bound_witness:
  "\<exists>bs. response_shape sample_response \<and> length bs \<le> unat (max_response_bytes (rq_limits sample_request))
     \<and> response_encode sample_response = Inr bs"
proof -
  obtain bs where d: "decode_response sample_sha bs sample_request = Inr sample_response"
    using sample_response_decodes by blast
  from decode_response_bound[OF d] show ?thesis by blast
qed

text \<open>
  a response cannot be replayed: a frame accepted as the answer to one request is refused as the
  answer to any request whose frame has another digest.
\<close>

theorem decode_response_no_replay:
  assumes "decode_response sha bs rq = Inr r" "request_sha256 sha rq \<noteq> request_sha256 sha rq'"
  shows "decode_response sha bs rq' \<noteq> Inr r'"
proof
  assume d': "decode_response sha bs rq' = Inr r'"
  note s = decode_response_sound[OF assms(1)] and s' = decode_response_sound[OF d']
  have dig: "request_sha256 sha rq = Inr (rs_request_sha256 r)" "request_sha256 sha rq' = Inr (rs_request_sha256 r')"
    using s(1) s'(1) by (simp_all add: response_ok_def)
  have "take 32 (response_body r) = take 32 (response_body r')"
    using s(3) s'(3) by (simp add: response_encode_Ok frame_Ok u32_codec.put_inj)
  moreover have "length (rs_request_sha256 r) = 32" "length (rs_request_sha256 r') = 32"
    using s(4) s'(4) by simp_all
  ultimately have "rs_request_sha256 r = rs_request_sha256 r'" by (simp add: response_body_def)
  with dig assms(2) show False by simp
qed

theorem decode_response_no_replay_witness:
  "\<exists>bs. decode_response sample_sha bs sample_request = Inr sample_response
     \<and> decode_response sample_sha bs sample_request' \<noteq> Inr sample_response"
proof -
  obtain bs where d: "decode_response sample_sha bs sample_request = Inr sample_response"
    using sample_response_decodes by blast
  from d decode_response_no_replay[OF d sample_request'_sha[symmetric]] show ?thesis by blast
qed

end
