(* ===== verification/Module_Ast.thy ===== *)
theory Module_Ast
  imports Cap_Kinds
begin

text \<open>
  The part of the syntax tree that the capability analyses read (crates/witchy-syntax/src/ast.rs and
  build_entry.rs): type expressions in full, and the declarations with all their fields except
  expressions (bodies, default values, constants), compile-time payloads and source positions, which
  no analysis of signatures reads. A module is its list of items: the analyses read nothing else.
\<close>

section \<open>Type expressions\<close>

datatype Convention = LetConv | BorrowConv | VarConv | OwnConv

datatype TypeQual = Frozen | Unique | View | BorrowQual string | LegacyBorrow string | BorrowMut string

record CallableQualifiers =
  cq_pure :: bool
  cq_once :: bool

datatype Type =
    Named string "Type list"
  | Tuple "Type list"
  | Slice Type
  | RecordCompose Type "(string \<times> Type) list"
  | FnType "Type list" Type "Convention list" CallableQualifiers
  | Qualified TypeQual Type
  | Dyn string "Type list"

section \<open>Declarations\<close>

record Param =
  p_name :: string
  p_ty :: "Type option"
  p_convention :: Convention

record Function =
  f_public :: bool
  f_pure :: bool
  f_comptime_only :: bool
  f_attributes :: "string list"
  f_name :: string
  f_type_params :: "string list"
  f_params :: "Param list"
  f_ret :: "Type option"
  f_bounds :: "(string \<times> string \<times> Type list) list"
  f_is_gen :: bool
  f_is_async :: bool

record Variant =
  v_name :: string
  v_fields :: "Type list"
  v_field_names :: "string list"

record TypeDef =
  t_name :: string
  t_must_consume :: bool
  t_params :: "string list"
  t_variants :: "Variant list"
  t_derives :: "string list"
  t_sealed :: bool
  t_is_capability :: bool
  t_grantable :: bool
  t_packed :: bool
  t_partial_eq_derived :: bool
  t_public_state_derived :: bool

record MethodSig =
  ms_pure :: bool
  ms_name :: string
  ms_type_params :: "string list"
  ms_params :: "Param list"
  ms_ret :: "Type option"

record TraitDef =
  tr_name :: string
  tr_typarams :: "string list"
  tr_supertraits :: "string list"
  tr_methods :: "MethodSig list"

datatype ImplOrigin = SourceImpl | CompilerGenerated

record ImplDef =
  im_origin :: ImplOrigin
  im_trait_name :: "string option"
  im_trait_args :: "Type list"
  im_type_name :: string
  im_target_args :: "Type list"
  im_bounds :: "(string \<times> string \<times> Type list) list"
  im_methods :: "Function list"

datatype Item =
    FunctionItem Function
  | TypeItem TypeDef
  | TraitItem TraitDef
  | ImplItem ImplDef
  | ConstItem string
  | TypeAliasItem string "string list" Type
  | ComptimeItem

type_synonym Module = "Item list"

section \<open>The build entrypoint\<close>

definition is_build_capability_type :: "Type \<Rightarrow> bool" where
  "is_build_capability_type t =
     (case t of
        Named n _ \<Rightarrow> (case kind_from_name n of None \<Rightarrow> False | Some k \<Rightarrow> kind_class k = BuildClass)
      | _ \<Rightarrow> False)"

text \<open>\<open>name.rsplit('.').next()\<close>: what follows the last dot.\<close>

definition name_tail :: "string \<Rightarrow> string" where
  "name_tail s = (case rsplit_once CHR ''.'' s of None \<Rightarrow> s | Some (_, b) \<Rightarrow> b)"

definition is_build_entry :: "Function \<Rightarrow> bool" where
  "is_build_entry f \<longleftrightarrow> name_tail (f_name f) = ''build'' \<and>
     (case f_params f of
        [] \<Rightarrow> False
      | p # _ \<Rightarrow> (case p_ty p of None \<Rightarrow> False | Some t \<Rightarrow> is_build_capability_type t))"

fun build_entrypoint :: "Module \<Rightarrow> Function option" where
  "build_entrypoint [] = None"
| "build_entrypoint (FunctionItem f # items) = (if is_build_entry f then Some f else build_entrypoint items)"
| "build_entrypoint (_ # items) = build_entrypoint items"

end
