(* ===== verification/Cap_Sets.thy ===== *)
theory Cap_Sets
  imports Module_Ast
begin

text \<open>
  Capability sets (crates/witchy-caps/src/capabilities.rs): each demanded capability with the rights
  demanded on it, their union and difference, and the rendering for review. A set denotes the
  facts \<open>(capability, None)\<close> (present) and \<open>(capability, Some right)\<close>; the operations are characterised
  on the facts, which determine a well-formed set.
\<close>

type_synonym Rights = "string btset"
type_synonym CapSet = "(string, Rights) btmap"

section \<open>Operations\<close>

definition host_cap :: "string \<Rightarrow> string option" where
  "host_cap name =
     (case kind_from_name name of
        None \<Rightarrow> None
      | Some k \<Rightarrow> if kind_class k = HostClass then Some (kind_name k) else None)"

definition build_cap :: "string \<Rightarrow> string option" where
  "build_cap name =
     (case kind_from_name name of
        None \<Rightarrow> None
      | Some k \<Rightarrow> if kind_class k = BuildClass then Some (kind_name k) else None)"

definition full_rights :: "string \<Rightarrow> Rights" where
  "full_rights cap =
     (case kind_from_name cap of None \<Rightarrow> [] | Some k \<Rightarrow> bts_of (map right_name (kind_rights k)))"

definition right_marker :: "string \<Rightarrow> string \<Rightarrow> string option" where
  "right_marker cap marker =
     (case kind_from_name cap of None \<Rightarrow> None | Some k \<Rightarrow> map_option right_name (kind_right k marker))"

fun collect_markers :: "string \<Rightarrow> Type list \<Rightarrow> Rights \<Rightarrow> Rights" where
  "collect_markers cap [] r = r"
| "collect_markers cap (Named n _ # args) r =
     collect_markers cap args (case right_marker cap n of None \<Rightarrow> r | Some m \<Rightarrow> bts_insert m r)"
| "collect_markers cap (_ # args) r = collect_markers cap args r"

definition fill_axis :: "CapabilityRight list \<Rightarrow> Rights \<Rightarrow> Rights" where
  "fill_axis axis r =
     (if \<not> list_ex (\<lambda>right. right_name right \<in> set r) axis then bts_extend (map right_name axis) r else r)"

definition rights_from_args :: "string \<Rightarrow> Type list \<Rightarrow> Rights" where
  "rights_from_args cap args =
     (if args = [] then full_rights cap
      else let r = collect_markers cap args [] in
        if cap = ''Net'' then fill_axis NET_TRANSPORT_RIGHTS (fill_axis NET_VERB_RIGHTS r) else r)"

definition add_cap :: "string \<Rightarrow> Rights \<Rightarrow> CapSet \<Rightarrow> CapSet" where
  "add_cap cap rights out = btm_entry cap [] (bts_extend rights) out"

definition merge_into :: "CapSet \<Rightarrow> CapSet \<Rightarrow> CapSet" where
  "merge_into dst src = fold (\<lambda>(cap, rights). add_cap cap rights) src dst"

fun cap_delta :: "CapSet \<Rightarrow> CapSet \<Rightarrow> CapSet \<Rightarrow> CapSet" where
  "cap_delta [] b out = out"
| "cap_delta ((cap, ar) # a) b out =
     (case btm_get b cap of
        None \<Rightarrow> cap_delta a b (btm_insert cap ar out)
      | Some br \<Rightarrow>
          (let extra = bts_difference ar br in
           cap_delta a b (if extra \<noteq> [] then btm_insert cap extra out else out)))"

definition show_axis :: "CapabilityRight list \<Rightarrow> Rights \<Rightarrow> string list" where
  "show_axis axis rights =
     (if \<not> list_all (\<lambda>right. right_name right \<in> set rights) axis
      then filter (\<lambda>n. n \<in> set rights) (map right_name axis) else [])"

definition show_cap :: "string \<Rightarrow> Rights \<Rightarrow> string" where
  "show_cap name rights =
     (if rights = [] \<or> rights = full_rights name then name
      else if name = ''Net'' then
        ''Net['' @ join_with '', '' (show_axis NET_VERB_RIGHTS rights @ show_axis NET_TRANSPORT_RIGHTS rights) @ '']''
      else name @ ''['' @ join_with '', '' rights @ '']'')"

definition show_caps :: "CapSet \<Rightarrow> string" where
  "show_caps caps = (if caps = [] then ''(none)'' else join_with '', '' (map (\<lambda>(n, r). show_cap n r) caps))"

section \<open>Facts\<close>

type_synonym cap_fact = "string \<times> string option"

definition rights_facts :: "string \<Rightarrow> string set \<Rightarrow> cap_fact set" where
  "rights_facts cap rights = insert (cap, None) ((\<lambda>r. (cap, Some r)) ` rights)"

definition cap_facts :: "CapSet \<Rightarrow> cap_fact set" where
  "cap_facts cs = (\<Union>e \<in> set cs. rights_facts (fst e) (set (snd e)))"

definition capset_ok :: "CapSet \<Rightarrow> bool" where
  "capset_ok cs \<longleftrightarrow> btm_ok cs \<and> (\<forall>e \<in> set cs. bts_ok (snd e))"

lemma cap_facts_get: "btm_ok cs \<Longrightarrow>
    cap_facts cs = (\<Union>cap \<in> dom (btm_get cs). rights_facts cap (set (the (btm_get cs cap))))"
  using btm.entries_get[of cs] unfolding cap_facts_def by (force simp: dom_def)

lemma cap_facts_None: "(cap, None) \<in> cap_facts cs \<longleftrightarrow> btm_get cs cap \<noteq> None"
  by (force simp: cap_facts_def rights_facts_def map_of_eq_None_iff)

lemma cap_facts_Some: "btm_ok cs \<Longrightarrow>
    (cap, Some r) \<in> cap_facts cs \<longleftrightarrow> (\<exists>rs. btm_get cs cap = Some rs \<and> r \<in> set rs)"
  unfolding cap_facts_get by (auto simp: rights_facts_def dom_def)

lemma cap_facts_Nil [simp]: "cap_facts [] = {}"
  by (simp add: cap_facts_def)

lemma capset_ok_Nil [simp]: "capset_ok []"
  by (simp add: capset_ok_def)

lemma capset_ok_get: "capset_ok cs \<Longrightarrow> btm_get cs cap = Some rs \<Longrightarrow> bts_ok rs"
  using btm.entries_get[of cs cap rs] by (force simp: capset_ok_def)

lemma capset_okI: "btm_ok cs \<Longrightarrow> (\<And>cap rs. btm_get cs cap = Some rs \<Longrightarrow> bts_ok rs) \<Longrightarrow> capset_ok cs"
  using btm.entries_get[of cs] unfolding capset_ok_def by fastforce

text \<open>A well-formed set is determined by its facts.\<close>

lemma capset_eq_iff:
  assumes "capset_ok a" "capset_ok b"
  shows "a = b \<longleftrightarrow> cap_facts a = cap_facts b"
proof
  assume eq: "cap_facts a = cap_facts b"
  have ok: "btm_ok a" "btm_ok b" using assms by (simp_all add: capset_ok_def)
  have "btm_get a cap = btm_get b cap" for cap
  proof (cases "btm_get a cap")
    case None
    then show ?thesis using eq cap_facts_None[of cap a] cap_facts_None[of cap b] by simp
  next
    case (Some ra)
    with eq cap_facts_None[of cap a] cap_facts_None[of cap b] obtain rb where rb: "btm_get b cap = Some rb"
      by auto
    have "r \<in> set ra \<longleftrightarrow> r \<in> set rb" for r
      using eq cap_facts_Some[OF ok(1), of cap r] cap_facts_Some[OF ok(2), of cap r] Some rb by simp
    then have "ra = rb"
      using bts_eq_iff[of ra rb] capset_ok_get[OF assms(1) Some] capset_ok_get[OF assms(2) rb] by blast
    with Some rb show ?thesis by simp
  qed
  with ok show "a = b" by (simp add: btm_eq_iff fun_eq_iff)
qed simp

lemma cap_facts_add [simp]:
  assumes "btm_ok cs"
  shows "cap_facts (add_cap cap rights cs) = cap_facts cs \<union> rights_facts cap (set rights)"
proof -
  have ok: "btm_ok (add_cap cap rights cs)" using assms by (simp add: add_cap_def btm_ok_entry)
  have get: "btm_get (add_cap cap rights cs) = (btm_get cs)(cap \<mapsto>
      bts_extend rights (case btm_get cs cap of None \<Rightarrow> [] | Some v \<Rightarrow> v))"
    by (simp add: add_cap_def btm_get_entry[OF assms])
  have "(c, x) \<in> cap_facts (add_cap cap rights cs) \<longleftrightarrow> (c, x) \<in> cap_facts cs \<union> rights_facts cap (set rights)" for c x
    by (cases x) (auto simp: cap_facts_None cap_facts_Some[OF ok] cap_facts_Some[OF assms] get
        rights_facts_def split: option.splits)
  then show ?thesis by (metis subset_antisym subsetI surj_pair)
qed

lemma capset_ok_add: "capset_ok cs \<Longrightarrow> capset_ok (add_cap cap rights cs)"
proof (rule capset_okI)
  assume ok: "capset_ok cs"
  then have b: "btm_ok cs" by (simp add: capset_ok_def)
  then show "btm_ok (add_cap cap rights cs)" by (simp add: add_cap_def btm_ok_entry)
  fix c rs assume "btm_get (add_cap cap rights cs) c = Some rs"
  then show "bts_ok rs"
    using capset_ok_get[OF ok] by (auto simp: add_cap_def btm_get_entry[OF b] bts_ok_extend
        split: option.splits if_splits)
qed

lemma cap_facts_Cons: "cap_facts (e # cs) = rights_facts (fst e) (set (snd e)) \<union> cap_facts cs"
  by (simp add: cap_facts_def)

lemma merge_into_step: "capset_ok dst \<Longrightarrow> capset_ok (fold (\<lambda>(cap, rights). add_cap cap rights) src dst)
    \<and> cap_facts (fold (\<lambda>(cap, rights). add_cap cap rights) src dst) = cap_facts dst \<union> cap_facts src"
proof (induction src arbitrary: dst)
  case (Cons e src)
  obtain cap rights where e: "e = (cap, rights)" by (cases e)
  have "btm_ok dst" using Cons.prems by (simp add: capset_ok_def)
  with Cons.IH[of "add_cap cap rights dst"] Cons.prems show ?case
    by (auto simp: e capset_ok_add cap_facts_Cons)
qed simp

lemma capset_ok_merge [simp]: "capset_ok dst \<Longrightarrow> capset_ok (merge_into dst src)"
  by (simp add: merge_into_def merge_into_step)

lemma cap_facts_merge [simp]: "capset_ok dst \<Longrightarrow> cap_facts (merge_into dst src) = cap_facts dst \<union> cap_facts src"
  by (simp add: merge_into_def merge_into_step)

lemma cap_facts_empty_iff: "cap_facts cs = {} \<longleftrightarrow> cs = []"
  by (cases cs) (auto simp: cap_facts_def rights_facts_def)

section \<open>Differences\<close>

lemma cap_delta_Nil_acc: "cap_delta a b out = [] \<longleftrightarrow> out = [] \<and>
    (\<forall>e \<in> set a. \<exists>br. btm_get b (fst e) = Some br \<and> set (snd e) \<subseteq> set br)"
proof (induction a b out rule: cap_delta.induct)
  case (2 cap ar a b out)
  have ins: "btm_insert k v m \<noteq> []" for k :: string and v :: Rights and m
    by (cases m) auto
  have "bts_difference ar br = [] \<longleftrightarrow> set ar \<subseteq> set br" for br
    by (auto simp: bts_difference_def filter_empty_conv)
  with 2 ins show ?case by (auto simp: Let_def split: option.splits if_splits)
qed simp

lemma rights_facts_subset: "btm_ok b \<Longrightarrow>
    rights_facts cap R \<subseteq> cap_facts b \<longleftrightarrow> (\<exists>br. btm_get b cap = Some br \<and> R \<subseteq> set br)"
  by (cases "btm_get b cap") (auto simp: rights_facts_def cap_facts_None cap_facts_Some)

lemma cap_delta_empty_iff: "btm_ok b \<Longrightarrow> cap_delta a b [] = [] \<longleftrightarrow> cap_facts a \<subseteq> cap_facts b"
  unfolding cap_delta_Nil_acc cap_facts_def[of a] UN_subset_iff by (simp add: rights_facts_subset)

section \<open>Names and rights\<close>

lemma host_cap_Some: "host_cap n = Some h \<longleftrightarrow> h = n \<and> is_host_capability n"
  using kind_from_name_sound by (auto simp: host_cap_def is_host_capability_def split: option.splits)

lemma build_cap_Some: "build_cap n = Some h \<longleftrightarrow> h = n \<and> is_build_capability n"
  using kind_from_name_sound by (auto simp: build_cap_def is_build_capability_def split: option.splits)

lemma right_marker_Some: "right_marker cap n = Some m \<Longrightarrow> m = n \<and> m \<in> set (full_rights cap)"
  by (auto simp: right_marker_def full_rights_def kind_right_Some_iff split: option.splits)

lemma collect_markers_set: "set (collect_markers cap args r) =
    set r \<union> {m. \<exists>as. Named m as \<in> set args \<and> right_marker cap m = Some m}"
proof (induction cap args r rule: collect_markers.induct)
  case (2 cap n as args r)
  then show ?case by (cases "right_marker cap n") (auto dest: right_marker_Some)
qed auto

lemma bts_ok_collect: "bts_ok r \<Longrightarrow> bts_ok (collect_markers cap args r)"
  by (induction cap args r rule: collect_markers.induct) (simp_all add: bts_ok_insert split: option.splits)

lemma net_full: "full_rights ''Net'' = bts_of (map right_name NET_RIGHTS)"
  using kind_from_name_name[of Net] by (simp add: full_rights_def)

text \<open>The rights a type annotation confers are rights of its capability.\<close>

lemma rights_from_args_subset: "set (rights_from_args cap args) \<subseteq> set (full_rights cap)"
proof -
  have c: "set (collect_markers cap args []) \<subseteq> set (full_rights cap)"
    using right_marker_Some by (auto simp: collect_markers_set)
  have f: "set (fill_axis axis r) \<subseteq> set (full_rights ''Net'')"
    if "set r \<subseteq> set (full_rights ''Net'')" "set axis \<subseteq> set NET_RIGHTS" for axis r
    using that by (auto simp: fill_axis_def net_full)
  have "set NET_VERB_RIGHTS \<subseteq> set NET_RIGHTS" "set NET_TRANSPORT_RIGHTS \<subseteq> set NET_RIGHTS"
    by (auto simp: rights_consts)
  then have "set (fill_axis NET_TRANSPORT_RIGHTS (fill_axis NET_VERB_RIGHTS (collect_markers ''Net'' args [])))
      \<subseteq> set (full_rights ''Net'')" if "cap = ''Net''" using f c that by simp
  with c show ?thesis unfolding rights_from_args_def Let_def by auto
qed

end
