(* ===== verification/Taint.thy ===== *)
theory Taint
  imports Cap_Sets
begin

text \<open>
  Which host authority a value of a type carries (crates/witchy-caps/src/capabilities.rs, \<open>caps_in\<close> and
  \<open>taint_map\<close>). The code computes, by iterating to a fixpoint over all type declarations, the
  authority of every user type, and reads the authority of a type expression off that map. The
  specification is the inductive relation \<open>carries\<close>. The loop is shown to end, and the map it ends
  with to be exact.
\<close>

section \<open>The analysis\<close>

text \<open>The map is a \<open>HashMap\<close> that is only read by key.\<close>

type_synonym taint = "(string, CapSet) btmap"

primrec caps_in :: "Type \<Rightarrow> taint \<Rightarrow> CapSet \<Rightarrow> CapSet"
  and caps_in_list :: "Type list \<Rightarrow> taint \<Rightarrow> CapSet \<Rightarrow> CapSet"
  and caps_in_fields :: "(string \<times> Type) list \<Rightarrow> taint \<Rightarrow> CapSet \<Rightarrow> CapSet"
  and caps_in_field :: "string \<times> Type \<Rightarrow> taint \<Rightarrow> CapSet \<Rightarrow> CapSet" where
  "caps_in (Qualified q inner) taint out = caps_in inner taint out"
| "caps_in (Slice inner) taint out = caps_in inner taint out"
| "caps_in (Named name args) taint out =
     (let out1 = (case host_cap name of None \<Rightarrow> out | Some h \<Rightarrow> add_cap h (rights_from_args h args) out);
          out2 = (case btm_get taint name of None \<Rightarrow> out1 | Some caps \<Rightarrow> merge_into out1 caps)
      in caps_in_list args taint out2)"
| "caps_in (Dyn head args) taint out = caps_in_list args taint out"
| "caps_in (Tuple ts) taint out = caps_in_list ts taint out"
| "caps_in (RecordCompose base flds) taint out = caps_in_fields flds taint (caps_in base taint out)"
| "caps_in (FnType params ret conventions quals) taint out = out"
| "caps_in_list [] taint out = out"
| "caps_in_list (t # ts) taint out = caps_in_list ts taint (caps_in t taint out)"
| "caps_in_fields [] taint out = out"
| "caps_in_fields (f # fs) taint out = caps_in_fields fs taint (caps_in_field f taint out)"
| "caps_in_field (label, t) taint out = caps_in t taint out"

primrec build_caps_in :: "Type \<Rightarrow> CapSet \<Rightarrow> CapSet"
  and build_caps_in_list :: "Type list \<Rightarrow> CapSet \<Rightarrow> CapSet"
  and build_caps_in_fields :: "(string \<times> Type) list \<Rightarrow> CapSet \<Rightarrow> CapSet"
  and build_caps_in_field :: "string \<times> Type \<Rightarrow> CapSet \<Rightarrow> CapSet" where
  "build_caps_in (Qualified q inner) out = build_caps_in inner out"
| "build_caps_in (Slice inner) out = build_caps_in inner out"
| "build_caps_in (Named name args) out =
     build_caps_in_list args (case build_cap name of None \<Rightarrow> out | Some b \<Rightarrow> add_cap b [] out)"
| "build_caps_in (Dyn head args) out = build_caps_in_list args out"
| "build_caps_in (Tuple ts) out = build_caps_in_list ts out"
| "build_caps_in (RecordCompose base flds) out = build_caps_in_fields flds (build_caps_in base out)"
| "build_caps_in (FnType params ret conventions quals) out = out"
| "build_caps_in_list [] out = out"
| "build_caps_in_list (t # ts) out = build_caps_in_list ts (build_caps_in t out)"
| "build_caps_in_fields [] out = out"
| "build_caps_in_fields (f # fs) out = build_caps_in_fields fs (build_caps_in_field f out)"
| "build_caps_in_field (label, t) out = build_caps_in t out"

definition type_fields :: "TypeDef \<Rightarrow> Type list" where
  "type_fields t = concat (map v_fields (t_variants t))"

fun taint_init :: "Module \<Rightarrow> taint \<Rightarrow> taint" where
  "taint_init [] m = m"
| "taint_init (TypeItem t # items) m = taint_init items (btm_entry (t_name t) [] id m)"
| "taint_init (_ # items) m = taint_init items m"

text \<open>One pass over the items, with the \<open>changed\<close> flag.\<close>

fun taint_round :: "Module \<Rightarrow> taint \<Rightarrow> bool \<Rightarrow> taint \<times> bool" where
  "taint_round [] m changed = (m, changed)"
| "taint_round (TypeItem t # items) m changed =
     (let acc = caps_in_list (type_fields t) m [];
          before = (case btm_get m (t_name t) of None \<Rightarrow> [] | Some cs \<Rightarrow> cs);
          slot = merge_into before acc
      in taint_round items (btm_insert (t_name t) slot m) (changed \<or> slot \<noteq> before))"
| "taint_round (_ # items) m changed = taint_round items m changed"

text \<open>The loop as written: \<open>None\<close> would be a loop that does not end.\<close>

partial_function (option) taint_loop :: "Module \<Rightarrow> taint \<Rightarrow> taint option" where
  "taint_loop items m =
     (case taint_round items m False of
        (m', changed) \<Rightarrow> if \<not> changed then Some m' else taint_loop items m')"

declare taint_loop.simps [code]

definition taint_map :: "Module \<Rightarrow> taint option" where
  "taint_map items = taint_loop items (taint_init items [])"

section \<open>The specification\<close>

inductive carries :: "Module \<Rightarrow> Type \<Rightarrow> cap_fact \<Rightarrow> bool" for items :: Module where
  host: "is_host_capability n \<Longrightarrow> f \<in> rights_facts n (set (rights_from_args n args)) \<Longrightarrow>
    carries items (Named n args) f"
| decl: "TypeItem t \<in> set items \<Longrightarrow> field \<in> set (type_fields t) \<Longrightarrow> carries items field f \<Longrightarrow>
    carries items (Named (t_name t) args) f"
| arg: "a \<in> set args \<Longrightarrow> carries items a f \<Longrightarrow> carries items (Named n args) f"
| dyn: "a \<in> set args \<Longrightarrow> carries items a f \<Longrightarrow> carries items (Dyn n args) f"
| tuple: "a \<in> set ts \<Longrightarrow> carries items a f \<Longrightarrow> carries items (Tuple ts) f"
| slice: "carries items a f \<Longrightarrow> carries items (Slice a) f"
| qual: "carries items a f \<Longrightarrow> carries items (Qualified q a) f"
| base: "carries items b f \<Longrightarrow> carries items (RecordCompose b flds) f"
| label: "(l, a) \<in> set flds \<Longrightarrow> carries items a f \<Longrightarrow> carries items (RecordCompose b flds) f"

inductive_simps carries_simps:
  "carries items (Named n args) f" "carries items (Tuple ts) f" "carries items (Slice a) f"
  "carries items (Qualified q a) f" "carries items (RecordCompose b flds) f"
  "carries items (Dyn n args) f" "carries items (FnType ps r cs q) f"

section \<open>The facts of a type under a map\<close>

type_synonym tenv = "string \<Rightarrow> cap_fact set"

definition tenv_of :: "taint \<Rightarrow> tenv" where
  "tenv_of m n = (case btm_get m n of None \<Rightarrow> {} | Some cs \<Rightarrow> cap_facts cs)"

definition taint_ok :: "taint \<Rightarrow> bool" where
  "taint_ok m \<longleftrightarrow> btm_ok m \<and> (\<forall>n cs. btm_get m n = Some cs \<longrightarrow> capset_ok cs)"

definition host_facts :: "string \<Rightarrow> Type list \<Rightarrow> cap_fact set" where
  "host_facts n args = (if is_host_capability n then rights_facts n (set (rights_from_args n args)) else {})"

primrec type_facts :: "tenv \<Rightarrow> Type \<Rightarrow> cap_fact set"
  and list_facts :: "tenv \<Rightarrow> Type list \<Rightarrow> cap_fact set"
  and fields_facts :: "tenv \<Rightarrow> (string \<times> Type) list \<Rightarrow> cap_fact set"
  and field_facts :: "tenv \<Rightarrow> string \<times> Type \<Rightarrow> cap_fact set" where
  "type_facts T (Qualified q a) = type_facts T a"
| "type_facts T (Slice a) = type_facts T a"
| "type_facts T (Named n args) = host_facts n args \<union> T n \<union> list_facts T args"
| "type_facts T (Dyn n args) = list_facts T args"
| "type_facts T (Tuple ts) = list_facts T ts"
| "type_facts T (RecordCompose b flds) = type_facts T b \<union> fields_facts T flds"
| "type_facts T (FnType ps r cs q) = {}"
| "list_facts T [] = {}"
| "list_facts T (t # ts) = type_facts T t \<union> list_facts T ts"
| "fields_facts T [] = {}"
| "fields_facts T (f # fs) = field_facts T f \<union> fields_facts T fs"
| "field_facts T (l, t) = type_facts T t"

lemma list_facts_UN: "list_facts T ts = (\<Union>a \<in> set ts. type_facts T a)"
  by (induction ts) auto

lemma fields_facts_UN: "fields_facts T fs = (\<Union>p \<in> set fs. type_facts T (snd p))"
  by (induction fs) auto

lemma named_base_facts:
  assumes "capset_ok out"
  shows "capset_ok (case btm_get m n of None \<Rightarrow> (case host_cap n of None \<Rightarrow> out | Some h \<Rightarrow> add_cap h (rights_from_args h args) out)
        | Some caps \<Rightarrow> merge_into (case host_cap n of None \<Rightarrow> out | Some h \<Rightarrow> add_cap h (rights_from_args h args) out) caps)
    \<and> cap_facts (case btm_get m n of None \<Rightarrow> (case host_cap n of None \<Rightarrow> out | Some h \<Rightarrow> add_cap h (rights_from_args h args) out)
        | Some caps \<Rightarrow> merge_into (case host_cap n of None \<Rightarrow> out | Some h \<Rightarrow> add_cap h (rights_from_args h args) out) caps)
      = cap_facts out \<union> host_facts n args \<union> tenv_of m n"
proof -
  let ?o = "case host_cap n of None \<Rightarrow> out | Some h \<Rightarrow> add_cap h (rights_from_args h args) out"
  have b: "btm_ok out" using assms by (simp add: capset_ok_def)
  have "capset_ok ?o \<and> cap_facts ?o = cap_facts out \<union> host_facts n args"
  proof (cases "host_cap n")
    case None
    then have "\<not> is_host_capability n" using host_cap_Some[of n n] by auto
    with None assms show ?thesis by (simp add: host_facts_def)
  next
    case (Some h)
    then have h: "h = n" "is_host_capability n" by (simp_all add: host_cap_Some)
    from Some assms b show ?thesis unfolding h by (simp add: host_facts_def capset_ok_add h)
  qed
  then show ?thesis by (auto simp: tenv_of_def split: option.splits)
qed

lemma caps_in_list_facts:
  assumes "\<And>a out. a \<in> set ts \<Longrightarrow> capset_ok out \<Longrightarrow> capset_ok (caps_in a m out) \<and>
      cap_facts (caps_in a m out) = cap_facts out \<union> type_facts (tenv_of m) a"
    and "capset_ok out"
  shows "capset_ok (caps_in_list ts m out) \<and>
     cap_facts (caps_in_list ts m out) = cap_facts out \<union> list_facts (tenv_of m) ts"
  using assms by (induction ts arbitrary: out) (auto simp: Un_assoc)

lemma caps_in_fields_facts:
  assumes "\<And>p out. p \<in> set fs \<Longrightarrow> capset_ok out \<Longrightarrow> capset_ok (caps_in (snd p) m out) \<and>
      cap_facts (caps_in (snd p) m out) = cap_facts out \<union> type_facts (tenv_of m) (snd p)"
    and "capset_ok out"
  shows "capset_ok (caps_in_fields fs m out) \<and>
     cap_facts (caps_in_fields fs m out) = cap_facts out \<union> fields_facts (tenv_of m) fs"
  using assms
proof (induction fs arbitrary: out)
  case (Cons f fs)
  obtain l t where f: "f = (l, t)" by (cases f)
  have t: "capset_ok (caps_in t m out)" "cap_facts (caps_in t m out) = cap_facts out \<union> type_facts (tenv_of m) t"
    using Cons.prems(1)[of f out] Cons.prems(2) by (simp_all add: f)
  have "capset_ok (caps_in_fields fs m (caps_in t m out)) \<and> cap_facts (caps_in_fields fs m (caps_in t m out)) =
      cap_facts (caps_in t m out) \<union> fields_facts (tenv_of m) fs"
    using Cons.prems(1) t(1) by (intro Cons.IH) auto
  then show ?case by (simp add: f t(2) Un_assoc)
qed simp

lemma caps_in_facts: "capset_ok out \<Longrightarrow> capset_ok (caps_in ty m out) \<and>
     cap_facts (caps_in ty m out) = cap_facts out \<union> type_facts (tenv_of m) ty"
proof (induction ty arbitrary: out)
  case (Named n args)
  show ?case
    using caps_in_list_facts[OF Named.IH] named_base_facts[OF Named.prems, where m = m and n = n and args = args]
    by (simp add: Let_def Un_assoc)
next
  case (RecordCompose b flds)
  have "capset_ok (caps_in (snd p) m out) \<and>
      cap_facts (caps_in (snd p) m out) = cap_facts out \<union> type_facts (tenv_of m) (snd p)"
    if "p \<in> set flds" "capset_ok out" for p out
    using RecordCompose.IH(2)[OF that(1) _ that(2)] by (simp add: snds.simps)
  from caps_in_fields_facts[OF this] RecordCompose.IH(1) RecordCompose.prems show ?case
    by (simp add: Un_assoc)
qed (simp_all add: caps_in_list_facts)

lemma caps_in_list_facts': "capset_ok out \<Longrightarrow> capset_ok (caps_in_list ts m out) \<and>
     cap_facts (caps_in_list ts m out) = cap_facts out \<union> list_facts (tenv_of m) ts"
  by (rule caps_in_list_facts[OF caps_in_facts])

lemma taint_ok_get: "taint_ok m \<Longrightarrow> btm_get m n = Some cs \<Longrightarrow> capset_ok cs"
  by (simp add: taint_ok_def)

section \<open>One round\<close>

definition step_env :: "TypeDef \<Rightarrow> tenv \<Rightarrow> tenv" where
  "step_env t T = T(t_name t := T (t_name t) \<union> (\<Union>a \<in> set (type_fields t). type_facts T a))"

lemma taint_item_step:
  fixes t :: TypeDef
  assumes ok: "taint_ok m"
  defines "before \<equiv> (case btm_get m (t_name t) of None \<Rightarrow> [] | Some cs \<Rightarrow> cs)"
  defines "slot \<equiv> merge_into before (caps_in_list (type_fields t) m [])"
  shows "taint_ok (btm_insert (t_name t) slot m)"
    "tenv_of (btm_insert (t_name t) slot m) = step_env t (tenv_of m)"
    "slot = before \<longleftrightarrow> step_env t (tenv_of m) = tenv_of m"
proof -
  have b: "btm_ok m" using ok by (simp add: taint_ok_def)
  have before: "capset_ok before" "cap_facts before = tenv_of m (t_name t)"
    using taint_ok_get[OF ok] by (auto simp: before_def tenv_of_def split: option.splits)
  have acc: "cap_facts (caps_in_list (type_fields t) m []) = (\<Union>a \<in> set (type_fields t). type_facts (tenv_of m) a)"
    using caps_in_list_facts'[where out = "[]" and ts = "type_fields t" and m = m] by (simp add: list_facts_UN)
  have slot: "capset_ok slot" "cap_facts slot = tenv_of m (t_name t) \<union> (\<Union>a \<in> set (type_fields t). type_facts (tenv_of m) a)"
    using before by (simp_all add: slot_def acc)
  show "taint_ok (btm_insert (t_name t) slot m)"
    using ok slot(1) by (auto simp: taint_ok_def btm_ok_insert btm_get_insert[OF b])
  show env: "tenv_of (btm_insert (t_name t) slot m) = step_env t (tenv_of m)"
    by (auto simp: tenv_of_def fun_eq_iff step_env_def btm_get_insert[OF b] slot(2))
  show "slot = before \<longleftrightarrow> step_env t (tenv_of m) = tenv_of m"
    unfolding capset_eq_iff[OF slot(1) before(1)] slot(2) before(2) step_env_def fun_eq_iff by auto
qed

fun round_env :: "Module \<Rightarrow> tenv \<Rightarrow> tenv" where
  "round_env [] T = T"
| "round_env (TypeItem t # items) T = round_env items (step_env t T)"
| "round_env (_ # items) T = round_env items T"

lemma step_env_le: "T \<le> step_env t T"
  by (auto simp: step_env_def le_fun_def)

lemma round_env_le: "T \<le> round_env items T"
proof (induction items T rule: round_env.induct)
  case (2 t items T)
  then show ?case using step_env_le[of T t] by (simp add: order_trans)
qed simp_all

lemma taint_round_env: "taint_ok m \<Longrightarrow> taint_round items m ch = (m', ch') \<Longrightarrow>
    taint_ok m' \<and> tenv_of m' = round_env items (tenv_of m) \<and> (ch' \<longleftrightarrow> ch \<or> tenv_of m' \<noteq> tenv_of m)"
proof (induction items m ch rule: taint_round.induct)
  case (2 t items m ch)
  let ?before = "case btm_get m (t_name t) of None \<Rightarrow> [] | Some cs \<Rightarrow> cs"
  let ?slot = "merge_into ?before (caps_in_list (type_fields t) m [])"
  let ?m = "btm_insert (t_name t) ?slot m"
  note step = taint_item_step[OF "2.prems"(1), where t = t]
  have "taint_round items ?m (ch \<or> ?slot \<noteq> ?before) = (m', ch')"
    using "2.prems"(2) by (simp add: Let_def)
  then have ih: "taint_ok m' \<and> tenv_of m' = round_env items (tenv_of ?m) \<and>
      (ch' \<longleftrightarrow> (ch \<or> ?slot \<noteq> ?before) \<or> tenv_of m' \<noteq> tenv_of ?m)"
    using "2.IH"[OF refl refl refl step(1)] by blast
  have le: "tenv_of m \<le> tenv_of ?m" "tenv_of ?m \<le> tenv_of m'"
    using ih step(2) step_env_le round_env_le by simp_all
  have "tenv_of m' \<noteq> tenv_of m \<longleftrightarrow> ?slot \<noteq> ?before \<or> tenv_of m' \<noteq> tenv_of ?m"
    using le step(2,3) by (metis antisym)
  with ih step(2) show ?case by auto
qed auto

lemma round_env_fixed:
  assumes "round_env items T = T" "TypeItem t \<in> set items" "a \<in> set (type_fields t)"
  shows "type_facts T a \<subseteq> T (t_name t)"
proof -
  have "step_env t T = T" using assms(1,2)
  proof (induction items T rule: round_env.induct)
    case (2 s items T)
    have "step_env s T = T"
      using "2.prems"(1) step_env_le[of T s] round_env_le[of "step_env s T" items] by (simp add: antisym)
    with 2 show ?case by auto
  qed auto
  then have "T (t_name t) \<union> (\<Union>a \<in> set (type_fields t). type_facts T a) = T (t_name t)"
    by (metis fun_upd_same step_env_def)
  with assms(3) show ?thesis by blast
qed

section \<open>The loop ends\<close>

text \<open>All facts lie in a finite universe: a host capability, or one of its rights.\<close>

definition fact_universe :: "cap_fact set" where
  "fact_universe = (\<Union>k \<in> set kind_all. rights_facts (kind_name k) (set (full_rights (kind_name k))))"

lemma finite_universe: "finite fact_universe"
  by (simp add: fact_universe_def rights_facts_def)

lemma host_facts_universe: "host_facts n args \<subseteq> fact_universe"
proof (cases "is_host_capability n")
  case True
  then obtain k where k: "kind_from_name n = Some k" by (auto simp: is_host_capability_def split: option.splits)
  then have "n = kind_name k" using kind_from_name_sound by simp
  moreover have "rights_facts n (set (rights_from_args n args)) \<subseteq> rights_facts n (set (full_rights n))"
    using rights_from_args_subset[of n args] by (auto simp: rights_facts_def)
  ultimately show ?thesis using True by (auto simp: host_facts_def fact_universe_def)
qed (simp add: host_facts_def)

lemma type_facts_universe:
  assumes "\<And>n. T n \<subseteq> fact_universe"
  shows "type_facts T ty \<subseteq> fact_universe"
proof (induction ty)
  case (Named n args)
  then have "list_facts T args \<subseteq> fact_universe" unfolding list_facts_UN by blast
  with assms[of n] host_facts_universe[of n args] show ?case by simp
next
  case (RecordCompose b flds)
  then show ?case by (fastforce simp: fields_facts_UN snds.simps)
qed (simp_all add: list_facts_UN UN_subset_iff)

lemma round_env_universe: "(\<And>n. T n \<subseteq> fact_universe) \<Longrightarrow> round_env items T n \<subseteq> fact_universe"
proof (induction items T arbitrary: n rule: round_env.induct)
  case (2 t items T)
  have "step_env t T k \<subseteq> fact_universe" for k
    using "2.prems" type_facts_universe[of T] by (auto simp: step_env_def)
  with "2.IH" show ?case by simp
qed auto

definition type_names :: "Module \<Rightarrow> string set" where
  "type_names items = {t_name t | t. TypeItem t \<in> set items}"

lemma finite_type_names: "finite (type_names items)"
proof -
  have "type_names items = t_name ` {t. TypeItem t \<in> set items}" by (auto simp: type_names_def)
  moreover have "finite {t. TypeItem t \<in> set items}"
    using finite_surj[of "set items" "{t. TypeItem t \<in> set items}" "\<lambda>i. case i of TypeItem t \<Rightarrow> t"]
    by (force simp: image_iff)
  ultimately show ?thesis by simp
qed

lemma round_env_outside: "n \<notin> type_names items \<Longrightarrow> round_env items T n = T n"
proof (induction items T rule: round_env.induct)
  case (2 t items T)
  then have "n \<noteq> t_name t" "n \<notin> type_names items" by (auto simp: type_names_def)
  moreover have "step_env t T n = T n" if "n \<noteq> t_name t" using that by (simp add: step_env_def)
  ultimately show ?case using "2.IH" by simp
qed (auto simp: type_names_def)

definition env_pairs :: "Module \<Rightarrow> tenv \<Rightarrow> (string \<times> cap_fact) set" where
  "env_pairs items T = {(n, f). n \<in> type_names items \<and> f \<in> T n}"

definition env_inv :: "tenv \<Rightarrow> bool" where
  "env_inv T \<longleftrightarrow> (\<forall>n. T n \<subseteq> fact_universe)"

lemma round_decreases:
  assumes "env_inv T" "round_env items T \<noteq> T"
  shows "card (type_names items \<times> fact_universe - env_pairs items (round_env items T))
    < card (type_names items \<times> fact_universe - env_pairs items T)"
proof -
  let ?U = "type_names items \<times> fact_universe" and ?T' = "round_env items T"
  have le: "T \<le> ?T'" by (rule round_env_le)
  from assms(2) obtain n where n: "?T' n \<noteq> T n" unfolding fun_eq_iff by blast
  then have nm: "n \<in> type_names items" using round_env_outside by blast
  from n le obtain f where f: "f \<in> ?T' n" "f \<notin> T n" by (auto simp: le_fun_def)
  have "f \<in> fact_universe" using assms(1) f(1) round_env_universe[of T items n] by (auto simp: env_inv_def)
  then have "(n, f) \<in> ?U - env_pairs items T" "(n, f) \<notin> ?U - env_pairs items ?T'"
    using nm f by (auto simp: env_pairs_def)
  moreover have "?U - env_pairs items ?T' \<subseteq> ?U - env_pairs items T"
    using le by (auto simp: env_pairs_def le_fun_def)
  ultimately show ?thesis
    using finite_universe finite_type_names by (intro psubset_card_mono) auto
qed

text \<open>From a well-formed map the loop ends, in a fixed point that it reached by rounds.\<close>

lemma taint_loop_ends:
  assumes "taint_ok m" "env_inv (tenv_of m)" "P (tenv_of m)"
    and step: "\<And>T. P T \<Longrightarrow> P (round_env items T)"
  shows "\<exists>m'. taint_loop items m = Some m' \<and> taint_ok m' \<and> round_env items (tenv_of m') = tenv_of m'
    \<and> P (tenv_of m')"
  using assms(1-3)
proof (induction "card (type_names items \<times> fact_universe - env_pairs items (tenv_of m))"
    arbitrary: m rule: less_induct)
  case less
  obtain m' ch where r: "taint_round items m False = (m', ch)" by (cases "taint_round items m False")
  note env = taint_round_env[OF less.prems(1) r]
  show ?case
  proof (cases ch)
    case False
    with env have "tenv_of m' = tenv_of m" "taint_ok m'" "round_env items (tenv_of m) = tenv_of m" by auto
    moreover from False have "taint_loop items m = Some m'" by (simp add: taint_loop.simps[of items m] r)
    ultimately show ?thesis using less.prems(3) by auto
  next
    case True
    with env have T': "tenv_of m' = round_env items (tenv_of m)" and ne: "round_env items (tenv_of m) \<noteq> tenv_of m"
      and ok: "taint_ok m'" by auto
    have "card (type_names items \<times> fact_universe - env_pairs items (tenv_of m'))
        < card (type_names items \<times> fact_universe - env_pairs items (tenv_of m))"
      unfolding T' by (rule round_decreases[OF less.prems(2) ne])
    moreover have "env_inv (tenv_of m')"
      using less.prems(2) round_env_universe unfolding T' env_inv_def by blast
    moreover have "P (tenv_of m')" unfolding T' by (rule step[OF less.prems(3)])
    ultimately have "\<exists>m''. taint_loop items m' = Some m'' \<and> taint_ok m'' \<and>
        round_env items (tenv_of m'') = tenv_of m'' \<and> P (tenv_of m'')"
      using less.hyps ok by blast
    moreover from True have "taint_loop items m = taint_loop items m'"
      by (simp add: taint_loop.simps[of items m] r)
    ultimately show ?thesis by simp
  qed
qed

section \<open>The map is exact\<close>

definition env_sound :: "Module \<Rightarrow> tenv \<Rightarrow> bool" where
  "env_sound items T \<longleftrightarrow> (\<forall>n. \<forall>f \<in> T n. \<forall>args. carries items (Named n args) f)"

lemma type_facts_sound:
  assumes "env_sound items T"
  shows "f \<in> type_facts T ty \<Longrightarrow> carries items ty f"
proof (induction ty)
  case (Named n args)
  then consider "f \<in> host_facts n args" | "f \<in> T n" | a where "a \<in> set args" "f \<in> type_facts T a"
    by (auto simp: list_facts_UN)
  then show ?case
  proof cases
    case 1
    then show ?thesis by (auto simp: host_facts_def intro: carries.host split: if_splits)
  next
    case 2
    with assms show ?thesis by (auto simp: env_sound_def)
  next
    case (3 a)
    with Named.IH show ?thesis by (blast intro: carries.arg)
  qed
next
  case (RecordCompose b flds)
  from RecordCompose.prems consider "f \<in> type_facts T b" | l a where "(l, a) \<in> set flds" "f \<in> type_facts T a"
    by (auto simp: fields_facts_UN)
  then show ?case
  proof cases
    case 1
    with RecordCompose.IH(1) show ?thesis by (blast intro: carries.base)
  next
    case (2 l a)
    with RecordCompose.IH(2)[of "(l, a)" a] show ?thesis by (auto simp: snds.simps intro: carries.label)
  qed
qed (auto simp: list_facts_UN intro: carries.intros)

lemma round_env_sound:
  assumes sub: "set items' \<subseteq> set items"
  shows "env_sound items T \<Longrightarrow> env_sound items (round_env items' T)"
  using sub
proof (induction items' T rule: round_env.induct)
  case (2 t items' T)
  have "carries items (Named n args) f" if "f \<in> step_env t T n" for n f args
  proof (cases "f \<in> T n")
    case True
    with "2.prems"(1) show ?thesis by (simp add: env_sound_def)
  next
    case False
    with that obtain a where "n = t_name t" "a \<in> set (type_fields t)" "f \<in> type_facts T a"
      by (auto simp: step_env_def split: if_splits)
    moreover have "TypeItem t \<in> set items" using "2.prems"(2) by simp
    ultimately show ?thesis
      using type_facts_sound[OF "2.prems"(1), of f a] carries.decl[of t items a f args] by simp
  qed
  then have "env_sound items (step_env t T)" by (simp add: env_sound_def)
  with 2 show ?case by simp
qed auto

lemma fixed_env_complete:
  assumes fixed: "round_env items T = T"
  shows "carries items ty f \<Longrightarrow> f \<in> type_facts T ty"
proof (induction rule: carries.induct)
  case (decl t field f args)
  with round_env_fixed[OF fixed] show ?case by auto
next
  case (label l a flds f b)
  then have "f \<in> type_facts T (snd (l, a))" by simp
  with label(1) show ?case by (auto simp: fields_facts_UN intro!: bexI[of _ "(l, a)"])
qed (auto simp: host_facts_def list_facts_UN)

lemma taint_init_facts: "taint_ok m \<Longrightarrow> tenv_of m = (\<lambda>_. {}) \<Longrightarrow>
    taint_ok (taint_init items m) \<and> tenv_of (taint_init items m) = (\<lambda>_. {})"
proof (induction items m rule: taint_init.induct)
  case (2 t items m)
  have b: "btm_ok m" using "2.prems" by (simp add: taint_ok_def)
  have "btm_get m n = Some cs \<Longrightarrow> cap_facts cs = {}" for n cs
    using "2.prems"(2) by (auto simp: tenv_of_def fun_eq_iff split: option.splits dest: spec[of _ n])
  then have "tenv_of (btm_entry (t_name t) [] id m) = (\<lambda>_. {})"
    by (auto simp: tenv_of_def fun_eq_iff btm_get_entry[OF b] split: option.splits)
  moreover have "taint_ok (btm_entry (t_name t) [] id m)"
    using "2.prems"(1) by (auto simp: taint_ok_def btm_ok_entry btm_get_entry[OF b] split: option.splits)
  ultimately show ?case using "2.IH" by simp
qed auto

lemma taint_empty: "taint_ok []" "tenv_of [] = (\<lambda>_. {})"
  by (simp_all add: taint_ok_def tenv_of_def fun_eq_iff)

lemma taint_map_exact:
  "\<exists>m. taint_map items = Some m \<and> taint_ok m \<and> (\<forall>ty f. f \<in> type_facts (tenv_of m) ty \<longleftrightarrow> carries items ty f)"
proof -
  have init: "taint_ok (taint_init items [])" "tenv_of (taint_init items []) = (\<lambda>_. {})"
    using taint_init_facts[of "[]" items] by (simp_all add: taint_empty)
  have "env_inv (tenv_of (taint_init items []))" "env_sound items (tenv_of (taint_init items []))"
    unfolding init(2) by (simp_all add: env_inv_def env_sound_def)
  from taint_loop_ends[OF init(1) this round_env_sound[OF subset_refl]] obtain m where
    "taint_map items = Some m" "taint_ok m" "round_env items (tenv_of m) = tenv_of m" "env_sound items (tenv_of m)"
    unfolding taint_map_def by auto
  then show ?thesis using type_facts_sound fixed_env_complete by blast
qed

end
