(* ===== verification/Footprint.thy ===== *)
theory Footprint
  imports Taint
begin

text \<open>
  The capability footprint of a module (crates/witchy-caps/src/capabilities.rs, \<open>analyze\<close> to
  \<open>heap_mode\<close>), the comparison of two footprints behind the block-on-widening gate, the heap mode
  (crates/witchy-cap-model/src/heap.rs) and the launch contract carried by a compiled artifact.
\<close>

section \<open>Heap mode\<close>

datatype HeapMode = Standard | Large

definition PAGE_BYTES :: "64 word" where
  "PAGE_BYTES = push_bit 10 64"

definition from_main_attributes :: "string list \<Rightarrow> HeapMode" where
  "from_main_attributes attributes = (if ''large_heap'' \<in> set attributes then Large else Standard)"

fun max_pages :: "HeapMode \<Rightarrow> 64 word" where
  "max_pages Standard = 65536"
| "max_pages Large = 524288"

definition max_bytes :: "HeapMode \<Rightarrow> 64 word" where
  "max_bytes h = max_pages h * PAGE_BYTES"

fun launch_version :: "HeapMode \<Rightarrow> 8 word" where
  "launch_version Standard = 1"
| "launch_version Large = 2"

definition launch_trailer :: "HeapMode \<Rightarrow> 8 word option" where
  "launch_trailer h = (if h = Large then Some 1 else None)"

definition from_launch_contract :: "8 word list \<Rightarrow> HeapMode" where
  "from_launch_contract payload =
     (case payload of
        v # count # rest \<Rightarrow>
          if v = 2 \<and> rest \<noteq> [] \<and> last rest = 1 \<and> length payload = 3 + unat count * 2 then Large else Standard
      | _ \<Rightarrow> Standard)"

section \<open>Entries\<close>

record Entry =
  e_name :: string
  e_capabilities :: CapSet
  e_brands :: "string btset"

record Footprint =
  fp_entries :: "Entry list"
  fp_per_function :: "Entry list"
  fp_total :: CapSet
  fp_brands :: "string btset"
  fp_user_caps :: "string btset"
  fp_build :: CapSet
  fp_heap :: HeapMode

text \<open>A \<open>HashMap\<close> of which only the keys are read.\<close>

fun brand_map :: "Module \<Rightarrow> taint \<Rightarrow> (string, string) btmap \<Rightarrow> (string, string) btmap" where
  "brand_map [] taint brands = brands"
| "brand_map (TypeItem t # items) taint brands =
     brand_map items taint
       (case t_variants t of
          [v] \<Rightarrow> (case v_fields v of
             [fty] \<Rightarrow> (case caps_in fty taint [] of
                [(cap, _)] \<Rightarrow> btm_insert (t_name t) cap brands
              | _ \<Rightarrow> brands)
           | _ \<Rightarrow> brands)
        | _ \<Rightarrow> brands)"
| "brand_map (_ # items) taint brands = brand_map items taint brands"

fun signature_loop :: "bool \<Rightarrow> taint \<Rightarrow> (string, string) btmap \<Rightarrow> string set \<Rightarrow> Type list \<Rightarrow>
    CapSet \<Rightarrow> string btset \<Rightarrow> string btset \<Rightarrow> CapSet \<times> string btset \<times> string btset" where
  "signature_loop is_entry taint brands grantable [] capabilities entry_brands user_caps =
     (capabilities, entry_brands, user_caps)"
| "signature_loop is_entry taint brands grantable (ty # types) capabilities entry_brands user_caps =
     (let user_caps' = (case ty of
            Named n _ \<Rightarrow> if is_entry \<and> n \<in> grantable then bts_insert n user_caps else user_caps
          | _ \<Rightarrow> user_caps);
          caps = caps_in ty taint []
      in if caps = [] then
           signature_loop is_entry taint brands grantable types capabilities entry_brands user_caps'
         else
           signature_loop is_entry taint brands grantable types (merge_into capabilities caps)
             (case ty of
                Named n _ \<Rightarrow> if btm_contains_key brands n then bts_insert n entry_brands else entry_brands
              | _ \<Rightarrow> entry_brands)
             user_caps')"

definition analyze_signature :: "string \<Rightarrow> Type list \<Rightarrow> bool \<Rightarrow> taint \<Rightarrow> (string, string) btmap \<Rightarrow> string set \<Rightarrow>
    string btset \<Rightarrow> Entry \<times> string btset" where
  "analyze_signature name types is_entry taint brands grantable user_caps =
     (case signature_loop is_entry taint brands grantable types [] [] user_caps of
        (capabilities, entry_brands, user_caps') \<Rightarrow>
          (\<lparr>e_name = name, e_capabilities = capabilities, e_brands = entry_brands\<rparr>, user_caps'))"

definition impl_method_entry_name :: "ImplDef \<Rightarrow> string \<Rightarrow> string" where
  "impl_method_entry_name im mthd =
     (case im_trait_name im of
        Some trait_name \<Rightarrow> trait_name @ '' for '' @ im_type_name im @ ''.'' @ mthd
      | None \<Rightarrow> im_type_name im @ ''.'' @ mthd)"

definition param_types :: "Function \<Rightarrow> Type list" where
  "param_types f = List.map_filter p_ty (f_params f)"

fun item_entries :: "Item \<Rightarrow> (string \<times> Type list \<times> bool) list" where
  "item_entries (FunctionItem f) =
     (if f_comptime_only f then [] else [(f_name f, param_types f, f_public f \<or> f_name f = ''main'')])"
| "item_entries (ImplItem im) =
     map (\<lambda>f. (impl_method_entry_name im (f_name f), param_types f, f_public f)) (im_methods im)"
| "item_entries _ = []"

definition grantable_names :: "Module \<Rightarrow> string set" where
  "grantable_names items = set (List.map_filter (\<lambda>it. case it of
     TypeItem t \<Rightarrow> if t_grantable t then Some (t_name t) else None | _ \<Rightarrow> None) items)"

record analysis =
  an_user_caps :: "string btset"
  an_entries :: "Entry list"
  an_per_function :: "Entry list"
  an_total :: CapSet

definition analyze_entry :: "taint \<Rightarrow> (string, string) btmap \<Rightarrow> string set \<Rightarrow>
    string \<times> Type list \<times> bool \<Rightarrow> analysis \<Rightarrow> analysis" where
  "analyze_entry taint brands grantable sig st =
     (case sig of (name, types, is_entry) \<Rightarrow>
       (case analyze_signature name types is_entry taint brands grantable (an_user_caps st) of
          (entry, user_caps) \<Rightarrow>
            if is_entry then
              st\<lparr>an_user_caps := user_caps,
                 an_total := merge_into (an_total st) (e_capabilities entry),
                 an_per_function := an_per_function st @ [entry],
                 an_entries := an_entries st @ [entry]\<rparr>
            else if e_capabilities entry \<noteq> [] then
              st\<lparr>an_user_caps := user_caps, an_per_function := an_per_function st @ [entry]\<rparr>
            else st\<lparr>an_user_caps := user_caps\<rparr>))"

fun heap_mode :: "Module \<Rightarrow> HeapMode" where
  "heap_mode [] = Standard"
| "heap_mode (FunctionItem f # items) =
     (if f_name f = ''main'' \<and> \<not> f_comptime_only f then from_main_attributes (f_attributes f)
      else heap_mode items)"
| "heap_mode (_ # items) = heap_mode items"

definition build_footprint :: "Module \<Rightarrow> CapSet" where
  "build_footprint items =
     (case build_entrypoint items of
        None \<Rightarrow> []
      | Some b \<Rightarrow> fold build_caps_in (param_types b) [])"

definition signatures :: "Module \<Rightarrow> (string \<times> Type list \<times> bool) list" where
  "signatures items = concat (map item_entries items)"

definition analyze_with :: "taint \<Rightarrow> Module \<Rightarrow> Footprint" where
  "analyze_with taint items =
     (let brands = brand_map items taint [];
          grantable = grantable_names items;
          st = fold (analyze_entry taint brands grantable) (signatures items)
                 \<lparr>an_user_caps = [], an_entries = [], an_per_function = [], an_total = []\<rparr>
      in \<lparr>fp_entries = an_entries st, fp_per_function = an_per_function st, fp_total = an_total st,
          fp_brands = bts_of (concat (map e_brands (an_entries st))), fp_user_caps = an_user_caps st,
          fp_build = build_footprint items, fp_heap = heap_mode items\<rparr>)"

text \<open>\<open>None\<close> would be the taint loop not ending.\<close>

definition analyze :: "Module \<Rightarrow> Footprint option" where
  "analyze items = map_option (\<lambda>taint. analyze_with taint items) (taint_map items)"

definition run_grant :: "Module \<Rightarrow> CapSet option" where
  "run_grant items = map_option (\<lambda>fp.
     (case List.find (\<lambda>e. e_name e = ''main'') (fp_entries fp) of
        None \<Rightarrow> [] | Some e \<Rightarrow> e_capabilities e)) (analyze items)"

section \<open>Differences\<close>

record FootprintDiff =
  d_added :: CapSet
  d_removed :: CapSet
  d_build_added :: CapSet
  d_build_removed :: CapSet
  d_refinements_dropped :: "string btset"
  d_refinements_gained :: "string btset"
  d_user_caps_added :: "string btset"
  d_user_caps_removed :: "string btset"
  d_large_heap_added :: bool

definition footprint_diff :: "Footprint \<Rightarrow> Footprint \<Rightarrow> FootprintDiff" where
  "footprint_diff old new =
     \<lparr>d_added = cap_delta (fp_total new) (fp_total old) [],
      d_removed = cap_delta (fp_total old) (fp_total new) [],
      d_build_added = cap_delta (fp_build new) (fp_build old) [],
      d_build_removed = cap_delta (fp_build old) (fp_build new) [],
      d_refinements_dropped = bts_difference (fp_brands old) (fp_brands new),
      d_refinements_gained = bts_difference (fp_brands new) (fp_brands old),
      d_user_caps_added = bts_difference (fp_user_caps new) (fp_user_caps old),
      d_user_caps_removed = bts_difference (fp_user_caps old) (fp_user_caps new),
      d_large_heap_added = (fp_heap new = Large \<and> fp_heap old \<noteq> Large)\<rparr>"

definition widened :: "FootprintDiff \<Rightarrow> bool" where
  "widened d \<longleftrightarrow> d_added d \<noteq> [] \<or> d_build_added d \<noteq> [] \<or> d_user_caps_added d \<noteq> [] \<or> d_large_heap_added d"

definition build_widened :: "FootprintDiff \<Rightarrow> bool" where
  "build_widened d \<longleftrightarrow> d_build_added d \<noteq> []"

section \<open>What an entry requires\<close>

definition types_carry :: "Module \<Rightarrow> Type list \<Rightarrow> cap_fact set" where
  "types_carry items types = {f. \<exists>ty \<in> set types. carries items ty f}"

lemma signature_loop_caps:
  assumes exact: "\<And>ty f. f \<in> type_facts (tenv_of taint) ty \<longleftrightarrow> carries items ty f"
    and "capset_ok caps"
    and "signature_loop is_entry taint brands g types caps eb uc = (caps', eb', uc')"
  shows "capset_ok caps' \<and> cap_facts caps' = cap_facts caps \<union> types_carry items types"
  using assms(2,3)
proof (induction types arbitrary: caps eb uc)
  case Nil
  then show ?case by (auto simp: types_carry_def)
next
  case (Cons ty types)
  have ty: "cap_facts (caps_in ty taint []) = {f. carries items ty f}"
    using caps_in_facts[of "[]" ty taint] exact by auto
  have tc: "types_carry items (ty # types) = cap_facts (caps_in ty taint []) \<union> types_carry items types"
    unfolding ty by (auto simp: types_carry_def)
  show ?case
  proof (cases "caps_in ty taint [] = []")
    case True
    with Cons.prems Cons.IH[of caps] show ?thesis by (simp add: Let_def tc)
  next
    case False
    with Cons.prems have "\<exists>eb uc. signature_loop is_entry taint brands g types
        (merge_into caps (caps_in ty taint [])) eb uc = (caps', eb', uc')" by (auto simp: Let_def)
    with Cons.IH[of "merge_into caps (caps_in ty taint [])"] Cons.prems(1) show ?thesis
      by (auto simp: tc)
  qed
qed

lemma analyze_signature_caps:
  assumes exact: "\<And>ty f. f \<in> type_facts (tenv_of taint) ty \<longleftrightarrow> carries items ty f"
    and "analyze_signature name types is_entry taint brands g uc = (entry, uc')"
  shows "e_name entry = name \<and> capset_ok (e_capabilities entry)
    \<and> cap_facts (e_capabilities entry) = types_carry items types"
proof -
  obtain c eb uc2 where l: "signature_loop is_entry taint brands g types [] [] uc = (c, eb, uc2)"
    by (cases "signature_loop is_entry taint brands g types [] [] uc") auto
  with assms(2) have "entry = \<lparr>e_name = name, e_capabilities = c, e_brands = eb\<rparr>"
    by (simp add: analyze_signature_def)
  with signature_loop_caps[OF exact capset_ok_Nil l] show ?thesis by simp
qed

definition entry_sigs :: "(string \<times> Type list \<times> bool) list \<Rightarrow> (string \<times> Type list) list" where
  "entry_sigs sigs = map (\<lambda>(n, ts, _). (n, ts)) (filter (\<lambda>(_, _, e). e) sigs)"

definition entries_match :: "Module \<Rightarrow> Entry list \<Rightarrow> (string \<times> Type list) list \<Rightarrow> bool" where
  "entries_match items = list_all2 (\<lambda>entry (n, ts). e_name entry = n \<and> capset_ok (e_capabilities entry)
     \<and> cap_facts (e_capabilities entry) = types_carry items ts)"

lemma analyze_fold:
  assumes exact: "\<And>ty f. f \<in> type_facts (tenv_of taint) ty \<longleftrightarrow> carries items ty f"
    and "capset_ok (an_total st)"
  shows "capset_ok (an_total (fold (analyze_entry taint brands g) sigs st)) \<and>
    cap_facts (an_total (fold (analyze_entry taint brands g) sigs st)) =
      cap_facts (an_total st) \<union> (\<Union>s \<in> set (entry_sigs sigs). types_carry items (snd s))
    \<and> (\<exists>new. an_entries (fold (analyze_entry taint brands g) sigs st) = an_entries st @ new
      \<and> entries_match items new (entry_sigs sigs))"
  using assms(2)
proof (induction sigs arbitrary: st)
  case Nil
  then show ?case by (simp add: entry_sigs_def entries_match_def)
next
  case (Cons s sigs)
  obtain n ts ie where s: "s = (n, ts, ie)" by (cases s)
  obtain entry uc where e: "analyze_signature n ts ie taint brands g (an_user_caps st) = (entry, uc)"
    by (cases "analyze_signature n ts ie taint brands g (an_user_caps st)")
  note caps = analyze_signature_caps[OF exact e]
  let ?st = "analyze_entry taint brands g s st"
  show ?case
  proof (cases ie)
    case True
    with e have st: "an_total ?st = merge_into (an_total st) (e_capabilities entry)"
      "an_entries ?st = an_entries st @ [entry]" by (simp_all add: analyze_entry_def s)
    have "capset_ok (an_total ?st)" using Cons.prems by (simp add: st)
    from Cons.IH[OF this] obtain new where
      "an_entries (fold (analyze_entry taint brands g) sigs ?st) = an_entries ?st @ new"
      "entries_match items new (entry_sigs sigs)" by blast
    then have "\<exists>new. an_entries (fold (analyze_entry taint brands g) (s # sigs) st) = an_entries st @ new
        \<and> entries_match items new (entry_sigs (s # sigs))"
      using caps True st by (intro exI[of _ "entry # new"]) (simp add: entries_match_def entry_sigs_def s)
    moreover have "entry_sigs (s # sigs) = (n, ts) # entry_sigs sigs"
      using True by (simp add: entry_sigs_def s)
    ultimately show ?thesis
      using Cons.IH[OF \<open>capset_ok (an_total ?st)\<close>] Cons.prems caps by (simp add: st(1) Un_assoc)
  next
    case False
    with e have st: "an_total ?st = an_total st" "an_entries ?st = an_entries st"
      by (simp_all add: analyze_entry_def s)
    with Cons.IH[of ?st] Cons.prems False show ?thesis by (simp add: entry_sigs_def s)
  qed
qed

lemma analyze_total:
  "\<exists>fp. analyze items = Some fp \<and> capset_ok (fp_total fp)
     \<and> cap_facts (fp_total fp) = (\<Union>s \<in> set (entry_sigs (signatures items)). types_carry items (snd s))
     \<and> entries_match items (fp_entries fp) (entry_sigs (signatures items))
     \<and> fp_heap fp = heap_mode items \<and> fp_build fp = build_footprint items"
proof -
  obtain taint where t: "taint_map items = Some taint"
    and exact: "\<And>ty f. f \<in> type_facts (tenv_of taint) ty \<longleftrightarrow> carries items ty f"
    using taint_map_exact by blast
  let ?st = "\<lparr>an_user_caps = [], an_entries = [], an_per_function = [], an_total = []\<rparr>"
  have "capset_ok (an_total ?st)" by simp
  from analyze_fold[OF exact this, of "brand_map items taint []" "grantable_names items" "signatures items"]
  show ?thesis by (simp add: analyze_def t analyze_with_def Let_def)
qed

section \<open>The root demand of main\<close>

fun main_function :: "Module \<Rightarrow> Function option" where
  "main_function [] = None"
| "main_function (FunctionItem f # items) =
     (if f_name f = ''main'' \<and> \<not> f_comptime_only f then Some f else main_function items)"
| "main_function (_ # items) = main_function items"

lemma impl_name_not_main: "impl_method_entry_name im n \<noteq> ''main''"
proof
  assume "impl_method_entry_name im n = ''main''"
  then have "CHR ''.'' \<in> set ''main''"
    by (auto simp: impl_method_entry_name_def split: option.splits simp del: set_simps) (metis in_set_conv_decomp)+
  then show False by simp
qed

lemma entry_sigs_append: "entry_sigs (a @ b) = entry_sigs a @ entry_sigs b"
  by (simp add: entry_sigs_def)

lemma find_append: "List.find P (a @ b) = (case List.find P a of None \<Rightarrow> List.find P b | Some x \<Rightarrow> Some x)"
  by (induction a) auto

lemma find_main_sig: "List.find (\<lambda>s. fst s = ''main'') (entry_sigs (signatures items)) =
    map_option (\<lambda>f. (''main'', param_types f)) (main_function items)"
proof (induction items)
  case (Cons it items)
  have sig: "signatures (it # items) = item_entries it @ signatures items" by (simp add: signatures_def)
  show ?case
  proof (cases it)
    case (FunctionItem f)
    with Cons sig show ?thesis by (auto simp: entry_sigs_append find_append entry_sigs_def)
  next
    case (ImplItem im)
    have "List.find (\<lambda>s. fst s = ''main'') (entry_sigs (item_entries (ImplItem im))) = None"
      using impl_name_not_main by (auto simp: find_None entry_sigs_def)
    with Cons sig ImplItem show ?thesis by (simp add: entry_sigs_append find_append)
  qed (use Cons in \<open>simp_all add: signatures_def\<close>)
qed (simp add: signatures_def entry_sigs_def)

lemma find_entry_match:
  assumes "entries_match items es sigs"
  shows "case List.find (\<lambda>s. fst s = n) sigs of
      None \<Rightarrow> List.find (\<lambda>e. e_name e = n) es = None
    | Some (_, ts) \<Rightarrow> \<exists>e. List.find (\<lambda>e. e_name e = n) es = Some e \<and> capset_ok (e_capabilities e)
        \<and> cap_facts (e_capabilities e) = types_carry items ts"
  using assms unfolding entries_match_def
  by (induction es sigs rule: list_all2_induct) (auto split: option.splits prod.splits)

lemma run_grant_facts:
  "\<exists>cs. run_grant items = Some cs \<and> capset_ok cs \<and>
    cap_facts cs = (case main_function items of None \<Rightarrow> {} | Some f \<Rightarrow> types_carry items (param_types f))"
proof -
  obtain fp where fp: "analyze items = Some fp" "entries_match items (fp_entries fp) (entry_sigs (signatures items))"
    using analyze_total by blast
  note match = find_entry_match[OF fp(2), of "''main''", unfolded find_main_sig]
  show ?thesis
  proof (cases "main_function items")
    case None
    with match have "List.find (\<lambda>e. e_name e = ''main'') (fp_entries fp) = None" by simp
    with None fp(1) show ?thesis by (simp add: run_grant_def)
  next
    case (Some f)
    with match obtain e where "List.find (\<lambda>e. e_name e = ''main'') (fp_entries fp) = Some e"
      "capset_ok (e_capabilities e)" "cap_facts (e_capabilities e) = types_carry items (param_types f)"
      by auto
    with Some fp(1) show ?thesis by (simp add: run_grant_def)
  qed
qed

lemma heap_mode_main: "heap_mode items =
    (case main_function items of None \<Rightarrow> Standard | Some f \<Rightarrow> from_main_attributes (f_attributes f))"
  by (induction items rule: main_function.induct) auto

section \<open>The build axis\<close>

lemma add_build_ok: "capset_ok out \<Longrightarrow>
    capset_ok (case build_cap n of None \<Rightarrow> out | Some b \<Rightarrow> add_cap b [] out)"
  by (simp add: capset_ok_add split: option.splits)

lemma build_list_ok:
  assumes "\<And>a out. a \<in> set ts \<Longrightarrow> capset_ok out \<Longrightarrow> capset_ok (build_caps_in a out)" "capset_ok out"
  shows "capset_ok (build_caps_in_list ts out)"
  using assms by (induction ts arbitrary: out) auto

lemma build_caps_ok: "capset_ok out \<Longrightarrow> capset_ok (build_caps_in ty out)"
proof (induction ty arbitrary: out)
  case (Named n args)
  then show ?case by (simp add: build_list_ok add_build_ok)
next
  case (RecordCompose b flds)
  have "capset_ok (build_caps_in_fields fs out)"
    if "set fs \<subseteq> set flds" "capset_ok out" for fs out
    using that
  proof (induction fs arbitrary: out)
    case (Cons p fs)
    obtain l t where p: "p = (l, t)" by (cases p)
    have "capset_ok (build_caps_in t out)"
      using RecordCompose.IH(2)[of p t out] Cons.prems by (auto simp: p snds.simps)
    with Cons p show ?case by simp
  qed simp
  with RecordCompose.IH(1) RecordCompose.prems show ?case by simp
qed (simp_all add: build_list_ok)

lemma build_footprint_ok: "capset_ok (build_footprint items)"
proof -
  have "capset_ok out \<Longrightarrow> capset_ok (fold build_caps_in ts out)" for ts out
    by (induction ts arbitrary: out) (simp_all add: build_caps_ok)
  then show ?thesis by (simp add: build_footprint_def split: option.splits)
qed

section \<open>The gate\<close>

lemma widened_iff:
  assumes "btm_ok (fp_total old)" "btm_ok (fp_build old)"
  shows "widened (footprint_diff old new) \<longleftrightarrow>
    \<not> (cap_facts (fp_total new) \<subseteq> cap_facts (fp_total old) \<and> cap_facts (fp_build new) \<subseteq> cap_facts (fp_build old)
      \<and> set (fp_user_caps new) \<subseteq> set (fp_user_caps old) \<and> (fp_heap new = Standard \<or> fp_heap old = Large))"
proof -
  have u: "bts_difference (fp_user_caps new) (fp_user_caps old) = [] \<longleftrightarrow> set (fp_user_caps new) \<subseteq> set (fp_user_caps old)"
    by (auto simp: bts_difference_def filter_empty_conv)
  have h: "(fp_heap new = Large \<and> fp_heap old \<noteq> Large) \<longleftrightarrow> \<not> (fp_heap new = Standard \<or> fp_heap old = Large)"
    by (cases "fp_heap new"; cases "fp_heap old") simp_all
  show ?thesis
    unfolding widened_def footprint_diff_def
    by (simp only: FootprintDiff.simps u h cap_delta_empty_iff[OF assms(1)] cap_delta_empty_iff[OF assms(2)]
        de_Morgan_conj)
qed

section \<open>Properties\<close>

text \<open>
  C1: the footprint analysis ends on every module, and its total is exact: a capability, or a right of
  a capability, is in it exactly when some parameter type of a public function, of \<open>main\<close> or of a
  public method carries it, through tuples, slices, records, generic arguments and any nesting of
  user types, and never through a callable's signature.
\<close>

theorem footprint_total_exact:
  "\<exists>fp. analyze items = Some fp \<and> capset_ok (fp_total fp) \<and>
     (\<forall>f. f \<in> cap_facts (fp_total fp) \<longleftrightarrow>
        (\<exists>n types ty. (n, types, True) \<in> set (signatures items) \<and> ty \<in> set types \<and> carries items ty f))"
proof -
  obtain fp where fp: "analyze items = Some fp" "capset_ok (fp_total fp)"
    "cap_facts (fp_total fp) = (\<Union>s \<in> set (entry_sigs (signatures items)). types_carry items (snd s))"
    using analyze_total by blast
  have "set (entry_sigs (signatures items)) = {(n, types). (n, types, True) \<in> set (signatures items)}"
    by (force simp: entry_sigs_def)
  then have "f \<in> cap_facts (fp_total fp) \<longleftrightarrow>
      (\<exists>n types ty. (n, types, True) \<in> set (signatures items) \<and> ty \<in> set types \<and> carries items ty f)" for f
    unfolding fp(3) types_carry_def by auto
  with fp(1,2) show ?thesis by blast
qed

text \<open>
  C6: the authority a run grants is exactly what the parameters of the first non-compile-time function
  named \<open>main\<close> carry, and nothing when there is none; the heap mode is read off the same function.
\<close>

theorem run_grant_exact:
  "\<exists>cs. run_grant items = Some cs \<and>
     (\<forall>f. f \<in> cap_facts cs \<longleftrightarrow>
        (\<exists>g ty. main_function items = Some g \<and> ty \<in> set (param_types g) \<and> carries items ty f))
     \<and> heap_mode items =
        (case main_function items of None \<Rightarrow> Standard | Some g \<Rightarrow> from_main_attributes (f_attributes g))"
  using run_grant_facts[of items] heap_mode_main[of items]
  by (cases "main_function items") (auto simp: types_carry_def)

text \<open>
  C2: the gate is exact: the comparison of two analysed versions reports a widening unless every
  capability fact demanded by the new version's entry points was demanded by the old one's, the build
  capabilities and the grantable user capabilities did not grow, and no large heap was added.
\<close>

theorem gate_exact:
  assumes "analyze old_items = Some old" "analyze new_items = Some new"
  shows "widened (footprint_diff old new) \<longleftrightarrow>
    \<not> (cap_facts (fp_total new) \<subseteq> cap_facts (fp_total old)
       \<and> cap_facts (fp_build new) \<subseteq> cap_facts (fp_build old)
       \<and> set (fp_user_caps new) \<subseteq> set (fp_user_caps old)
       \<and> (heap_mode new_items = Standard \<or> heap_mode old_items = Large))"
proof -
  from analyze_total[of old_items] assms(1) have o: "capset_ok (fp_total old)" "fp_build old = build_footprint old_items"
    "fp_heap old = heap_mode old_items" by auto
  from analyze_total[of new_items] assms(2) have n: "fp_heap new = heap_mode new_items" by auto
  have "btm_ok (fp_total old)" "btm_ok (fp_build old)"
    using o build_footprint_ok[of old_items] by (simp_all add: capset_ok_def)
  from widened_iff[OF this, of new] show ?thesis by (simp only: o(3) n)
qed

definition sample_main :: "Type \<Rightarrow> Function" where
  "sample_main ty = \<lparr>f_public = True, f_pure = False, f_comptime_only = False, f_attributes = [], f_name = ''main'',
     f_type_params = [], f_params = [\<lparr>p_name = ''d'', p_ty = Some ty, p_convention = LetConv\<rparr>], f_ret = None,
     f_bounds = [], f_is_gen = False, f_is_async = False\<rparr>"

definition sample_old :: Module where
  "sample_old = [FunctionItem (sample_main (Named ''Dir'' [Named ''Read'' []]))]"

definition sample_new :: Module where
  "sample_new = [FunctionItem (sample_main (Named ''Dir'' []))]"

theorem gate_exact_witness:
  "\<exists>old new. analyze sample_old = Some old \<and> analyze sample_new = Some new \<and>
     (widened (footprint_diff old new) \<longleftrightarrow>
      \<not> (cap_facts (fp_total new) \<subseteq> cap_facts (fp_total old)
       \<and> cap_facts (fp_build new) \<subseteq> cap_facts (fp_build old)
       \<and> set (fp_user_caps new) \<subseteq> set (fp_user_caps old)
       \<and> (heap_mode sample_new = Standard \<or> heap_mode sample_old = Large)))"
proof -
  obtain old where o: "analyze sample_old = Some old" using analyze_total by blast
  obtain new where n: "analyze sample_new = Some new" using analyze_total by blast
  from o n gate_exact[OF o n] show ?thesis by blast
qed

end
