(* ===== verification/Launch.thy ===== *)
theory Launch
  imports Footprint
begin

text \<open>
  The launch contract of a compiled artifact (crates/witchy-caps/src/capabilities.rs,
  \<open>launch_contract_payload\<close>): the authority a run grants and the heap mode, as bytes. Construction
  cannot panic, the heap mode is read back by the runtime's reader, and distinct grants have
  distinct payloads.
\<close>

section \<open>Definitions\<close>

unbundle bit_operations_syntax

definition launch_cap_tag :: "string \<Rightarrow> 8 word option" where
  "launch_cap_tag name =
    (if name = ''Console'' then Some 0
     else if name = ''Clock'' then Some 1
     else if name = ''Rand'' then Some 2
     else if name = ''Env'' then Some 3
     else if name = ''Secret'' then Some 4
     else if name = ''SecretStore'' then Some 5
     else if name = ''Dir'' then Some 6
     else if name = ''File'' then Some 7
     else if name = ''Net'' then Some 8
     else if name = ''Exec'' then Some 9
     else if name = ''Fetch'' then Some 10
     else None)"

definition launch_tags :: "string \<Rightarrow> (string \<times> 8 word) list" where
  "launch_tags capability =
    (if capability = ''Console'' \<or> capability = ''Dir'' \<or> capability = ''File''
     then [(''Read'', push_bit 0 1), (''Write'', push_bit 1 1)]
     else if capability = ''Net''
     then [(''Connect'', push_bit 0 1), (''Listen'', push_bit 1 1), (''Tcp'', push_bit 2 1),
           (''Udp'', push_bit 3 1), (''Uds'', push_bit 4 1)]
     else if capability = ''Secret''
     then [(''Reveal'', push_bit 0 1), (''Seal'', push_bit 1 1)]
     else [])"

definition launch_rights_mask :: "string \<Rightarrow> Rights \<Rightarrow> 8 word" where
  "launch_rights_mask capability rights =
     foldl (\<lambda>mask b. mask OR b) 0
       (List.map_filter (\<lambda>(right, b). if right \<in> set rights then Some b else None) (launch_tags capability))"

text \<open>\<open>None\<close> is a panic: an unknown capability, or more of them than a byte counts.\<close>

fun launch_entries :: "CapSet \<Rightarrow> 8 word list option" where
  "launch_entries [] = Some []"
| "launch_entries ((name, rights) # caps) =
     (case launch_cap_tag name of
        None \<Rightarrow> None
      | Some tag \<Rightarrow> map_option (\<lambda>rest. tag # launch_rights_mask name rights # rest) (launch_entries caps))"

definition launch_payload :: "CapSet \<Rightarrow> HeapMode \<Rightarrow> 8 word list option" where
  "launch_payload caps heap =
     (if length caps < 256 then
        map_option (\<lambda>entries. launch_version heap # word_of_nat (length caps) # entries
            @ (case launch_trailer heap of None \<Rightarrow> [] | Some b \<Rightarrow> [b]))
          (launch_entries caps)
      else None)"

definition launch_contract_payload :: "Module \<Rightarrow> 8 word list option" where
  "launch_contract_payload items =
     Option.bind (run_grant items) (\<lambda>caps. launch_payload caps (heap_mode items))"

section \<open>Grants are well formed\<close>

definition grant_ok :: "CapSet \<Rightarrow> bool" where
  "grant_ok cs \<longleftrightarrow> capset_ok cs \<and> (\<forall>e \<in> set cs. is_host_capability (fst e) \<and> set (snd e) \<subseteq> set (full_rights (fst e)))"

lemma carries_host: "carries items ty f \<Longrightarrow>
    is_host_capability (fst f) \<and> (\<forall>r. snd f = Some r \<longrightarrow> r \<in> set (full_rights (fst f)))"
proof (induction rule: carries.induct)
  case (host n f args)
  then show ?case using rights_from_args_subset[of n args] by (auto simp: rights_facts_def)
qed auto

lemma grant_ok_facts:
  assumes "capset_ok cs" "\<And>f. f \<in> cap_facts cs \<Longrightarrow>
    is_host_capability (fst f) \<and> (\<forall>r. snd f = Some r \<longrightarrow> r \<in> set (full_rights (fst f)))"
  shows "grant_ok cs"
  unfolding grant_ok_def
proof (intro conjI ballI assms(1))
  fix e assume e: "e \<in> set cs"
  then have sub: "rights_facts (fst e) (set (snd e)) \<subseteq> cap_facts cs" by (auto simp: cap_facts_def)
  have "(fst e, None) \<in> cap_facts cs" by (rule subsetD[OF sub]) (simp add: rights_facts_def)
  from assms(2)[OF this] show "is_host_capability (fst e)" by simp
  show "set (snd e) \<subseteq> set (full_rights (fst e))"
  proof
    fix r assume "r \<in> set (snd e)"
    then have "(fst e, Some r) \<in> cap_facts cs" by (intro subsetD[OF sub]) (simp add: rights_facts_def)
    from assms(2)[OF this] show "r \<in> set (full_rights (fst e))" by simp
  qed
qed

lemma run_grant_ok: "\<exists>cs. run_grant items = Some cs \<and> grant_ok cs"
proof -
  obtain cs where cs: "run_grant items = Some cs" "capset_ok cs"
    "cap_facts cs = (case main_function items of None \<Rightarrow> {} | Some f \<Rightarrow> types_carry items (param_types f))"
    using run_grant_facts by blast
  have "grant_ok cs"
    by (rule grant_ok_facts[OF cs(2)]) (use cs(3) carries_host in \<open>auto simp: types_carry_def split: option.splits\<close>)
  with cs(1) show ?thesis by blast
qed

lemma host_names: "is_host_capability n \<Longrightarrow> n \<in> {''Console'', ''Clock'', ''Rand'', ''Env'', ''Secret'',
    ''SecretStore'', ''Dir'', ''File'', ''Net'', ''Fetch'', ''Exec''}"
proof -
  assume "is_host_capability n"
  then obtain k where "kind_from_name n = Some k" "kind_class k = HostClass"
    by (auto simp: is_host_capability_def split: option.splits)
  then have "n = kind_name k" "kind_class k = HostClass" using kind_from_name_sound by auto
  then show ?thesis by (cases k) simp_all
qed

lemma launch_tag_host: "is_host_capability n \<Longrightarrow> \<exists>t. launch_cap_tag n = Some t"
  by (drule host_names) (auto simp: launch_cap_tag_def)

lemma launch_tag_inj:
  assumes "launch_cap_tag a = Some t" "launch_cap_tag b = Some t"
  shows "a = b"
proof -
  let ?names = "[''Console'', ''Clock'', ''Rand'', ''Env'', ''Secret'', ''SecretStore'', ''Dir'', ''File'',
    ''Net'', ''Exec'', ''Fetch'']"
  have "launch_cap_tag n = Some t \<Longrightarrow> unat t < 11 \<and> n = ?names ! unat t" for n
    unfolding launch_cap_tag_def by (elim if_SomeE) simp_all
  with assms show ?thesis by metis
qed

section \<open>Masks\<close>

lemma mask_bit: "bit (foldl (\<lambda>mask b. mask OR b) m
      (List.map_filter (\<lambda>(right, b). if right \<in> R then Some b else None) tags)) i \<longleftrightarrow>
    bit m i \<or> (\<exists>e \<in> set tags. fst e \<in> R \<and> bit (snd e) i)" for m :: "8 word"
proof (induction tags arbitrary: m)
  case (Cons e tags)
  obtain n b where e: "e = (n, b)" by (cases e)
  show ?case
  proof (cases "n \<in> R")
    case True
    then show ?thesis using Cons.IH[of "m OR b"] by (simp add: e List.map_filter_simps bit_or_iff disj_assoc)
  next
    case False
    then show ?thesis using Cons.IH[of m] by (simp add: e List.map_filter_simps)
  qed
qed (simp add: List.map_filter_simps)

lemma launch_mask_bit: "bit (launch_rights_mask n R) i \<longleftrightarrow>
    (\<exists>e \<in> set (launch_tags n). fst e \<in> set R \<and> bit (snd e) i)"
  unfolding launch_rights_mask_def mask_bit by simp

lemma tags_full: "is_host_capability n \<Longrightarrow> set (full_rights n) = fst ` set (launch_tags n)"
proof -
  assume h: "is_host_capability n"
  have all: "\<forall>n \<in> {''Console'', ''Clock'', ''Rand'', ''Env'', ''Secret'', ''SecretStore'', ''Dir'', ''File'',
      ''Net'', ''Fetch'', ''Exec''}. set (full_rights n) = fst ` set (launch_tags n)" by code_simp
  show ?thesis by (rule bspec[OF all host_names[OF h]])
qed

text \<open>Every right of a capability has a bit of its own.\<close>

definition own_bits :: "(string \<times> 8 word) list \<Rightarrow> bool" where
  "own_bits tags \<longleftrightarrow> (\<forall>t \<in> set tags. \<exists>i \<in> set [0..<5]. \<forall>e \<in> set tags. bit (snd e) i \<longleftrightarrow> fst e = fst t)"

lemma own_bits_tags: "own_bits (launch_tags n)"
proof -
  have "own_bits (launch_tags ''Console'')" "own_bits (launch_tags ''Net'')" "own_bits (launch_tags ''Secret'')"
    "own_bits (launch_tags ''Env'')" by code_simp+
  moreover have "launch_tags n = launch_tags ''Console'' \<or> launch_tags n = launch_tags ''Net'' \<or>
      launch_tags n = launch_tags ''Secret'' \<or> launch_tags n = launch_tags ''Env''"
    by (simp add: launch_tags_def)
  ultimately show ?thesis by (elim disjE) simp_all
qed

lemma tag_own_bit:
  assumes "(r, b) \<in> set (launch_tags n)"
  shows "\<exists>i. \<forall>e \<in> set (launch_tags n). bit (snd e) i \<longleftrightarrow> fst e = r"
  using own_bits_tags[of n] assms unfolding own_bits_def by (metis fst_conv)

lemma mask_inj:
  assumes "is_host_capability n" "set R \<subseteq> set (full_rights n)" "set S \<subseteq> set (full_rights n)"
    and "launch_rights_mask n R = launch_rights_mask n S"
  shows "set R = set S"
proof -
  have "r \<in> set R \<longleftrightarrow> r \<in> set S" if "r \<in> set (full_rights n)" for r
  proof -
    from that obtain b where b: "(r, b) \<in> set (launch_tags n)" by (auto simp: tags_full[OF assms(1)])
    then obtain i where i: "\<forall>e \<in> set (launch_tags n). bit (snd e) i \<longleftrightarrow> fst e = r" using tag_own_bit by blast
    have "bit (launch_rights_mask n X) i \<longleftrightarrow> r \<in> set X" for X
      unfolding launch_mask_bit using i b by force
    then show ?thesis using assms(4) by metis
  qed
  with assms(2,3) show ?thesis by blast
qed

section \<open>The payload\<close>

definition entry_ok :: "string \<times> Rights \<Rightarrow> bool" where
  "entry_ok e \<longleftrightarrow> is_host_capability (fst e) \<and> bts_ok (snd e) \<and> set (snd e) \<subseteq> set (full_rights (fst e))"

lemma grant_ok_entries: "grant_ok cs \<Longrightarrow> list_all entry_ok cs"
  by (auto simp: grant_ok_def capset_ok_def entry_ok_def list_all_iff)

lemma launch_entries_total: "list_all entry_ok cs \<Longrightarrow> \<exists>bs. launch_entries cs = Some bs \<and> length bs = 2 * length cs"
proof (induction cs rule: launch_entries.induct)
  case (2 name rights caps)
  then have "is_host_capability name" by (simp add: entry_ok_def)
  with 2 launch_tag_host[of name] show ?case by auto
qed simp

lemma launch_entries_inj:
  "list_all entry_ok cs \<Longrightarrow> list_all entry_ok ds \<Longrightarrow> launch_entries cs = Some bs \<Longrightarrow> launch_entries ds = Some bs \<Longrightarrow> cs = ds"
proof (induction cs arbitrary: ds bs)
  case Nil
  then show ?case by (cases ds rule: launch_entries.cases) (auto split: option.splits)
next
  case (Cons e cs)
  obtain n R where e: "e = (n, R)" by (cases e)
  from Cons.prems(3) obtain t rest where t: "launch_cap_tag n = Some t" "launch_entries cs = Some rest"
    "bs = t # launch_rights_mask n R # rest" by (auto simp: e split: option.splits)
  from Cons.prems(4) t(3) obtain m S ds' where ds: "ds = (m, S) # ds'"
    by (cases ds rule: launch_entries.cases) auto
  with Cons.prems(4) t(3) have m: "launch_cap_tag m = Some t" "launch_rights_mask m S = launch_rights_mask n R"
    "launch_entries ds' = Some rest" by (auto split: option.splits)
  have nm: "m = n" using launch_tag_inj[OF m(1) t(1)] .
  have ok: "entry_ok (n, R)" "entry_ok (n, S)" using Cons.prems(1,2) by (simp_all add: e ds nm)
  then have "set R = set S" using mask_inj[of n R S] m(2) by (simp add: nm entry_ok_def)
  with ok have "R = S" by (simp add: entry_ok_def bts_eq_iff)
  moreover have "cs = ds'" using Cons.IH[of ds' rest] Cons.prems(1,2) t(2) m(3) by (simp add: e ds)
  ultimately show ?case by (simp add: e ds nm)
qed

lemma grant_length: "grant_ok cs \<Longrightarrow> length cs \<le> 11"
proof -
  assume ok: "grant_ok cs"
  then have "distinct (map fst cs)" by (simp add: grant_ok_def capset_ok_def strict_sorted_iff)
  then have "length cs = card (set (map fst cs))" by (metis distinct_card length_map)
  also have "\<dots> \<le> card {''Console'', ''Clock'', ''Rand'', ''Env'', ''Secret'',
    ''SecretStore'', ''Dir'', ''File'', ''Net'', ''Fetch'', ''Exec''}"
    using ok host_names by (intro card_mono) (auto simp: grant_ok_def)
  finally show ?thesis by simp
qed

lemma launch_payload_form:
  assumes "grant_ok cs"
  obtains es where "launch_entries cs = Some es" "length es = 2 * length cs"
    "launch_payload cs h = Some (launch_version h # word_of_nat (length cs) # es
       @ (case launch_trailer h of None \<Rightarrow> [] | Some b \<Rightarrow> [b]))"
  using launch_entries_total[OF grant_ok_entries[OF assms]] grant_length[OF assms]
  by (auto simp: launch_payload_def)

lemma launch_version_inj: "launch_version g = launch_version h \<longleftrightarrow> g = h"
  by (cases g; cases h) simp_all

lemma launch_payload_heap:
  assumes "grant_ok cs" "launch_payload cs h = Some p"
  shows "from_launch_contract p = h"
proof -
  obtain es where es: "length es = 2 * length cs" "p = launch_version h # word_of_nat (length cs) # es
       @ (case launch_trailer h of None \<Rightarrow> [] | Some b \<Rightarrow> [b])"
    using launch_payload_form[OF assms(1), of h] assms(2) by auto
  have "unat (word_of_nat (length cs) :: 8 word) = length cs"
    using grant_length[OF assms(1)] by (simp add: unat_of_nat)
  then show ?thesis
    by (cases h) (simp_all add: es from_launch_contract_def launch_trailer_def)
qed

lemma launch_payload_inj:
  assumes "grant_ok cs" "grant_ok ds" "launch_payload cs g = launch_payload ds h"
  shows "cs = ds \<and> g = h"
proof -
  obtain es where es: "launch_entries cs = Some es" "launch_payload cs g = Some (launch_version g #
      word_of_nat (length cs) # es @ (case launch_trailer g of None \<Rightarrow> [] | Some b \<Rightarrow> [b]))"
    using launch_payload_form[OF assms(1)] by metis
  obtain fs where fs: "launch_entries ds = Some fs" "launch_payload ds h = Some (launch_version h #
      word_of_nat (length ds) # fs @ (case launch_trailer h of None \<Rightarrow> [] | Some b \<Rightarrow> [b]))"
    using launch_payload_form[OF assms(2)] by metis
  from es(2) fs(2) assms(3) have gh: "g = h" by (simp add: launch_version_inj)
  with es fs assms(3) have "launch_entries ds = Some es" by simp
  with gh es(1) launch_entries_inj[of cs ds es] assms(1,2) show ?thesis by (simp add: grant_ok_entries)
qed

section \<open>The launch contract\<close>

text \<open>
  building the launch contract of a module never panics - every granted capability has a tag and
  the count fits its byte - and the runtime's reader recovers the module's heap mode from it.
\<close>

theorem launch_contract_total:
  "\<exists>p. launch_contract_payload items = Some p \<and> from_launch_contract p = heap_mode items"
proof -
  obtain cs where cs: "run_grant items = Some cs" "grant_ok cs" using run_grant_ok by blast
  from launch_payload_form[OF cs(2), of "heap_mode items"] obtain p
    where "launch_payload cs (heap_mode items) = Some p" by metis
  with launch_payload_heap[OF cs(2)] cs(1) show ?thesis by (simp add: launch_contract_payload_def)
qed

text \<open>
  C11: the launch contract is faithful: two modules have the same payload exactly when their
  entrypoints are granted the same capabilities with the same rights and they have the same heap mode.
\<close>

theorem launch_contract_faithful:
  "launch_contract_payload a = launch_contract_payload b \<longleftrightarrow>
     run_grant a = run_grant b \<and> heap_mode a = heap_mode b"
proof -
  obtain cs where cs: "run_grant a = Some cs" "grant_ok cs" using run_grant_ok by blast
  obtain ds where ds: "run_grant b = Some ds" "grant_ok ds" using run_grant_ok by blast
  show ?thesis using launch_payload_inj[OF cs(2) ds(2)] by (auto simp: launch_contract_payload_def cs ds)
qed

end
