(* ===== verification/State_Result.thy ===== *)
theory State_Result
  imports Witchy_Prelude
begin

text \<open>
  Fallible code that updates state in place. A Rust method on \<open>&mut self\<close> that returns
  \<open>Result<T, String>\<close> is a function from the state to the result and the state it leaves behind:
  an early return with \<open>?\<close> keeps the updates made before it. A panic (an index out of range, a failed
  \<open>expect\<close>) is a fault of its own, so that its absence can be proved.

  The contract of such code is \<open>keeps\<close>: from a state that satisfies the invariant it does not panic,
  leaves the invariant intact whether it succeeds or fails, and a success satisfies a postcondition.
\<close>

datatype fault = Fail string | Panic

type_synonym 'a outcome = "(fault, 'a) result"
type_synonym ('s, 'a) sr = "'s \<Rightarrow> 'a outcome \<times> 's"

named_theorems keeps_intros \<open>rules of the state contract\<close>

section \<open>Pure fallible code\<close>

definition index :: "'a list \<Rightarrow> nat \<Rightarrow> 'a outcome" where
  "index xs i = (if i < length xs then Ok (xs ! i) else Err Panic)"

definition index_or :: "'a list \<Rightarrow> nat \<Rightarrow> string \<Rightarrow> 'a outcome" where
  "index_or xs i msg = (if i < length xs then Ok (xs ! i) else Err (Fail msg))"

definition set_index :: "'a list \<Rightarrow> nat \<Rightarrow> 'a \<Rightarrow> 'a list outcome" where
  "set_index xs i v = (if i < length xs then Ok (xs[i := v]) else Err Panic)"

text \<open>A \<open>for\<close> loop whose body only checks.\<close>

fun rfor :: "('a \<Rightarrow> ('e, unit) result) \<Rightarrow> 'a list \<Rightarrow> ('e, unit) result" where
  "rfor f [] = Ok ()"
| "rfor f (x # xs) = rbind (f x) (\<lambda>_. rfor f xs)"

lemma rfor_Ok [result_simps]: "rfor f xs = Ok u \<longleftrightarrow> (\<forall>x \<in> set xs. f x = Ok ())"
  by (induction xs) (auto simp: result_simps)

lemma rfor_Err: "rfor f xs = Err e \<Longrightarrow> \<exists>x \<in> set xs. f x = Err e"
  by (induction xs) (auto elim: rbind_ErrE)

lemma index_Ok [result_simps]: "index xs i = Ok v \<longleftrightarrow> i < length xs \<and> v = xs ! i"
  by (auto simp: index_def)

lemma index_or_Ok [result_simps]: "index_or xs i msg = Ok v \<longleftrightarrow> i < length xs \<and> v = xs ! i"
  by (auto simp: index_or_def)

lemma set_index_Ok [result_simps]: "set_index xs i v = Ok ys \<longleftrightarrow> i < length xs \<and> ys = xs[i := v]"
  by (auto simp: set_index_def)

lemma index_in [simp]: "i < length xs \<Longrightarrow> index xs i = Ok (xs ! i)"
  "i < length xs \<Longrightarrow> index_or xs i msg = Ok (xs ! i)"
  "i < length xs \<Longrightarrow> set_index xs i v = Ok (xs[i := v])"
  by (simp_all add: index_def index_or_def set_index_def)

definition no_panic :: "'a outcome \<Rightarrow> bool" where
  "no_panic r \<longleftrightarrow> r \<noteq> Err Panic"

named_theorems no_panic_intros \<open>absence of panics, by the shape of the code\<close>

lemma no_panic_simps [simp]: "no_panic (Ok x)" "no_panic (Err (Fail m))" "\<not> no_panic (Err Panic)"
  by (simp_all add: no_panic_def)

lemma no_panic_basic [no_panic_intros]:
  "no_panic (Ok x)" "no_panic (Err (Fail m))" "no_panic (rguard b (Fail m))" "no_panic (index_or xs i m)"
  "no_panic (ok_or y (Fail m))"
  by (simp_all add: rguard_def index_or_def ok_or_def split: option.splits)

lemma no_panic_index [no_panic_intros]: "i < length xs \<Longrightarrow> no_panic (index xs i)"
  "i < length xs \<Longrightarrow> no_panic (set_index xs i v)"
  by simp_all

lemma no_panic_if [no_panic_intros]: "(b \<Longrightarrow> no_panic r) \<Longrightarrow> (\<not> b \<Longrightarrow> no_panic r') \<Longrightarrow> no_panic (if b then r else r')"
  by simp

lemma no_panic_rbind [no_panic_intros]:
  "no_panic r \<Longrightarrow> (\<And>x. r = Ok x \<Longrightarrow> no_panic (f x)) \<Longrightarrow> no_panic (rbind r f)"
  by (cases r) (auto simp: no_panic_def)

lemma no_panic_rfor [no_panic_intros]: "(\<And>x. x \<in> set xs \<Longrightarrow> no_panic (f x)) \<Longrightarrow> no_panic (rfor f xs)"
  unfolding no_panic_def using rfor_Err by metis

section \<open>Stateful fallible code\<close>

definition sret :: "'a \<Rightarrow> ('s, 'a) sr" where
  "sret x s = (Ok x, s)"

definition serr :: "fault \<Rightarrow> ('s, 'a) sr" where
  "serr e s = (Err e, s)"

definition slift :: "'a outcome \<Rightarrow> ('s, 'a) sr" where
  "slift r s = (r, s)"

definition sget :: "('s, 's) sr" where
  "sget s = (Ok s, s)"

definition smodify :: "('s \<Rightarrow> 's) \<Rightarrow> ('s, unit) sr" where
  "smodify f s = (Ok (), f s)"

definition sbind :: "('s, 'a) sr \<Rightarrow> ('a \<Rightarrow> ('s, 'b) sr) \<Rightarrow> ('s, 'b) sr" where
  "sbind m f s = (case m s of (Inl e, s') \<Rightarrow> (Inl e, s') | (Inr x, s') \<Rightarrow> f x s')"

fun sfor :: "('a \<Rightarrow> ('s, unit) sr) \<Rightarrow> 'a list \<Rightarrow> ('s, unit) sr" where
  "sfor f [] = sret ()"
| "sfor f (x # xs) = sbind (f x) (\<lambda>_. sfor f xs)"

text \<open>A loop that collects the values of its body.\<close>

fun sfor_collect :: "('a \<Rightarrow> ('s, 'b) sr) \<Rightarrow> 'a list \<Rightarrow> ('s, 'b list) sr" where
  "sfor_collect f [] = sret []"
| "sfor_collect f (x # xs) = sbind (f x) (\<lambda>y. sbind (sfor_collect f xs) (\<lambda>ys. sret (y # ys)))"

lemma sr_simps [simp]:
  "sret x s = (Ok x, s)" "serr e s = (Err e, s)" "slift r s = (r, s)" "sget s = (Ok s, s)"
  "smodify f s = (Ok (), f s)"
  by (simp_all add: sret_def serr_def slift_def sget_def smodify_def)

lemma sbind_simps [simp]:
  "m s = (Inl e, s') \<Longrightarrow> sbind m f s = (Inl e, s')"
  "m s = (Inr x, s') \<Longrightarrow> sbind m f s = f x s'"
  by (simp_all add: sbind_def)

lemma sbind_OkE: "sbind m f s = (Inr y, s') \<Longrightarrow>
    (\<And>x t. m s = (Inr x, t) \<Longrightarrow> f x t = (Inr y, s') \<Longrightarrow> P) \<Longrightarrow> P"
  by (auto simp: sbind_def split: prod.splits sum.splits)

lemma sbind_slift: "sbind (slift r) f s = (case r of Inl e \<Rightarrow> (Inl e, s) | Inr x \<Rightarrow> f x s)"
  by (cases r) simp_all

section \<open>The contract\<close>

definition triple :: "('s \<Rightarrow> bool) \<Rightarrow> ('s, 'a) sr \<Rightarrow> ('a \<Rightarrow> 's \<Rightarrow> bool) \<Rightarrow> ('s \<Rightarrow> bool) \<Rightarrow> bool" where
  "triple P m Q E \<longleftrightarrow> (\<forall>s. P s \<longrightarrow> (case m s of
     (Inr x, s') \<Rightarrow> Q x s' | (Inl Panic, s') \<Rightarrow> False | (Inl (Fail _), s') \<Rightarrow> E s'))"

lemma tripleI:
  assumes "\<And>s. P s \<Longrightarrow> (case m s of
     (Inr x, s') \<Rightarrow> Q x s' | (Inl Panic, s') \<Rightarrow> False | (Inl (Fail _), s') \<Rightarrow> E s')"
  shows "triple P m Q E"
  using assms by (simp add: triple_def)

lemma triple_Ok: "triple P m Q E \<Longrightarrow> P s \<Longrightarrow> m s = (Inr x, s') \<Longrightarrow> Q x s'"
  by (auto simp: triple_def)

lemma triple_Err: "triple P m Q E \<Longrightarrow> P s \<Longrightarrow> m s = (Inl e, s') \<Longrightarrow> e \<noteq> Panic \<and> E s'"
  unfolding triple_def by (cases e) force+

lemma triple_sret: "(\<And>s. P s \<Longrightarrow> Q x s) \<Longrightarrow> triple P (sret x) Q E"
  by (simp add: triple_def)

lemma triple_serr: "(\<And>s. P s \<Longrightarrow> E s) \<Longrightarrow> triple P (serr (Fail m)) Q E"
  by (simp add: triple_def)

lemma triple_sget: "(\<And>s. P s \<Longrightarrow> Q s s) \<Longrightarrow> triple P sget Q E"
  by (simp add: triple_def)

lemma triple_smodify: "(\<And>s. P s \<Longrightarrow> Q () (f s)) \<Longrightarrow> triple P (smodify f) Q E"
  by (simp add: triple_def)

lemma triple_slift:
  assumes "\<And>s. P s \<Longrightarrow> no_panic r" "\<And>s x. P s \<Longrightarrow> r = Ok x \<Longrightarrow> Q x s" "\<And>s. P s \<Longrightarrow> E s"
  shows "triple P (slift r) Q E"
  using assms by (cases r) (auto simp: triple_def no_panic_def split: fault.splits)

lemma triple_sbind:
  assumes "triple P m Q E" "\<And>x. triple (Q x) (f x) R E"
  shows "triple P (sbind m f) R E"
proof (rule tripleI)
  fix s assume "P s"
  obtain r t where m: "m s = (r, t)" by (cases "m s")
  show "case sbind m f s of (Inr x, s') \<Rightarrow> R x s' | (Inl Panic, s') \<Rightarrow> False | (Inl (Fail _), s') \<Rightarrow> E s'"
  proof (cases r)
    case (Inl e)
    with triple_Err[OF assms(1) \<open>P s\<close>] m show ?thesis by (cases e) auto
  next
    case (Inr x)
    with triple_Ok[OF assms(1) \<open>P s\<close>] m have "Q x t" by simp
    with assms(2)[of x] Inr m show ?thesis by (simp add: triple_def)
  qed
qed

lemma triple_sfor:
  assumes "\<And>x. x \<in> set xs \<Longrightarrow> triple P (f x) (\<lambda>_. P) E"
  shows "triple P (sfor f xs) (\<lambda>_. P) E"
  using assms by (induction xs) (auto intro!: triple_sret triple_sbind)

lemma triple_if:
  "(b \<Longrightarrow> triple P m Q E) \<Longrightarrow> (\<not> b \<Longrightarrow> triple P n Q E) \<Longrightarrow> triple P (if b then m else n) Q E"
  by simp

lemma triple_weaken: "triple P m Q E \<Longrightarrow> (\<And>s. P' s \<Longrightarrow> P s) \<Longrightarrow> (\<And>x s. Q x s \<Longrightarrow> Q' x s) \<Longrightarrow>
    (\<And>s. E s \<Longrightarrow> E' s) \<Longrightarrow> triple P' m Q' E'"
  unfolding triple_def by (fastforce split: prod.splits sum.splits fault.splits)

lemma triple_sget_bind:
  assumes "\<And>ex. P ex \<Longrightarrow> triple P (f ex) Q E"
  shows "triple P (sbind sget f) Q E"
  using assms by (auto simp: triple_def)

lemma triple_slift_bind:
  assumes "no_panic r" "\<And>x. r = Ok x \<Longrightarrow> triple P (f x) Q E" "\<And>s. P s \<Longrightarrow> E s"
  shows "triple P (sbind (slift r) f) Q E"
proof (cases r)
  case (Inl e)
  with assms show ?thesis by (cases e) (auto simp: triple_def)
next
  case (Inr x)
  with assms(2)[OF this] show ?thesis by (simp add: triple_def)
qed

text \<open>Code that keeps an invariant, whether it succeeds or fails.\<close>

definition keeps :: "('s \<Rightarrow> bool) \<Rightarrow> ('s, 'a) sr \<Rightarrow> bool" where
  "keeps I m \<longleftrightarrow> triple I m (\<lambda>_. I) I"

lemma keepsD: "keeps I m \<Longrightarrow> I s \<Longrightarrow> m s = (r, s') \<Longrightarrow> I s' \<and> no_panic r"
proof -
  assume k: "keeps I m" and "I s" "m s = (r, s')"
  show ?thesis
  proof (cases r)
    case (Inl e)
    with triple_Err[OF k[unfolded keeps_def] \<open>I s\<close>] \<open>m s = (r, s')\<close> show ?thesis by (simp add: no_panic_def)
  next
    case (Inr x)
    with triple_Ok[OF k[unfolded keeps_def] \<open>I s\<close>] \<open>m s = (r, s')\<close> show ?thesis by simp
  qed
qed

lemma keepsI: "(\<And>s r s'. I s \<Longrightarrow> m s = (r, s') \<Longrightarrow> I s' \<and> no_panic r) \<Longrightarrow> keeps I m"
  unfolding keeps_def
proof (rule tripleI)
  fix s assume a: "\<And>s r s'. I s \<Longrightarrow> m s = (r, s') \<Longrightarrow> I s' \<and> no_panic r" and "I s"
  obtain r s' where m: "m s = (r, s')" by (cases "m s")
  from a[OF \<open>I s\<close> m] show "case m s of (Inr x, s') \<Rightarrow> I s' | (Inl Panic, s') \<Rightarrow> False | (Inl (Fail _), s') \<Rightarrow> I s'"
    unfolding m by (auto simp: no_panic_def split: sum.splits fault.splits)
qed

lemma keeps_sret [keeps_intros]: "keeps I (sret x)"
  by (simp add: keeps_def triple_def)

lemma keeps_serr [keeps_intros]: "keeps I (serr (Fail m))"
  by (simp add: keeps_def triple_def)

lemma keeps_smodify: "(\<And>s. I s \<Longrightarrow> I (f s)) \<Longrightarrow> keeps I (smodify f)"
  by (simp add: keeps_def triple_def)

lemma keeps_sbind [keeps_intros]: "keeps I m \<Longrightarrow> (\<And>x. keeps I (f x)) \<Longrightarrow> keeps I (sbind m f)"
  unfolding keeps_def by (rule triple_sbind)

lemma keeps_sget_bind: "(\<And>ex. I ex \<Longrightarrow> keeps I (f ex)) \<Longrightarrow> keeps I (sbind sget f)"
  unfolding keeps_def by (rule triple_sget_bind)

lemma keeps_slift [keeps_intros]: "no_panic r \<Longrightarrow> keeps I (slift r)"
  by (auto intro!: keepsI)

lemma keeps_slift_bind: "no_panic r \<Longrightarrow> (\<And>x. r = Ok x \<Longrightarrow> keeps I (f x)) \<Longrightarrow> keeps I (sbind (slift r) f)"
  unfolding keeps_def by (rule triple_slift_bind)

lemma keeps_sfor: "(\<And>x. x \<in> set xs \<Longrightarrow> keeps I (f x)) \<Longrightarrow> keeps I (sfor f xs)"
  unfolding keeps_def by (rule triple_sfor)

lemma keeps_sfor_collect: "(\<And>x. x \<in> set xs \<Longrightarrow> keeps I (f x)) \<Longrightarrow> keeps I (sfor_collect f xs)"
  by (induction xs) (auto intro!: keeps_intros)

lemma keeps_if [keeps_intros]: "(b \<Longrightarrow> keeps I m) \<Longrightarrow> (\<not> b \<Longrightarrow> keeps I n) \<Longrightarrow> keeps I (if b then m else n)"
  by simp

section \<open>Sequences of calls\<close>

text \<open>A call whose value is not used.\<close>

definition discard :: "('s, 'a) sr \<Rightarrow> ('s, unit) sr" where
  "discard m = sbind m (\<lambda>_. sret ())"

lemma keeps_discard: "keeps I m \<Longrightarrow> keeps I (discard m)"
  by (simp add: discard_def keeps_intros)

text \<open>Calls made one after the other, each on the state the previous one left, failures included.\<close>

fun performs :: "('c \<Rightarrow> ('s, unit) sr) \<Rightarrow> 'c list \<Rightarrow> 's \<Rightarrow> unit outcome list \<times> 's" where
  "performs perform [] s = ([], s)"
| "performs perform (c # cs) s =
     (case perform c s of (r, s1) \<Rightarrow> case performs perform cs s1 of (rs, s2) \<Rightarrow> (r # rs, s2))"

text \<open>A component all of whose calls keep its invariant never panics and never leaves it.\<close>

locale steadfast =
  fixes inv :: "'s \<Rightarrow> bool" and perform :: "'c \<Rightarrow> ('s, unit) sr"
  assumes perform_keeps: "keeps inv (perform c)"
begin

lemma performs_ok: "inv s \<Longrightarrow> list_all no_panic (fst (performs perform cs s)) \<and> inv (snd (performs perform cs s))"
proof (induction cs arbitrary: s)
  case (Cons c cs)
  obtain r s1 where c: "perform c s = (r, s1)" by (cases "perform c s")
  from keepsD[OF perform_keeps Cons.prems c] Cons.IH[of s1] c show ?case by (auto split: prod.splits)
qed simp

end

end
