(* ===== verification/Typed_Execution.thy ===== *)
theory Typed_Execution
  imports Module_Ast State_Result
begin

text \<open>
  The executable contract of resumable tasks (crates/witchy-types/src/typed_execution.rs): frames of
  lanes, states with their transitions, operation sites and queue shapes, and the validation that
  every backend runs before it binds a shape. A newtype over \<open>u32\<close> is a 32-bit word; \<open>x.0 as usize\<close>
  is \<open>unat\<close>, and \<open>len() as u32\<close> truncates as it does in the source.
\<close>

section \<open>Shapes\<close>

datatype SourceExecutionMode = NormalMode | OptMode

type_synonym ExecutionShapeId = "32 word"
type_synonym ExecutionStateId = "32 word"
type_synonym FrameLaneId = "32 word"
type_synonym OperationSiteId = "32 word"
type_synonym QueueShapeId = "32 word"

datatype LaneOwnership = CopyLane | MoveLane | MustConsume

record FrameLane =
  fl_id :: FrameLaneId
  fl_ty :: Type
  fl_ownership :: LaneOwnership
  fl_initially_initialized :: bool

datatype ExecutionOperation =
  ChannelSend | ChannelReceive | Select | Spawn | Join | HostOperation | Yield | CancellationOperation

datatype ExecutionEdgeCondition =
    Always
  | BooleanEdge FrameLaneId bool
  | VariantEdge FrameLaneId "32 word"
  | SelectArmEdge OperationSiteId "32 word"

datatype LaneAction =
    CopyLanes FrameLaneId FrameLaneId
  | MoveLanes FrameLaneId FrameLaneId
  | WriteLane FrameLaneId
  | ClearLane FrameLaneId
  | DischargeLane FrameLaneId

datatype ExecutionOutcome =
    ContinueTo ExecutionStateId
  | ReadyAt ExecutionStateId
  | BlockedOn OperationSiteId ExecutionStateId
  | CompleteOutcome
  | PropagateErrorOutcome
  | TrapOutcome

record ExecutionTransition =
  tr_condition :: ExecutionEdgeCondition
  tr_actions :: "LaneAction list"
  tr_outcome :: ExecutionOutcome

record ExecutionState =
  es_id :: ExecutionStateId
  es_transitions :: "ExecutionTransition list"

datatype QueueCapacity = Rendezvous | Fixed "32 word" | Dynamic

datatype PayloadOwnership = InlinePayload | BufferRoot | Boxed

record QueueShape =
  qs_id :: QueueShapeId
  qs_capacity :: QueueCapacity
  qs_payload_layout_fingerprint :: "8 word list"
  qs_ownership :: PayloadOwnership

record OperationArm =
  oa_ordinal :: "32 word"
  oa_operation :: ExecutionOperation
  oa_endpoint_lane :: FrameLaneId
  oa_input_lanes :: "FrameLaneId list"
  oa_result_lanes :: "FrameLaneId list"
  oa_queue :: "QueueShapeId option"
  oa_ownership :: PayloadOwnership

record OperationSite =
  os_id :: OperationSiteId
  os_kind :: ExecutionOperation
  os_input_lanes :: "FrameLaneId list"
  os_result_lanes :: "FrameLaneId list"
  os_pending_move_lanes :: "FrameLaneId list"
  os_fallback_state :: "ExecutionStateId option"
  os_queue :: "QueueShapeId option"
  os_arms :: "OperationArm list"

record CancellationTransition =
  ct_operation :: OperationSiteId
  ct_state :: ExecutionStateId

record TypedExecutionShape =
  te_id :: ExecutionShapeId
  te_mode :: SourceExecutionMode
  te_entry :: ExecutionStateId
  te_frame :: "FrameLane list"
  te_result_lanes :: "FrameLaneId list"
  te_states :: "ExecutionState list"
  te_operations :: "OperationSite list"
  te_queues :: "QueueShape list"
  te_cancellation :: "CancellationTransition option"

section \<open>References\<close>

text \<open>\<open>dense\<close> from its \<open>n\<close>-th element on.\<close>

fun dense_from :: "nat \<Rightarrow> string \<Rightarrow> 32 word list \<Rightarrow> unit outcome" where
  "dense_from n label [] = Ok ()"
| "dense_from n label (actual # ids) =
     (if actual \<noteq> word_of_nat n then Err (Fail (label @ '' IDs must be dense'')) else dense_from (Suc n) label ids)"

definition dense :: "string \<Rightarrow> 32 word list \<Rightarrow> unit outcome" where
  "dense label ids = dense_from 0 label ids"

definition check_lane :: "32 word \<Rightarrow> FrameLaneId \<Rightarrow> unit outcome" where
  "check_lane lane_count lane =
     (if lane < lane_count then Ok () else Err (Fail ''transition references absent frame lane''))"

fun validate_action :: "LaneAction \<Rightarrow> 32 word \<Rightarrow> unit outcome" where
  "validate_action (CopyLanes from to) n = rbind (check_lane n from) (\<lambda>_. check_lane n to)"
| "validate_action (MoveLanes from to) n = rbind (check_lane n from) (\<lambda>_. check_lane n to)"
| "validate_action (WriteLane to) n = check_lane n to"
| "validate_action (ClearLane lane) n = check_lane n lane"
| "validate_action (DischargeLane lane) n = check_lane n lane"

fun validate_condition :: "ExecutionEdgeCondition \<Rightarrow> 32 word \<Rightarrow> OperationSite list \<Rightarrow> unit outcome" where
  "validate_condition Always n ops = Ok ()"
| "validate_condition (BooleanEdge lane _) n ops =
     (if lane < n then Ok () else Err (Fail ''execution edge condition references absent frame lane''))"
| "validate_condition (VariantEdge lane _) n ops =
     (if lane < n then Ok () else Err (Fail ''execution edge condition references absent frame lane''))"
| "validate_condition (SelectArmEdge operation arm) n ops =
     rbind (index_or ops (unat operation) ''execution edge condition references absent operation'') (\<lambda>site.
       if os_kind site \<noteq> Select then Err (Fail ''execution select-arm condition names a non-select operation'')
       else if unat arm \<ge> length (os_arms site)
       then Err (Fail ''execution select-arm condition references absent select arm'')
       else Ok ())"

definition validate_outcome :: "ExecutionOutcome \<Rightarrow> 32 word \<Rightarrow> 32 word \<Rightarrow> unit outcome" where
  "validate_outcome outcome state_count operation_count =
     (case outcome of
        ContinueTo next \<Rightarrow> if next \<ge> state_count then Err (Fail ''execution transition has absent successor'') else Ok ()
      | ReadyAt next \<Rightarrow> if next \<ge> state_count then Err (Fail ''execution transition has absent successor'') else Ok ()
      | BlockedOn operation retry \<Rightarrow>
          if operation \<ge> operation_count \<or> retry \<ge> state_count
          then Err (Fail ''blocked transition has absent operation or retry state'') else Ok ()
      | _ \<Rightarrow> Ok ())"

definition validate_state :: "TypedExecutionShape \<Rightarrow> ExecutionState \<Rightarrow> unit outcome" where
  "validate_state sh state =
     (let lane_count = word_of_nat (length (te_frame sh));
          state_count = word_of_nat (length (te_states sh));
          operation_count = word_of_nat (length (te_operations sh)) in
      if es_transitions state = []
      then Err (Fail (''execution state '' @ show_nat (unat (es_id state)) @ '' has no transition''))
      else rfor (\<lambda>transition.
        rbind (rfor (\<lambda>action. validate_action action lane_count) (tr_actions transition)) (\<lambda>_.
        rbind (validate_condition (tr_condition transition) lane_count (te_operations sh)) (\<lambda>_.
        validate_outcome (tr_outcome transition) state_count operation_count))) (es_transitions state))"

definition is_channel :: "ExecutionOperation \<Rightarrow> bool" where
  "is_channel k \<longleftrightarrow> k = ChannelSend \<or> k = ChannelReceive"

definition validate_arm_queue :: "QueueShape list \<Rightarrow> OperationArm \<Rightarrow> unit outcome" where
  "validate_arm_queue queues arm =
     (if is_channel (oa_operation arm) then
        (case oa_queue arm of
           None \<Rightarrow> Err (Fail ''channel select arm has no queue binding'')
         | Some q \<Rightarrow> rbind (index queues (unat q)) (\<lambda>queue.
             if qs_ownership queue \<noteq> oa_ownership arm
             then Err (Fail ''channel select arm ownership disagrees with queue shape'') else Ok ()))
      else if oa_queue arm \<noteq> None then Err (Fail ''non-channel select arm has a queue binding'')
      else Ok ())"

text \<open>The counter \<open>expected_arm\<close> is a \<open>u32\<close>; it cannot wrap below \<open>2\<^sup>3\<^sup>2\<close> arms.\<close>

fun validate_arms :: "32 word \<Rightarrow> QueueShape list \<Rightarrow> 32 word \<Rightarrow> OperationArm list \<Rightarrow> unit outcome" where
  "validate_arms lane_count queues expected_arm [] = Ok ()"
| "validate_arms lane_count queues expected_arm (arm # arms) =
     (if oa_ordinal arm \<noteq> expected_arm then Err (Fail ''operation arm IDs must be dense and ordered'')
      else if oa_endpoint_lane arm \<ge> lane_count
        \<or> list_ex (\<lambda>lane. lane \<ge> lane_count) (oa_input_lanes arm @ oa_result_lanes arm)
      then Err (Fail ''operation arm references absent frame lane'')
      else if (case oa_queue arm of None \<Rightarrow> False | Some q \<Rightarrow> unat q \<ge> length queues)
      then Err (Fail ''operation arm references absent queue shape'')
      else rbind (validate_arm_queue queues arm) (\<lambda>_.
        validate_arms lane_count queues (expected_arm + 1) arms))"

definition validate_kind :: "OperationSite \<Rightarrow> unit outcome" where
  "validate_kind operation =
     (if is_channel (os_kind operation) then
        (if os_queue operation = None \<or> os_arms operation \<noteq> []
         then Err (Fail ''direct channel operation must have one queue and no select arms'') else Ok ())
      else if os_kind operation = Select then
        (if os_queue operation \<noteq> None \<or> os_arms operation = []
         then Err (Fail ''select operation must have ordered arms and no direct queue'') else Ok ())
      else if os_queue operation \<noteq> None \<or> os_arms operation \<noteq> []
      then Err (Fail ''non-channel operation cannot carry queue or select-arm bindings'')
      else Ok ())"

definition validate_operation :: "TypedExecutionShape \<Rightarrow> OperationSite \<Rightarrow> unit outcome" where
  "validate_operation sh operation =
     (let lane_count = word_of_nat (length (te_frame sh));
          state_count = word_of_nat (length (te_states sh)) in
      if list_ex (\<lambda>lane. lane \<ge> lane_count)
           (os_input_lanes operation @ os_result_lanes operation @ os_pending_move_lanes operation)
      then Err (Fail ''operation references absent frame lane'')
      else if (case os_fallback_state operation of None \<Rightarrow> False | Some state \<Rightarrow> state \<ge> state_count)
      then Err (Fail ''operation fallback references absent state'')
      else if (case os_queue operation of None \<Rightarrow> False | Some q \<Rightarrow> unat q \<ge> length (te_queues sh))
      then Err (Fail ''operation references absent queue shape'')
      else rbind (validate_kind operation) (\<lambda>_.
        validate_arms lane_count (te_queues sh) 0 (os_arms operation)))"

definition validate_select_edge :: "TypedExecutionShape \<Rightarrow> ExecutionTransition \<Rightarrow> unit outcome" where
  "validate_select_edge sh transition =
     (case tr_condition transition of
        SelectArmEdge operation arm \<Rightarrow>
          rbind (index (te_operations sh) (unat operation)) (\<lambda>site.
            if os_kind site \<noteq> Select \<or> \<not> unat arm < length (os_arms site)
            then Err (Fail ''select-arm edge does not name a declared select arm'') else Ok ())
      | _ \<Rightarrow> Ok ())"

definition validate_cancellation :: "TypedExecutionShape \<Rightarrow> unit outcome" where
  "validate_cancellation sh =
     (case te_cancellation sh of
        None \<Rightarrow> Ok ()
      | Some c \<Rightarrow>
          if ct_operation c \<ge> word_of_nat (length (te_operations sh))
             \<or> ct_state c \<ge> word_of_nat (length (te_states sh))
          then Err (Fail ''cancellation transition has absent operation or cleanup state'')
          else rbind (index (te_operations sh) (unat (ct_operation c))) (\<lambda>site.
            if os_kind site \<noteq> CancellationOperation
            then Err (Fail ''cancellation transition must name a cancellation operation'') else Ok ()))"

text \<open>Everything \<open>validate\<close> checks before the must-lane paths.\<close>

definition validate_references :: "TypedExecutionShape \<Rightarrow> unit outcome" where
  "validate_references sh =
     rbind (dense ''frame lane'' (map fl_id (te_frame sh))) (\<lambda>_.
     rbind (dense ''execution state'' (map es_id (te_states sh))) (\<lambda>_.
     rbind (dense ''operation site'' (map os_id (te_operations sh))) (\<lambda>_.
     rbind (dense ''queue shape'' (map qs_id (te_queues sh))) (\<lambda>_.
     if \<not> unat (te_entry sh) < length (te_states sh) then Err (Fail ''execution entry state is absent'')
     else if list_ex (\<lambda>lane. lane \<ge> word_of_nat (length (te_frame sh))) (te_result_lanes sh)
     then Err (Fail ''execution result binding references absent frame lane'')
     else rbind (rfor (validate_state sh) (te_states sh)) (\<lambda>_.
     rbind (rfor (validate_operation sh) (te_operations sh)) (\<lambda>_.
     rbind (rfor (\<lambda>state. rfor (validate_select_edge sh) (es_transitions state)) (te_states sh)) (\<lambda>_.
     validate_cancellation sh)))))))"

section \<open>What a validated shape guarantees\<close>

lemma word_less_count: "w < word_of_nat n \<Longrightarrow> unat w < n" for w :: "32 word"
proof -
  assume "w < word_of_nat n"
  then have "unat w < unat (word_of_nat n :: 32 word)" by (simp add: word_less_nat_alt)
  also have "\<dots> \<le> n" by (simp add: unat_of_nat)
  finally show ?thesis .
qed

fun action_lanes :: "LaneAction \<Rightarrow> FrameLaneId list" where
  "action_lanes (CopyLanes from to) = [from, to]"
| "action_lanes (MoveLanes from to) = [from, to]"
| "action_lanes (WriteLane to) = [to]"
| "action_lanes (ClearLane lane) = [lane]"
| "action_lanes (DischargeLane lane) = [lane]"

fun outcome_target :: "ExecutionOutcome \<Rightarrow> ExecutionStateId option" where
  "outcome_target (ContinueTo s) = Some s"
| "outcome_target (ReadyAt s) = Some s"
| "outcome_target (BlockedOn _ s) = Some s"
| "outcome_target _ = None"

definition transition_ok :: "TypedExecutionShape \<Rightarrow> ExecutionTransition \<Rightarrow> bool" where
  "transition_ok sh t \<longleftrightarrow>
     (\<forall>a \<in> set (tr_actions t). \<forall>l \<in> set (action_lanes a). unat l < length (te_frame sh)) \<and>
     (\<forall>s. outcome_target (tr_outcome t) = Some s \<longrightarrow> unat s < length (te_states sh)) \<and>
     (\<forall>op s. tr_outcome t = BlockedOn op s \<longrightarrow> unat op < length (te_operations sh))"

definition arm_ok :: "TypedExecutionShape \<Rightarrow> OperationArm \<Rightarrow> bool" where
  "arm_ok sh arm \<longleftrightarrow> (\<forall>l \<in> set (oa_result_lanes arm). unat l < length (te_frame sh)) \<and>
     (is_channel (oa_operation arm) \<longrightarrow> (\<exists>q. oa_queue arm = Some q \<and> unat q < length (te_queues sh)))"

definition site_ok :: "TypedExecutionShape \<Rightarrow> OperationSite \<Rightarrow> bool" where
  "site_ok sh site \<longleftrightarrow>
     (\<forall>l \<in> set (os_result_lanes site @ os_pending_move_lanes site). unat l < length (te_frame sh)) \<and>
     (\<forall>s. os_fallback_state site = Some s \<longrightarrow> unat s < length (te_states sh)) \<and>
     (is_channel (os_kind site) \<longrightarrow> (\<exists>q. os_queue site = Some q \<and> unat q < length (te_queues sh))) \<and>
     (\<forall>arm \<in> set (os_arms site). arm_ok sh arm)"

definition shape_ok :: "TypedExecutionShape \<Rightarrow> bool" where
  "shape_ok sh \<longleftrightarrow>
     unat (te_entry sh) < length (te_states sh) \<and>
     (\<forall>l \<in> set (te_result_lanes sh). unat l < length (te_frame sh)) \<and>
     (\<forall>st \<in> set (te_states sh). es_transitions st \<noteq> [] \<and> (\<forall>t \<in> set (es_transitions st). transition_ok sh t)) \<and>
     (\<forall>site \<in> set (te_operations sh). site_ok sh site) \<and>
     (\<forall>c. te_cancellation sh = Some c \<longrightarrow> unat (ct_state c) < length (te_states sh))"

lemma validate_action_Ok: "validate_action a n = Ok u \<Longrightarrow> \<forall>l \<in> set (action_lanes a). l < n"
  by (cases a) (auto simp: check_lane_def result_simps split: if_splits)

lemma validate_outcome_Ok: "validate_outcome out ns nops = Ok u \<Longrightarrow>
    (\<forall>s. outcome_target out = Some s \<longrightarrow> s < ns) \<and> (\<forall>op s. out = BlockedOn op s \<longrightarrow> op < nops)"
  by (cases out) (auto simp: validate_outcome_def split: if_splits)

lemma validate_state_Ok:
  assumes "validate_state sh st = Ok u"
  shows "es_transitions st \<noteq> [] \<and> (\<forall>t \<in> set (es_transitions st). transition_ok sh t)"
proof -
  from assms have ne: "es_transitions st \<noteq> []"
    and each: "\<And>t. t \<in> set (es_transitions st) \<Longrightarrow>
      rfor (\<lambda>action. validate_action action (word_of_nat (length (te_frame sh)))) (tr_actions t) = Ok () \<and>
      validate_outcome (tr_outcome t) (word_of_nat (length (te_states sh))) (word_of_nat (length (te_operations sh))) = Ok ()"
    by (auto simp: validate_state_def Let_def result_simps split: if_splits)
  have "transition_ok sh t" if "t \<in> set (es_transitions st)" for t
    using each[OF that] validate_action_Ok validate_outcome_Ok word_less_count
    unfolding transition_ok_def by (fastforce simp: result_simps)
  with ne show ?thesis by blast
qed

lemma validate_arms_Ok: "validate_arms (word_of_nat (length (te_frame sh))) (te_queues sh) n arms = Ok u \<Longrightarrow>
    arm \<in> set arms \<Longrightarrow> arm_ok sh arm"
proof (induction arms arbitrary: n)
  case (Cons a arms)
  from Cons.prems(1) have a: "\<forall>l \<in> set (oa_result_lanes a). l < word_of_nat (length (te_frame sh))"
      "validate_arm_queue (te_queues sh) a = Ok ()"
      "validate_arms (word_of_nat (length (te_frame sh))) (te_queues sh) (n + 1) arms = Ok u"
    by (auto simp: result_simps list_ex_iff not_le split: if_splits)
  have "arm_ok sh a" using a(1,2) word_less_count
    by (fastforce simp: arm_ok_def validate_arm_queue_def result_simps split: if_splits option.splits)
  with Cons.IH[OF a(3)] Cons.prems(2) show ?case by auto
qed simp

lemma validate_operation_Ok: "validate_operation sh site = Ok u \<Longrightarrow> site_ok sh site"
proof -
  assume v: "validate_operation sh site = Ok u"
  then have lanes: "\<forall>l \<in> set (os_result_lanes site @ os_pending_move_lanes site). l < word_of_nat (length (te_frame sh))"
    and fb: "\<forall>s. os_fallback_state site = Some s \<longrightarrow> s < word_of_nat (length (te_states sh))"
    and q: "\<forall>q. os_queue site = Some q \<longrightarrow> unat q < length (te_queues sh)"
    and k: "validate_kind site = Ok ()"
    and arms: "validate_arms (word_of_nat (length (te_frame sh))) (te_queues sh) 0 (os_arms site) = Ok u"
    by (auto simp: validate_operation_def Let_def result_simps list_ex_iff not_le split: if_splits option.splits)
  have "is_channel (os_kind site) \<Longrightarrow> os_queue site \<noteq> None" using k by (auto simp: validate_kind_def split: if_splits)
  with q lanes fb validate_arms_Ok[OF arms] show ?thesis
    by (auto simp: site_ok_def dest: word_less_count)
qed

lemma validate_references_Ok: "validate_references sh = Ok u \<Longrightarrow> shape_ok sh"
  unfolding validate_references_def
proof (elim rbind_OkE if_Err_OkE)
  fix x5 x6
  assume e: "\<not> \<not> unat (te_entry sh) < length (te_states sh)"
    and r: "\<not> list_ex (\<lambda>lane. lane \<ge> word_of_nat (length (te_frame sh))) (te_result_lanes sh)"
    and st: "rfor (validate_state sh) (te_states sh) = Ok x5"
    and os: "rfor (validate_operation sh) (te_operations sh) = Ok x6"
    and c: "validate_cancellation sh = Ok u"
  have "\<forall>l \<in> set (te_result_lanes sh). unat l < length (te_frame sh)"
    using r by (auto simp: list_ex_iff not_le dest: word_less_count)
  moreover have "\<forall>c. te_cancellation sh = Some c \<longrightarrow> unat (ct_state c) < length (te_states sh)"
    using c by (auto simp: validate_cancellation_def not_le split: if_splits dest: word_less_count)
  moreover have "\<forall>st \<in> set (te_states sh). validate_state sh st = Ok ()" using st by (simp only: rfor_Ok)
  moreover have "\<forall>site \<in> set (te_operations sh). validate_operation sh site = Ok ()" using os by (simp only: rfor_Ok)
  ultimately show "shape_ok sh"
    using e validate_state_Ok[of sh] validate_operation_Ok[of sh] unfolding shape_ok_def by blast
qed

lemma no_panic_validate_action [no_panic_intros]: "no_panic (validate_action a n)"
  by (cases a) (auto simp: check_lane_def intro!: no_panic_intros)

lemma no_panic_validate_condition [no_panic_intros]: "no_panic (validate_condition c n ops)"
  by (cases c) (auto intro!: no_panic_intros)

lemma no_panic_validate_outcome [no_panic_intros]: "no_panic (validate_outcome out ns nops)"
  by (cases out) (simp_all add: validate_outcome_def)

lemma no_panic_validate_state [no_panic_intros]: "no_panic (validate_state sh st)"
  unfolding validate_state_def Let_def by (intro no_panic_intros)

lemma no_panic_validate_arms [no_panic_intros]: "no_panic (validate_arms n queues k arms)"
proof (induction arms arbitrary: k)
  case (Cons arm arms)
  have "no_panic (validate_arm_queue queues arm)"
    if "\<not> (case oa_queue arm of None \<Rightarrow> False | Some q \<Rightarrow> unat q \<ge> length queues)"
    using that by (auto simp: validate_arm_queue_def intro!: no_panic_intros split: option.splits)
  with Cons show ?case by (auto intro!: no_panic_rbind)
qed simp

lemma no_panic_validate_operation [no_panic_intros]: "no_panic (validate_operation sh site)"
  unfolding validate_operation_def validate_kind_def Let_def by (intro no_panic_intros)

lemma no_panic_validate_select_edge:
  assumes "validate_state sh st = Ok u" "t \<in> set (es_transitions st)"
  shows "no_panic (validate_select_edge sh t)"
proof -
  have "validate_condition (tr_condition t) (word_of_nat (length (te_frame sh))) (te_operations sh) = Ok ()"
    using assms by (auto simp: validate_state_def Let_def result_simps split: if_splits)
  then show ?thesis
    by (cases "tr_condition t") (auto simp: validate_select_edge_def result_simps intro!: no_panic_intros)
qed

lemma no_panic_validate_cancellation [no_panic_intros]: "no_panic (validate_cancellation sh)"
  by (auto simp: validate_cancellation_def not_le split: option.splits dest: word_less_count intro!: no_panic_intros)

lemma no_panic_dense [no_panic_intros]: "no_panic (dense label ids)"
proof -
  have "no_panic (dense_from n label ids)" for n by (induction ids arbitrary: n) auto
  then show ?thesis by (simp add: dense_def)
qed

lemma no_panic_validate_references: "no_panic (validate_references sh)"
  unfolding validate_references_def
  by (intro no_panic_intros) (auto simp: rfor_Ok intro: no_panic_validate_select_edge)

end
