(* ===== verification/Must_Lanes.thy ===== *)
theory Must_Lanes
  imports Typed_Execution
begin

text \<open>
  The must-consume lanes of a shape (crates/witchy-types/src/typed_execution.rs,
  \<open>validate_must_lane_paths\<close>). A worklist propagates, for every state, which of "empty" and "live" is
  possible for each such lane. The worklist ends (the masks only grow), it cannot panic on a shape whose
  references are valid, and the table it ends with is closed under every transition, which is what
  the execution kernel relies on.
\<close>

unbundle bit_operations_syntax

section \<open>The analysis\<close>

type_synonym mask = "8 word list"
type_synonym mask_table = "mask option list"

definition EMPTY :: "8 word" where "EMPTY = 1"
definition LIVE :: "8 word" where "LIVE = 2"

definition must_lanes :: "TypedExecutionShape \<Rightarrow> bool list" where
  "must_lanes sh = map (\<lambda>lane. fl_ownership lane = MustConsume) (te_frame sh)"

fun apply_must_action :: "bool list \<Rightarrow> LaneAction \<Rightarrow> mask \<Rightarrow> mask outcome" where
  "apply_must_action must (CopyLanes from to) initialized =
     rbind (index must (unat from)) (\<lambda>must_from.
     if must_from then Err (Fail ''execution transition copies a must-consume frame lane'')
     else rbind (index must (unat to)) (\<lambda>must_to.
     if must_to
     then Err (Fail ''execution transition writes a non-must value into a must-consume frame lane'')
     else Ok initialized))"
| "apply_must_action must (MoveLanes from to) initialized =
     rbind (index must (unat from)) (\<lambda>must_from.
     rbind (if must_from then index initialized (unat from) else Ok LIVE) (\<lambda>live.
     if must_from \<and> live \<noteq> LIVE
     then Err (Fail ''execution transition moves a must-consume frame lane not live on every path'')
     else rbind (index must (unat to)) (\<lambda>must_to.
     if must_from \<noteq> must_to then Err (Fail ''execution transition changes must-consume lane ownership'')
     else if \<not> must_from then Ok initialized
     else rbind (if from \<noteq> to then index initialized (unat to) else Ok EMPTY) (\<lambda>target.
     if target AND LIVE \<noteq> 0
     then Err (Fail ''execution transition overwrites a live must-consume frame lane'')
     else rbind (set_index initialized (unat from) EMPTY) (\<lambda>moved.
     set_index moved (unat to) LIVE)))))"
| "apply_must_action must (WriteLane to) initialized =
     rbind (index must (unat to)) (\<lambda>must_to.
     if \<not> must_to then Ok initialized
     else rbind (index initialized (unat to)) (\<lambda>target.
     if target AND LIVE \<noteq> 0
     then Err (Fail ''execution transition overwrites a live must-consume frame lane'')
     else set_index initialized (unat to) LIVE))"
| "apply_must_action must (ClearLane lane) initialized =
     rbind (index must (unat lane)) (\<lambda>must_lane.
     if must_lane
     then Err (Fail ''execution transition clears a must-consume frame lane without disposition'')
     else Ok initialized)"
| "apply_must_action must (DischargeLane lane) initialized =
     rbind (index must (unat lane)) (\<lambda>must_lane.
     if must_lane
     then Err (Fail ''execution transition has no checked runtime disposition proof for a must-consume frame lane'')
     else Ok initialized)"

fun apply_must_actions :: "bool list \<Rightarrow> LaneAction list \<Rightarrow> mask \<Rightarrow> mask outcome" where
  "apply_must_actions must [] initialized = Ok initialized"
| "apply_must_actions must (action # actions) initialized =
     rbind (apply_must_action must action initialized) (apply_must_actions must actions)"

text \<open>The element-wise join of \<open>zip\<close>; elements past the shorter list stay as they are.\<close>

fun join_masks :: "mask \<Rightarrow> mask \<Rightarrow> mask" where
  "join_masks (e # es) (i # is) = (e OR i) # join_masks es is"
| "join_masks es _ = es"

definition must_join :: "mask \<Rightarrow> nat \<Rightarrow> mask_table \<times> nat list \<Rightarrow> (mask_table \<times> nat list) outcome" where
  "must_join next target st =
     (case st of (states, pending) \<Rightarrow>
       rbind (index states target) (\<lambda>slot.
         (case slot of
            Some existing \<Rightarrow>
              (let joined = join_masks existing next in
               Ok (states[target := Some joined], if joined \<noteq> existing then pending @ [target] else pending))
          | None \<Rightarrow> Ok (states[target := Some next], pending @ [target]))))"

text \<open>The checks of a completing edge, lane by lane from the \<open>lane\<close>-th on.\<close>

fun check_complete :: "TypedExecutionShape \<Rightarrow> bool list \<Rightarrow> nat \<Rightarrow> nat \<Rightarrow> mask \<Rightarrow> unit outcome" where
  "check_complete sh must state_index lane [] = Ok ()"
| "check_complete sh must state_index lane (live # lanes) =
     (let result = list_ex (\<lambda>r. unat r = lane) (te_result_lanes sh);
          cancelling = (case te_cancellation sh of None \<Rightarrow> False | Some c \<Rightarrow> unat (ct_state c) = state_index) in
      if live AND LIVE \<noteq> 0 \<and> (\<not> result \<or> cancelling)
      then Err (Fail ''execution completion leaves a must-consume frame lane undisposed'')
      else rbind (if result \<and> \<not> cancelling then index must lane else Ok False) (\<lambda>must_lane.
        if must_lane \<and> live \<noteq> LIVE
        then Err (Fail ''execution completion lacks a produced must-consume result'')
        else check_complete sh must state_index (Suc lane) lanes))"

definition must_outcome :: "TypedExecutionShape \<Rightarrow> bool list \<Rightarrow> nat \<Rightarrow> mask \<Rightarrow> ExecutionOutcome \<Rightarrow>
    mask_table \<times> nat list \<Rightarrow> (mask_table \<times> nat list) outcome" where
  "must_outcome sh must state_index next outcome st =
     (case outcome_target outcome of
        Some target \<Rightarrow> must_join next (unat target) st
      | None \<Rightarrow>
          (case outcome of
             CompleteOutcome \<Rightarrow> rbind (check_complete sh must state_index 0 next) (\<lambda>_. Ok st)
           | PropagateErrorOutcome \<Rightarrow>
               if list_ex (\<lambda>live. live AND LIVE \<noteq> 0) next
               then Err (Fail ''execution error propagation leaves a must-consume frame lane undisposed'')
               else Ok st
           | _ \<Rightarrow> Ok st))"

definition is_blocked :: "ExecutionOutcome \<Rightarrow> bool" where
  "is_blocked outcome = (case outcome of BlockedOn _ _ \<Rightarrow> True | _ \<Rightarrow> False)"

definition must_transition :: "TypedExecutionShape \<Rightarrow> bool list \<Rightarrow> nat \<Rightarrow> mask \<Rightarrow> ExecutionTransition \<Rightarrow>
    mask_table \<times> nat list \<Rightarrow> (mask_table \<times> nat list) outcome" where
  "must_transition sh must state_index initialized transition st =
     rbind (apply_must_actions must (tr_actions transition) initialized) (\<lambda>next.
     rbind (must_outcome sh must state_index next (tr_outcome transition) st) (\<lambda>st.
     if is_blocked (tr_outcome transition) then
       (case te_cancellation sh of
          Some cancel \<Rightarrow> must_join next (unat (ct_state cancel)) st
        | None \<Rightarrow> Ok st)
     else Ok st))"

fun must_transitions :: "TypedExecutionShape \<Rightarrow> bool list \<Rightarrow> nat \<Rightarrow> mask \<Rightarrow> ExecutionTransition list \<Rightarrow>
    mask_table \<times> nat list \<Rightarrow> (mask_table \<times> nat list) outcome" where
  "must_transitions sh must state_index initialized [] st = Ok st"
| "must_transitions sh must state_index initialized (t # ts) st =
     rbind (must_transition sh must state_index initialized t st) (must_transitions sh must state_index initialized ts)"

text \<open>One turn of the worklist: the state popped from the front, with the table and the rest.\<close>

definition must_visit :: "TypedExecutionShape \<Rightarrow> bool list \<Rightarrow> nat \<Rightarrow> mask_table \<Rightarrow> nat list \<Rightarrow>
    (mask_table \<times> nat list) outcome" where
  "must_visit sh must state_index states pending =
     rbind (index states state_index) (\<lambda>slot.
     (case slot of
        None \<Rightarrow> Err Panic
      | Some initialized \<Rightarrow>
          rbind (index (te_states sh) state_index) (\<lambda>state.
          must_transitions sh must state_index initialized (es_transitions state) (states, pending))))"

section \<open>The worklist ends\<close>

definition none_count :: "mask_table \<Rightarrow> nat" where
  "none_count states = length (filter (\<lambda>slot. slot = None) states)"

definition mask_slack :: "mask \<Rightarrow> nat" where
  "mask_slack m = (\<Sum>b \<leftarrow> m. 255 - unat b)"

definition slack :: "mask_table \<Rightarrow> nat" where
  "slack states = (\<Sum>slot \<leftarrow> states. case slot of None \<Rightarrow> 0 | Some m \<Rightarrow> mask_slack m)"

definition table_less :: "mask_table \<Rightarrow> mask_table \<Rightarrow> bool" where
  "table_less a b \<longleftrightarrow> none_count a < none_count b \<or> (none_count a = none_count b \<and> slack a < slack b)"

lemma table_less_trans: "table_less a b \<Longrightarrow> table_less b c \<Longrightarrow> table_less a c"
  by (auto simp: table_less_def)

lemma or_slack: "255 - unat (e OR i) \<le> 255 - unat e" "e OR i \<noteq> e \<Longrightarrow> 255 - unat (e OR i) < 255 - unat e"
  for e i :: "8 word"
proof -
  have le: "unat e \<le> unat (e OR i)" using le_word_or2[of e i] by (simp add: word_le_nat_alt)
  have b: "unat (e OR i) < 256" using unsigned_less[of "e OR i"] by simp
  show "255 - unat (e OR i) \<le> 255 - unat e" using le by simp
  assume "e OR i \<noteq> e"
  then have "unat e \<noteq> unat (e OR i)" by (metis word_unat_eq_iff)
  with le b show "255 - unat (e OR i) < 255 - unat e" by linarith
qed

lemma join_masks_slack: "mask_slack (join_masks e i) \<le> mask_slack e"
  "join_masks e i \<noteq> e \<Longrightarrow> mask_slack (join_masks e i) < mask_slack e"
proof (induction e i rule: join_masks.induct)
  case (1 e es i iss)
  show "mask_slack (join_masks (e # es) (i # iss)) \<le> mask_slack (e # es)"
    using 1(1) or_slack(1)[of e i] by (simp add: mask_slack_def)
  show "mask_slack (join_masks (e # es) (i # iss)) < mask_slack (e # es)"
    if "join_masks (e # es) (i # iss) \<noteq> e # es"
    using that 1 or_slack[of e i] by (cases "e OR i = e") (simp_all add: mask_slack_def add_less_le_mono)
qed simp_all

lemma none_count_update: "k < length T \<Longrightarrow>
    none_count (T[k := Some m]) + (if T ! k = None then 1 else 0) = none_count T"
proof (induction T arbitrary: k)
  case (Cons s T)
  then show ?case
  proof (cases k)
    case (Suc k')
    with Cons.prems Cons.IH[of k'] show ?thesis by (cases "T ! k'") (auto simp: none_count_def)
  qed (simp add: none_count_def)
qed simp

lemma slack_update: "k < length T \<Longrightarrow>
    slack (T[k := Some m]) + (case T ! k of None \<Rightarrow> 0 | Some m' \<Rightarrow> mask_slack m') = slack T + mask_slack m"
proof (induction T arbitrary: k)
  case (Cons s T)
  then show ?case
  proof (cases k)
    case (Suc k')
    with Cons.prems Cons.IH[of k'] show ?thesis by (simp add: slack_def)
  qed (simp add: slack_def split: option.splits)
qed simp

lemma must_join_less:
  assumes "must_join nxt k (T, p) = Ok (T', p')"
  shows "(T' = T \<and> p' = p) \<or> table_less T' T"
proof -
  from assms have k: "k < length T" by (auto simp: must_join_def result_simps)
  show ?thesis
  proof (cases "T ! k")
    case None
    with assms k have T': "T' = T[k := Some nxt]" by (simp add: must_join_def)
    show ?thesis using none_count_update[OF k, of nxt] None by (simp add: T' table_less_def)
  next
    case (Some m)
    with assms k have T': "T' = T[k := Some (join_masks m nxt)]"
      and p': "p' = (if join_masks m nxt \<noteq> m then p @ [k] else p)" by (auto simp: must_join_def Let_def)
    show ?thesis
    proof (cases "join_masks m nxt = m")
      case True
      with T' p' Some k show ?thesis by (metis list_update_id)
    next
      case False
      from none_count_update[OF k, of "join_masks m nxt"] slack_update[OF k, of "join_masks m nxt"] Some
        join_masks_slack(2)[OF False]
      show ?thesis by (simp add: T' table_less_def)
    qed
  qed
qed

lemma must_transition_less:
  assumes "must_transition sh must i m t (T, p) = Ok (T', p')"
  shows "(T' = T \<and> p' = p) \<or> table_less T' T"
proof -
  from assms obtain nxt st1 where o: "must_outcome sh must i nxt (tr_outcome t) (T, p) = Ok st1"
    and c: "(if is_blocked (tr_outcome t) then (case te_cancellation sh of
          Some cancel \<Rightarrow> must_join nxt (unat (ct_state cancel)) st1 | None \<Rightarrow> Ok st1) else Ok st1) = Ok (T', p')"
    unfolding must_transition_def by (elim rbind_OkE)
  obtain T1 p1 where st1: "st1 = (T1, p1)" by (cases st1)
  have 1: "must_outcome sh must i nxt (tr_outcome t) (T, p) = Ok (T1, p1)" using o st1 by simp
  have 2: "(T', p') = (T1, p1) \<or> (\<exists>k. must_join nxt k (T1, p1) = Ok (T', p'))"
    using c st1 by (auto split: if_splits option.splits)
  have "(T1 = T \<and> p1 = p) \<or> table_less T1 T"
    using 1 must_join_less by (auto simp: must_outcome_def result_simps
        split: option.splits ExecutionOutcome.splits if_splits)
  with 2 must_join_less table_less_trans show ?thesis by blast
qed

lemma must_transitions_less:
  "must_transitions sh must i m ts (T, p) = Ok (T', p') \<Longrightarrow> (T' = T \<and> p' = p) \<or> table_less T' T"
proof (induction ts arbitrary: T p)
  case (Cons t ts)
  then obtain T1 p1 where "must_transition sh must i m t (T, p) = Ok (T1, p1)"
    "must_transitions sh must i m ts (T1, p1) = Ok (T', p')" by (auto elim!: rbind_OkE)
  with Cons.IH must_transition_less table_less_trans show ?case by metis
qed simp

lemma must_visit_less: "must_visit sh must i T p = Ok (T', p') \<Longrightarrow> (T' = T \<and> p' = p) \<or> table_less T' T"
  by (cases "T ! i") (auto simp: must_visit_def result_simps dest: must_transitions_less)

function must_loop :: "TypedExecutionShape \<Rightarrow> bool list \<Rightarrow> mask_table \<Rightarrow> nat list \<Rightarrow> unit outcome" where
  "must_loop sh must states [] = Ok ()"
| "must_loop sh must states (state_index # pending) =
     (case must_visit sh must state_index states pending of
        Inl e \<Rightarrow> Inl e
      | Inr (states', pending') \<Rightarrow> must_loop sh must states' pending')"
  by pat_completeness auto
termination
proof (relation "measures [\<lambda>(sh, must, T, p). none_count T, \<lambda>(sh, must, T, p). slack T, \<lambda>(sh, must, T, p). length p]")
  fix sh must states state_index pending x states' pending'
  assume "must_visit sh must state_index states pending = Inr x" "(states', pending') = x"
  then have "(states' = states \<and> pending' = pending) \<or> table_less states' states" using must_visit_less by blast
  then show "((sh, must, states', pending'), (sh, must, states, state_index # pending)) \<in>
      measures [\<lambda>(sh, must, T, p). none_count T, \<lambda>(sh, must, T, p). slack T, \<lambda>(sh, must, T, p). length p]"
    by (auto simp: table_less_def)
qed simp

definition entry_mask :: "TypedExecutionShape \<Rightarrow> mask" where
  "entry_mask sh = map (\<lambda>lane. if fl_ownership lane \<noteq> MustConsume then 0
     else if fl_initially_initialized lane then LIVE else EMPTY) (te_frame sh)"

definition validate_must_lane_paths :: "TypedExecutionShape \<Rightarrow> unit outcome" where
  "validate_must_lane_paths sh =
     (if \<not> list_ex (\<lambda>must. must) (must_lanes sh) then Ok ()
      else rbind (set_index (replicate (length (te_states sh)) None) (unat (te_entry sh)) (Some (entry_mask sh)))
        (\<lambda>states. must_loop sh (must_lanes sh) states [unat (te_entry sh)]))"

definition shape_validate :: "TypedExecutionShape \<Rightarrow> unit outcome" where
  "shape_validate sh = rbind (validate_references sh) (\<lambda>_. validate_must_lane_paths sh)"

section \<open>The final table is closed\<close>

definition mask_le :: "mask \<Rightarrow> mask \<Rightarrow> bool" where
  "mask_le = list_all2 (\<lambda>a b. a OR b = b)"

definition slot_le :: "mask option \<Rightarrow> mask option \<Rightarrow> bool" where
  "slot_le a b \<longleftrightarrow> (\<forall>m. a = Some m \<longrightarrow> (\<exists>m'. b = Some m' \<and> mask_le m m'))"

definition table_le :: "mask_table \<Rightarrow> mask_table \<Rightarrow> bool" where
  "table_le = list_all2 slot_le"

definition covers :: "mask_table \<Rightarrow> nat \<Rightarrow> mask \<Rightarrow> bool" where
  "covers T k m \<longleftrightarrow> k < length T \<and> slot_le (Some m) (T ! k)"

definition edge_closed :: "TypedExecutionShape \<Rightarrow> mask_table \<Rightarrow> nat \<Rightarrow> mask \<Rightarrow> ExecutionTransition \<Rightarrow> bool" where
  "edge_closed sh T i m t \<longleftrightarrow> (\<exists>nxt. apply_must_actions (must_lanes sh) (tr_actions t) m = Ok nxt \<and>
     (\<forall>s. outcome_target (tr_outcome t) = Some s \<longrightarrow> covers T (unat s) nxt) \<and>
     (tr_outcome t = CompleteOutcome \<longrightarrow> check_complete sh (must_lanes sh) i 0 nxt = Ok ()) \<and>
     (tr_outcome t = PropagateErrorOutcome \<longrightarrow> (\<forall>live \<in> set nxt. live AND LIVE = 0)) \<and>
     (\<forall>c. is_blocked (tr_outcome t) \<and> te_cancellation sh = Some c \<longrightarrow> covers T (unat (ct_state c)) nxt))"

definition table_closed :: "TypedExecutionShape \<Rightarrow> mask_table \<Rightarrow> nat \<Rightarrow> mask \<Rightarrow> bool" where
  "table_closed sh T i m \<longleftrightarrow> i < length (te_states sh) \<and>
     (\<forall>t \<in> set (es_transitions (te_states sh ! i)). edge_closed sh T i m t)"

definition table_wf :: "TypedExecutionShape \<Rightarrow> mask_table \<Rightarrow> bool" where
  "table_wf sh T \<longleftrightarrow> length T = length (te_states sh) \<and>
     (\<forall>m. Some m \<in> set T \<longrightarrow> length m = length (te_frame sh))"

lemma mask_le_refl [simp]: "mask_le m m"
  by (simp add: mask_le_def list_all2_same)

lemma mask_le_trans: "mask_le a b \<Longrightarrow> mask_le b c \<Longrightarrow> mask_le a c"
  unfolding mask_le_def
proof (rule list_all2_trans[of "\<lambda>a b. a OR b = b" "\<lambda>a b. a OR b = b"])
  fix x y z :: "8 word"
  assume xy: "x OR y = y" and yz: "y OR z = z"
  have "x OR z = (x OR y) OR z" using yz by (metis or.assoc)
  with xy yz show "x OR z = z" by simp
qed

lemma slot_le_refl [simp]: "slot_le a a"
  by (simp add: slot_le_def)

lemma slot_le_trans: "slot_le a b \<Longrightarrow> slot_le b c \<Longrightarrow> slot_le a c"
  by (cases a; cases b) (auto simp: slot_le_def dest: mask_le_trans)

lemma table_le_refl [simp]: "table_le T T"
  by (simp add: table_le_def list_all2_same)

lemma table_le_trans: "table_le a b \<Longrightarrow> table_le b c \<Longrightarrow> table_le a c"
  unfolding table_le_def
proof (rule list_all2_trans[of slot_le slot_le])
  fix x y z assume "slot_le x y" "slot_le y z" then show "slot_le x z" by (rule slot_le_trans)
qed

lemma table_le_update: "k < length T \<Longrightarrow> slot_le (T ! k) s \<Longrightarrow> table_le T (T[k := s])"
  by (auto simp: table_le_def list_all2_conv_all_nth nth_list_update)

lemma covers_mono: "covers T k m \<Longrightarrow> table_le T T' \<Longrightarrow> covers T' k m"
  unfolding covers_def table_le_def by (auto simp: list_all2_conv_all_nth intro: slot_le_trans)

lemma edge_closed_mono: "edge_closed sh T i m t \<Longrightarrow> table_le T T' \<Longrightarrow> edge_closed sh T' i m t"
  unfolding edge_closed_def using covers_mono by blast

lemma join_masks_le: "length e = length i \<Longrightarrow> mask_le e (join_masks e i) \<and> mask_le i (join_masks e i)
    \<and> length (join_masks e i) = length e"
proof (induction e i rule: join_masks.induct)
  case (1 e es i iss)
  then show ?case by (auto simp: mask_le_def or.left_commute or.commute or.assoc)
qed (auto simp: mask_le_def)

text \<open>What one join does to a well-formed table.\<close>

lemma must_join_facts:
  assumes "must_join nxt k (T, p) = Ok (T', p')" "table_wf sh T" "length nxt = length (te_frame sh)"
  shows "table_wf sh T' \<and> table_le T T' \<and> covers T' k nxt \<and> set p \<subseteq> set p' \<and> set p' \<subseteq> insert k (set p)
    \<and> (\<forall>j < length T. T' ! j \<noteq> T ! j \<longrightarrow> j \<in> set p')"
proof -
  have k: "k < length T" using assms(1) by (auto simp: must_join_def result_simps)
  obtain m where T': "T' = T[k := Some m]" and m: "slot_le (T ! k) (Some m)" "mask_le nxt m" "length m = length nxt"
    and p': "set p \<subseteq> set p'" "set p' \<subseteq> insert k (set p)" "Some m \<noteq> T ! k \<longrightarrow> k \<in> set p'"
  proof (cases "T ! k")
    case None
    with assms(1) k have "T' = T[k := Some nxt]" "p' = p @ [k]" by (auto simp: must_join_def)
    with None show ?thesis by (intro that[of nxt]) (auto simp: slot_le_def)
  next
    case (Some e)
    then have "length e = length nxt" using assms(2,3) k by (metis nth_mem table_wf_def)
    moreover have "T' = T[k := Some (join_masks e nxt)]"
      "p' = (if join_masks e nxt \<noteq> e then p @ [k] else p)" using assms(1) k Some by (auto simp: must_join_def Let_def)
    ultimately show ?thesis using Some join_masks_le[of e nxt]
      by (intro that[of "join_masks e nxt"]) (auto simp: slot_le_def)
  qed
  have "table_wf sh T'" using assms(2,3) m(3) k unfolding T' table_wf_def
    by (auto dest: set_update_subset_insert[THEN subsetD])
  moreover have "covers T' k nxt" using k m(2) by (auto simp: covers_def T' slot_le_def)
  moreover have "\<forall>j < length T. T' ! j \<noteq> T ! j \<longrightarrow> j \<in> set p'"
    using p'(3) k by (auto simp: T' nth_list_update)
  ultimately show ?thesis using p' table_le_update[OF k m(1)] by (simp add: T')
qed

lemma apply_must_action_length: "apply_must_action must a m = Ok m' \<Longrightarrow> length m' = length m"
  by (cases a) (auto simp: result_simps split: if_splits)

lemma apply_must_actions_length: "apply_must_actions must as m = Ok m' \<Longrightarrow> length m' = length m"
  by (induction as arbitrary: m) (auto simp: result_simps dest: apply_must_action_length)

text \<open>What a well-formed table gains while the edges of one state are visited.\<close>

definition grows :: "TypedExecutionShape \<Rightarrow> mask_table \<times> nat list \<Rightarrow> mask_table \<times> nat list \<Rightarrow> bool" where
  "grows sh = (\<lambda>(T, p) (T', p'). table_wf sh T' \<and> table_le T T' \<and> set p \<subseteq> set p' \<and>
     (\<forall>j < length T. T' ! j \<noteq> T ! j \<longrightarrow> j \<in> set p') \<and>
     (\<forall>j \<in> set p'. j \<in> set p \<or> (j < length T' \<and> T' ! j \<noteq> None)))"

lemma grows_refl: "table_wf sh T \<Longrightarrow> grows sh (T, p) (T, p)"
  by (simp add: grows_def)

lemma table_le_Some: "table_le T T' \<Longrightarrow> j < length T \<Longrightarrow> T ! j \<noteq> None \<Longrightarrow> j < length T' \<and> T' ! j \<noteq> None"
  by (fastforce simp: table_le_def list_all2_conv_all_nth slot_le_def)

lemma table_le_length: "table_le T T' \<Longrightarrow> length T' = length T"
  by (simp add: table_le_def list_all2_lengthD)

lemma grows_trans: "grows sh a b \<Longrightarrow> grows sh b c \<Longrightarrow> grows sh a c"
proof -
  obtain T p T1 p1 T2 p2 where abc: "a = (T, p)" "b = (T1, p1)" "c = (T2, p2)" by (cases a; cases b; cases c)
  assume "grows sh a b" "grows sh b c"
  then have ab: "table_le T T1" "set p \<subseteq> set p1" "\<forall>j < length T. T1 ! j \<noteq> T ! j \<longrightarrow> j \<in> set p1"
      "\<forall>j \<in> set p1. j \<in> set p \<or> (j < length T1 \<and> T1 ! j \<noteq> None)"
    and bc: "table_wf sh T2" "table_le T1 T2" "set p1 \<subseteq> set p2" "\<forall>j < length T1. T2 ! j \<noteq> T1 ! j \<longrightarrow> j \<in> set p2"
      "\<forall>j \<in> set p2. j \<in> set p1 \<or> (j < length T2 \<and> T2 ! j \<noteq> None)"
    by (auto simp: grows_def abc)
  have "j \<in> set p2" if "j < length T" "T2 ! j \<noteq> T ! j" for j
    using that ab(3) bc(3,4) table_le_length[OF ab(1)] by (metis subsetD)
  moreover have "j \<in> set p \<or> (j < length T2 \<and> T2 ! j \<noteq> None)" if "j \<in> set p2" for j
    using that ab(4) bc(5) table_le_Some[OF bc(2)] by metis
  ultimately show ?thesis using ab bc table_le_trans by (auto simp: grows_def abc)
qed

lemma must_join_grows:
  assumes "must_join nxt k st = Ok st'" "table_wf sh (fst st)" "length nxt = length (te_frame sh)"
  shows "grows sh st st' \<and> covers (fst st') k nxt"
proof -
  obtain T p T' p' where st: "st = (T, p)" "st' = (T', p')" by (cases st; cases st')
  note f = must_join_facts[OF assms(1)[unfolded st] assms(2)[unfolded st fst_conv] assms(3)]
  then have "k < length T' \<and> T' ! k \<noteq> None" by (auto simp: covers_def slot_le_def)
  with f show ?thesis by (auto simp: st grows_def)
qed

lemma grows_wf: "grows sh st st' \<Longrightarrow> table_wf sh (fst st') \<and> table_le (fst st) (fst st')"
  by (auto simp: grows_def split: prod.splits)

lemma must_transition_grows:
  assumes "must_transition sh (must_lanes sh) i m t st = Ok st'" "table_wf sh (fst st)" "length m = length (te_frame sh)"
  shows "grows sh st st' \<and> edge_closed sh (fst st') i m t"
proof -
  from assms(1) obtain nxt st1 where a: "apply_must_actions (must_lanes sh) (tr_actions t) m = Ok nxt"
    and o: "must_outcome sh (must_lanes sh) i nxt (tr_outcome t) st = Ok st1"
    and c: "(if is_blocked (tr_outcome t) then (case te_cancellation sh of
          Some cancel \<Rightarrow> must_join nxt (unat (ct_state cancel)) st1 | None \<Rightarrow> Ok st1) else Ok st1) = Ok st'"
    unfolding must_transition_def by (elim rbind_OkE)
  have len: "length nxt = length (te_frame sh)" using apply_must_actions_length[OF a] assms(3) by simp
  have 1: "grows sh st st1 \<and> (\<forall>s. outcome_target (tr_outcome t) = Some s \<longrightarrow> covers (fst st1) (unat s) nxt) \<and>
     (tr_outcome t = CompleteOutcome \<longrightarrow> check_complete sh (must_lanes sh) i 0 nxt = Ok ()) \<and>
     (tr_outcome t = PropagateErrorOutcome \<longrightarrow> (\<forall>live \<in> set nxt. live AND LIVE = 0))"
    using o must_join_grows[OF _ assms(2) len] grows_refl[OF assms(2)[unfolded], of "snd st"]
    by (cases "tr_outcome t") (auto simp: must_outcome_def result_simps list_ex_iff split: if_splits)
  have 2: "grows sh st1 st' \<and> (\<forall>c. is_blocked (tr_outcome t) \<and> te_cancellation sh = Some c \<longrightarrow>
      covers (fst st') (unat (ct_state c)) nxt)"
    using c must_join_grows[OF _ _ len] grows_wf[OF conjunct1[OF 1]] grows_refl[of sh "fst st1" "snd st1"]
    by (auto split: if_splits option.splits)
  have le: "table_le (fst st1) (fst st')" using grows_wf 2 by blast
  show ?thesis
    using 1 2 grows_trans covers_mono[OF _ le] a unfolding edge_closed_def by blast
qed

lemma must_transitions_grows:
  "must_transitions sh (must_lanes sh) i m ts st = Ok st' \<Longrightarrow> table_wf sh (fst st) \<Longrightarrow> length m = length (te_frame sh) \<Longrightarrow>
    grows sh st st' \<and> (\<forall>t \<in> set ts. edge_closed sh (fst st') i m t)"
proof (induction ts arbitrary: st)
  case Nil
  then show ?case using grows_refl[of sh "fst st" "snd st"] by simp
next
  case (Cons t ts)
  then obtain st1 where 1: "must_transition sh (must_lanes sh) i m t st = Ok st1"
    and 2: "must_transitions sh (must_lanes sh) i m ts st1 = Ok st'" by (auto elim!: rbind_OkE)
  note g = must_transition_grows[OF 1 Cons.prems(2,3)]
  note h = Cons.IH[OF 2 _ Cons.prems(3)]
  from g h grows_wf have "grows sh st1 st'" "\<forall>t \<in> set ts. edge_closed sh (fst st') i m t" by blast+
  with g grows_trans edge_closed_mono grows_wf show ?case by (metis set_ConsD)
qed

lemma must_visit_grows:
  assumes "must_visit sh (must_lanes sh) i T p = Ok (T', p')" "table_wf sh T"
  obtains m where "i < length T" "T ! i = Some m" "grows sh (T, p) (T', p')" "table_closed sh T' i m"
proof -
  from assms(1) obtain m where m: "i < length T" "T ! i = Some m" "i < length (te_states sh)"
    "must_transitions sh (must_lanes sh) i m (es_transitions (te_states sh ! i)) (T, p) = Ok (T', p')"
    by (auto simp: must_visit_def result_simps split: option.splits)
  have "length m = length (te_frame sh)" using assms(2) m(1,2) by (metis nth_mem table_wf_def)
  with must_transitions_grows[OF m(4)] assms(2) m(3) have "grows sh (T, p) (T', p')" "table_closed sh T' i m"
    by (auto simp: table_closed_def)
  with m(1,2) that show ?thesis by blast
qed

lemma must_loop_closed:
  assumes "must_loop sh (must_lanes sh) T p = Ok u" "table_wf sh T"
    and "\<And>i m. i < length T \<Longrightarrow> T ! i = Some m \<Longrightarrow> i \<in> set p \<or> table_closed sh T i m"
  shows "\<exists>F. table_wf sh F \<and> table_le T F \<and> (\<forall>i m. i < length F \<longrightarrow> F ! i = Some m \<longrightarrow> table_closed sh F i m)"
  using assms
proof (induction sh "must_lanes sh" T p rule: must_loop.induct)
  case (1 sh T)
  then show ?case by (intro exI[of _ T]) auto
next
  case (2 sh T i p)
  from "2.prems"(1) obtain T' p' where v: "must_visit sh (must_lanes sh) i T p = Ok (T', p')"
    and l: "must_loop sh (must_lanes sh) T' p' = Ok u" by (auto split: sum.splits)
  from must_visit_grows[OF v "2.prems"(2)] obtain m where m: "T ! i = Some m" "grows sh (T, p) (T', p')"
    "table_closed sh T' i m" by metis
  have g: "table_wf sh T'" "table_le T T'" "set p \<subseteq> set p'" "\<And>j. j < length T \<Longrightarrow> T' ! j \<noteq> T ! j \<Longrightarrow> j \<in> set p'"
    using m(2) by (auto simp: grows_def)
  have "j \<in> set p' \<or> table_closed sh T' j n" if "j < length T'" "T' ! j = Some n" for j n
  proof (cases "T' ! j = T ! j")
    case True
    have "j = i \<Longrightarrow> n = m" using True that m(1) by simp
    moreover have "j \<in> set p \<or> table_closed sh T j n" if "j \<noteq> i"
      using "2.prems"(3)[of j n] that \<open>T' ! j = Some n\<close> \<open>j < length T'\<close> True table_le_length[OF g(2)] by auto
    ultimately show ?thesis using m(3) g(2,3) edge_closed_mono unfolding table_closed_def by blast
  qed (use g(4) that table_le_length[OF g(2)] in auto)
  from "2.hyps"[OF v refl l g(1) this] g(2) table_le_trans show ?case by blast
qed

section \<open>The analysis cannot panic\<close>

lemma no_panic_apply_must_action:
  assumes "\<forall>l \<in> set (action_lanes a). unat l < length must" "length m = length must"
  shows "no_panic (apply_must_action must a m)"
  using assms by (cases a) (auto intro!: no_panic_intros simp: result_simps split: if_splits)

lemma no_panic_apply_must_actions:
  assumes "\<forall>a \<in> set as. \<forall>l \<in> set (action_lanes a). unat l < length must" "length m = length must"
  shows "no_panic (apply_must_actions must as m)"
  using assms
proof (induction as arbitrary: m)
  case (Cons a as)
  then show ?case using no_panic_apply_must_action[of a must m] apply_must_action_length[of must a m]
    by (auto intro!: no_panic_rbind)
qed simp

lemma no_panic_check_complete: "lane + length m = length must \<Longrightarrow> no_panic (check_complete sh must i lane m)"
proof (induction m arbitrary: lane)
  case (Cons live m)
  then show ?case by (auto simp: Let_def intro!: no_panic_intros)
qed simp

lemma no_panic_must_join: "k < length (fst st) \<Longrightarrow> no_panic (must_join nxt k st)"
  by (cases st) (auto simp: must_join_def Let_def intro!: no_panic_intros split: option.splits)

lemma must_lanes_length [simp]: "length (must_lanes sh) = length (te_frame sh)"
  by (simp add: must_lanes_def)

lemma must_outcome_wf:
  assumes "must_outcome sh (must_lanes sh) i nxt out st = Ok st1" "table_wf sh (fst st)" "length nxt = length (te_frame sh)"
  shows "table_wf sh (fst st1)"
proof (cases "outcome_target out")
  case None
  with assms have "st1 = st" by (cases out) (auto simp: must_outcome_def result_simps split: if_splits)
  with assms(2) show ?thesis by simp
next
  case (Some s)
  with assms(1) have "must_join nxt (unat s) st = Ok st1" by (simp add: must_outcome_def)
  from must_join_grows[OF this assms(2,3)] grows_wf show ?thesis by blast
qed

lemma no_panic_must_transition:
  assumes sh: "shape_ok sh" and t: "transition_ok sh t" and wf: "table_wf sh (fst st)" "length m = length (te_frame sh)"
  shows "no_panic (must_transition sh (must_lanes sh) i m t st)"
proof -
  have lanes: "\<forall>a \<in> set (tr_actions t). \<forall>l \<in> set (action_lanes a). unat l < length (must_lanes sh)"
    using t by (simp add: transition_ok_def)
  have o: "no_panic (must_outcome sh (must_lanes sh) i nxt (tr_outcome t) st)" if "length nxt = length (te_frame sh)" for nxt
    using t wf(1) no_panic_must_join[of _ st] no_panic_check_complete[of 0 nxt "must_lanes sh" sh i] that
    by (cases "tr_outcome t") (auto simp: must_outcome_def transition_ok_def table_wf_def intro!: no_panic_intros)
  have c: "no_panic (if is_blocked (tr_outcome t) then (case te_cancellation sh of
          Some cancel \<Rightarrow> must_join nxt (unat (ct_state cancel)) st1 | None \<Rightarrow> Ok st1) else Ok st1)"
    if "must_outcome sh (must_lanes sh) i nxt (tr_outcome t) st = Ok st1" "length nxt = length (te_frame sh)" for nxt st1
  proof -
    have "table_wf sh (fst st1)" using must_outcome_wf[OF that(1) wf(1) that(2)] .
    then show ?thesis using sh by (auto simp: shape_ok_def table_wf_def intro!: no_panic_must_join split: option.splits)
  qed
  show ?thesis unfolding must_transition_def
    using o c apply_must_actions_length[of "must_lanes sh" "tr_actions t" m] wf(2)
    by (intro no_panic_rbind no_panic_apply_must_actions lanes) auto
qed

lemma no_panic_must_transitions:
  assumes sh: "shape_ok sh" and "\<forall>t \<in> set ts. transition_ok sh t" "table_wf sh (fst st)" "length m = length (te_frame sh)"
  shows "no_panic (must_transitions sh (must_lanes sh) i m ts st)"
  using assms(2-4)
proof (induction ts arbitrary: st)
  case (Cons t ts)
  have "table_wf sh (fst st1)" if "must_transition sh (must_lanes sh) i m t st = Ok st1" for st1
    using must_transition_grows[OF that Cons.prems(2,3)] grows_wf by blast
  with Cons no_panic_must_transition[OF sh _ Cons.prems(2,3), of t i] show ?case by (auto intro!: no_panic_rbind)
qed simp

lemma no_panic_must_loop:
  assumes sh: "shape_ok sh" "table_wf sh T" "\<forall>i \<in> set p. i < length T \<and> T ! i \<noteq> None"
  shows "no_panic (must_loop sh (must_lanes sh) T p)"
  using assms
proof (induction sh "must_lanes sh" T p rule: must_loop.induct)
  case (2 sh T i p)
  from "2.prems"(3) obtain m where m: "i < length T" "T ! i = Some m" by auto
  have "Some m \<in> set T" using m by (metis nth_mem)
  then have len: "i < length (te_states sh)" "length m = length (te_frame sh)"
    using "2.prems"(2) m by (auto simp: table_wf_def)
  have "\<forall>t \<in> set (es_transitions (te_states sh ! i)). transition_ok sh t"
    using "2.prems"(1) nth_mem[OF len(1)] unfolding shape_ok_def by blast
  then have v: "no_panic (must_visit sh (must_lanes sh) i T p)"
    using no_panic_must_transitions[OF "2.prems"(1), of "es_transitions (te_states sh ! i)" "(T, p)" m i] "2.prems"(1,2) len m
    by (simp add: must_visit_def)
  show ?case
  proof (cases "must_visit sh (must_lanes sh) i T p")
    case (Inr x)
    obtain T' p' where x: "x = (T', p')" by (cases x)
    have g: "grows sh (T, p) (T', p')" using must_visit_grows[OF Inr[unfolded x] "2.prems"(2)] by blast
    have "\<forall>j \<in> set p'. j < length T' \<and> T' ! j \<noteq> None"
      using g "2.prems"(3) table_le_Some[of T T'] by (auto simp: grows_def)
    with "2.hyps"[OF Inr x[symmetric] "2.prems"(1)] g show ?thesis by (auto simp: Inr x grows_def)
  qed (use v in \<open>simp add: no_panic_def\<close>)
qed simp

section \<open>Validation\<close>

lemma entry_table:
  assumes "unat (te_entry sh) < length (te_states sh)"
  shows "table_wf sh ((replicate (length (te_states sh)) None)[unat (te_entry sh) := Some (entry_mask sh)])"
  using assms by (auto simp: table_wf_def entry_mask_def dest!: set_update_subset_insert[THEN subsetD])

lemma no_panic_shape_validate: "no_panic (shape_validate sh)"
proof -
  have "no_panic (validate_must_lane_paths sh)" if "shape_ok sh"
  proof -
    have e: "unat (te_entry sh) < length (te_states sh)" using that by (simp add: shape_ok_def)
    have "no_panic (must_loop sh (must_lanes sh) ((replicate (length (te_states sh)) None)[unat (te_entry sh) :=
        Some (entry_mask sh)]) [unat (te_entry sh)])" by (rule no_panic_must_loop[OF that entry_table[OF e]]) (use e in auto)
    then show ?thesis unfolding validate_must_lane_paths_def using e by (simp del: must_loop.simps)
  qed
  then show ?thesis unfolding shape_validate_def
    using validate_references_Ok by (intro no_panic_rbind no_panic_validate_references) blast
qed

text \<open>A validated shape with must-consume lanes has a table that starts at the entry and is closed.\<close>

definition must_table :: "TypedExecutionShape \<Rightarrow> mask_table \<Rightarrow> bool" where
  "must_table sh F \<longleftrightarrow> table_wf sh F \<and> covers F (unat (te_entry sh)) (entry_mask sh) \<and>
     (\<forall>i m. i < length F \<longrightarrow> F ! i = Some m \<longrightarrow> table_closed sh F i m)"

lemma shape_validate_Ok:
  assumes "shape_validate sh = Ok u"
  shows "shape_ok sh \<and> (\<not> list_ex (\<lambda>must. must) (must_lanes sh) \<or> (\<exists>F. must_table sh F))"
proof -
  from assms obtain v where r: "validate_references sh = Ok v" and m: "validate_must_lane_paths sh = Ok u"
    unfolding shape_validate_def by (elim rbind_OkE)
  have sh: "shape_ok sh" using r by (rule validate_references_Ok)
  then have e: "unat (te_entry sh) < length (te_states sh)" by (simp add: shape_ok_def)
  let ?T = "(replicate (length (te_states sh)) None)[unat (te_entry sh) := Some (entry_mask sh)]"
  have "\<exists>F. must_table sh F" if must: "list_ex (\<lambda>must. must) (must_lanes sh)"
  proof -
    from m must e have "must_loop sh (must_lanes sh) ?T [unat (te_entry sh)] = Ok u"
      by (simp add: validate_must_lane_paths_def del: must_loop.simps)
    moreover have "i \<in> set [unat (te_entry sh)] \<or> table_closed sh ?T i m" if "i < length ?T" "?T ! i = Some m" for i m
      using that by (cases "i = unat (te_entry sh)") simp_all
    ultimately obtain F where F: "table_wf sh F" "table_le ?T F"
      "\<forall>i m. i < length F \<longrightarrow> F ! i = Some m \<longrightarrow> table_closed sh F i m"
      using must_loop_closed[OF _ entry_table[OF e]] by metis
    have "covers ?T (unat (te_entry sh)) (entry_mask sh)" using e by (simp add: covers_def)
    from covers_mono[OF this F(2)] F(1,3) show ?thesis by (auto simp: must_table_def)
  qed
  with sh show ?thesis by blast
qed

end
