(* ===== verification/Typed_Async.thy ===== *)
theory Typed_Async
  imports Must_Lanes
begin

text \<open>
  The interpreter kernel of typed executions (crates/witchy-interp/src/typed_async.rs): one execution
  with its state, the initialisation bits of its frame lanes and its status, and the operations that
  schedulers, queues and hosts apply to it. Operations update the execution in place and keep what
  they changed when they fail.
\<close>

section \<open>The kernel\<close>

datatype KernelStatus =
  ReadyStatus | Waiting OperationSiteId | CompleteStatus | PropagatedErrorStatus | TrappedStatus

datatype KernelTurn =
    Continued ExecutionStateId
  | BecameReady ExecutionStateId
  | BlockedTurn OperationSiteId
  | CompleteTurn
  | PropagatedErrorTurn
  | TrappedTurn

datatype OperationCommit = CommitReady OperationSiteId | CommitSelectArm OperationSiteId "32 word"

record TypedExecution =
  ex_shape :: TypedExecutionShape
  ex_state :: ExecutionStateId
  ex_initialized :: "bool list"
  ex_status :: KernelStatus
  ex_cancellation :: "(OperationSiteId \<times> ExecutionStateId) option"

definition execution_new :: "TypedExecutionShape \<Rightarrow> TypedExecution outcome" where
  "execution_new sh =
     rbind (shape_validate sh) (\<lambda>_.
       Ok \<lparr>ex_shape = sh, ex_state = te_entry sh, ex_initialized = map fl_initially_initialized (te_frame sh),
           ex_status = ReadyStatus,
           ex_cancellation = map_option (\<lambda>c. (ct_operation c, ct_state c)) (te_cancellation sh)\<rparr>)"

definition has_cancellation_transition :: "TypedExecution \<Rightarrow> bool" where
  "has_cancellation_transition ex \<longleftrightarrow> ex_cancellation ex \<noteq> None"

definition waiting_operation :: "TypedExecution \<Rightarrow> (OperationSiteId \<times> ExecutionOperation) outcome" where
  "waiting_operation ex =
     (case ex_status ex of
        Waiting operation \<Rightarrow>
          rbind (index_or (te_operations (ex_shape ex)) (unat operation) ''operation vanished after validation'')
            (\<lambda>site. Ok (operation, os_kind site))
      | _ \<Rightarrow> Err (Fail ''execution has no installed operation wait record''))"

definition waiting_queue_operation ::
    "TypedExecution \<Rightarrow> (OperationSiteId \<times> QueueShapeId \<times> ExecutionOperation) outcome" where
  "waiting_queue_operation ex =
     (case waiting_operation ex of
        Inl _ \<Rightarrow> Err (Fail ''execution has no installed queue wait record'')
      | Inr (operation, kind) \<Rightarrow>
          rbind (index_or (te_operations (ex_shape ex)) (unat operation) ''operation vanished after validation'') (\<lambda>site.
          rbind (ok_or (os_queue site) (Fail ''waiting operation has no typed queue binding'')) (\<lambda>queue.
          Ok (operation, queue, kind))))"

definition select_arm_row :: "OperationArm \<Rightarrow> (32 word \<times> ExecutionOperation \<times> QueueShapeId) outcome" where
  "select_arm_row arm =
     rbind (ok_or (oa_queue arm) (Fail ''typed select arm has no queue binding'')) (\<lambda>queue.
       Ok (oa_ordinal arm, oa_operation arm, queue))"

definition waiting_select_arms ::
    "TypedExecution \<Rightarrow> (OperationSiteId \<times> (32 word \<times> ExecutionOperation \<times> QueueShapeId) list) outcome" where
  "waiting_select_arms ex =
     (case ex_status ex of
        Waiting operation \<Rightarrow>
          rbind (index_or (te_operations (ex_shape ex)) (unat operation) ''operation vanished after validation'') (\<lambda>site.
          if os_kind site \<noteq> Select then Err (Fail ''execution wait is not a typed select operation'')
          else rbind (rtraverse select_arm_row (os_arms site)) (\<lambda>arms. Ok (operation, arms)))
      | _ \<Rightarrow> Err (Fail ''execution has no installed select wait record''))"

definition get_lane :: "FrameLaneId \<Rightarrow> (TypedExecution, bool) sr" where
  "get_lane lane ex = (index_or (ex_initialized ex) (unat lane) ''execution lane vanished after validation'', ex)"

definition set_lane :: "bool \<Rightarrow> FrameLaneId \<Rightarrow> (TypedExecution, unit) sr" where
  "set_lane b lane ex =
     (if unat lane < length (ex_initialized ex)
      then (Ok (), ex\<lparr>ex_initialized := (ex_initialized ex)[unat lane := b]\<rparr>) else (Err Panic, ex))"

fun apply_action :: "LaneAction \<Rightarrow> (TypedExecution, unit) sr" where
  "apply_action (CopyLanes from to) = sbind (get_lane from) (\<lambda>_. set_lane True to)"
| "apply_action (MoveLanes from to) =
     sbind (get_lane from) (\<lambda>live.
       if \<not> live then serr (Fail ''move from uninitialized frame lane'')
       else sbind (set_lane False from) (\<lambda>_. set_lane True to))"
| "apply_action (WriteLane to) = set_lane True to"
| "apply_action (ClearLane lane) = set_lane False lane"
| "apply_action (DischargeLane lane) = set_lane False lane"

fun take_outcome :: "ExecutionOutcome \<Rightarrow> (TypedExecution, KernelTurn) sr" where
  "take_outcome (ContinueTo s) = sbind (smodify (\<lambda>ex. ex\<lparr>ex_state := s\<rparr>)) (\<lambda>_. sret (Continued s))"
| "take_outcome (ReadyAt s) = sbind (smodify (\<lambda>ex. ex\<lparr>ex_state := s\<rparr>)) (\<lambda>_. sret (BecameReady s))"
| "take_outcome (BlockedOn operation retry) =
     sbind (smodify (\<lambda>ex. ex\<lparr>ex_state := retry, ex_status := Waiting operation\<rparr>)) (\<lambda>_. sret (BlockedTurn operation))"
| "take_outcome CompleteOutcome =
     sbind (smodify (\<lambda>ex. ex\<lparr>ex_status := CompleteStatus\<rparr>)) (\<lambda>_. sret CompleteTurn)"
| "take_outcome PropagateErrorOutcome =
     sbind (smodify (\<lambda>ex. ex\<lparr>ex_status := PropagatedErrorStatus\<rparr>)) (\<lambda>_. sret PropagatedErrorTurn)"
| "take_outcome TrapOutcome =
     sbind (smodify (\<lambda>ex. ex\<lparr>ex_status := TrappedStatus\<rparr>)) (\<lambda>_. sret TrappedTurn)"

definition take_transition :: "ExecutionTransition \<Rightarrow> (TypedExecution, KernelTurn) sr" where
  "take_transition t = sbind (sfor apply_action (tr_actions t)) (\<lambda>_. take_outcome (tr_outcome t))"

definition current_state :: "TypedExecution \<Rightarrow> ExecutionState outcome" where
  "current_state ex =
     index_or (te_states (ex_shape ex)) (unat (ex_state ex)) ''execution state vanished after validation''"

definition turn_selected :: "nat \<Rightarrow> (TypedExecution, KernelTurn) sr" where
  "turn_selected transition_index =
     sbind sget (\<lambda>ex.
     if ex_status ex \<noteq> ReadyStatus then serr (Fail ''execution is not ready'')
     else sbind (slift (current_state ex)) (\<lambda>state.
     sbind (slift (index_or (es_transitions state) transition_index ''execution selected absent transition''))
       take_transition))"

definition turn :: "(TypedExecution, KernelTurn) sr" where
  "turn =
     sbind sget (\<lambda>ex.
     sbind (slift (current_state ex)) (\<lambda>state.
     (case es_transitions state of
        [t] \<Rightarrow> if tr_condition t \<noteq> Always then serr (Fail ''execution state requires an explicit selected edge'')
               else turn_selected 0
      | _ \<Rightarrow> serr (Fail ''execution state requires an explicit selected edge''))))"

definition wake :: "OperationSiteId \<Rightarrow> (TypedExecution, unit) sr" where
  "wake operation =
     sbind sget (\<lambda>ex.
     (case ex_status ex of
        Waiting waiting \<Rightarrow>
          if waiting = operation then smodify (\<lambda>ex. ex\<lparr>ex_status := ReadyStatus\<rparr>)
          else serr (Fail ''wake operation does not own this execution wait record'')
      | _ \<Rightarrow> serr (Fail ''wake for execution without an installed wait record'')))"

text \<open>The indices, from \<open>n\<close> on, of the transitions that a commit may take.\<close>

fun matching_indices :: "OperationSiteId \<Rightarrow> 32 word option \<Rightarrow> nat \<Rightarrow> ExecutionTransition list \<Rightarrow> nat list" where
  "matching_indices operation selected_arm n [] = []"
| "matching_indices operation selected_arm n (t # ts) =
     (if (case (tr_condition t, selected_arm) of
            (Always, None) \<Rightarrow> True
          | (SelectArmEdge edge_operation arm, Some selected) \<Rightarrow> edge_operation = operation \<and> arm = selected
          | _ \<Rightarrow> False)
      then [n] else []) @ matching_indices operation selected_arm (Suc n) ts"

definition matching_commit_transition :: "TypedExecution \<Rightarrow> OperationSiteId \<Rightarrow> 32 word option \<Rightarrow> nat outcome" where
  "matching_commit_transition ex operation selected_arm =
     rbind (current_state ex) (\<lambda>state.
     (case matching_indices operation selected_arm 0 (es_transitions state) of
        [i] \<Rightarrow> Ok i
      | [] \<Rightarrow> Err (Fail ''operation commit has no matching retry transition'')
      | _ \<Rightarrow> Err (Fail ''operation commit has ambiguous retry transitions'')))"

fun commit_parts :: "OperationCommit \<Rightarrow> OperationSiteId \<times> 32 word option" where
  "commit_parts (CommitReady operation) = (operation, None)"
| "commit_parts (CommitSelectArm operation arm) = (operation, Some arm)"

definition commit_result_lanes :: "OperationSite \<Rightarrow> 32 word option \<Rightarrow> FrameLaneId list outcome" where
  "commit_result_lanes site selected_arm =
     (case selected_arm of
        None \<Rightarrow> if os_kind site = Select then Err (Fail ''select commit requires a source-ordered arm'')
               else Ok (os_result_lanes site)
      | Some arm \<Rightarrow> rbind (ok_or (List.find (\<lambda>candidate. oa_ordinal candidate = arm) (os_arms site))
            (Fail ''commit selected absent operation arm'')) (\<lambda>candidate. Ok (oa_result_lanes candidate)))"

definition commit_operation :: "OperationCommit \<Rightarrow> (TypedExecution, KernelTurn) sr" where
  "commit_operation commit =
     (case commit_parts commit of (operation, selected_arm) \<Rightarrow>
     sbind sget (\<lambda>ex.
     (case ex_status ex of
        Waiting waiting \<Rightarrow>
          if waiting \<noteq> operation then serr (Fail ''commit operation does not own this execution wait record'')
          else sbind (slift (index_or (te_operations (ex_shape ex)) (unat operation)
                 ''operation vanished after validation'')) (\<lambda>site.
          sbind (slift (commit_result_lanes site selected_arm)) (\<lambda>result_lanes.
          sbind (slift (matching_commit_transition ex operation selected_arm)) (\<lambda>transition_index.
          sbind (sfor (set_lane True) result_lanes) (\<lambda>_.
          sbind (smodify (\<lambda>ex. ex\<lparr>ex_status := ReadyStatus\<rparr>)) (\<lambda>_.
          turn_selected transition_index)))))
      | _ \<Rightarrow> serr (Fail ''commit for execution without an installed wait record''))))"

definition abort_operation :: "OperationSiteId \<Rightarrow> (TypedExecution, unit) sr" where
  "abort_operation operation =
     sbind sget (\<lambda>ex.
     (case ex_status ex of
        Waiting waiting \<Rightarrow>
          if waiting \<noteq> operation then serr (Fail ''abort operation does not own this execution wait record'')
          else sbind (slift (index_or (te_operations (ex_shape ex)) (unat operation)
                 ''operation vanished after validation'')) (\<lambda>site.
          sbind (slift (ok_or (os_fallback_state site)
                 (Fail ''operation has no fallback state for aborted registration''))) (\<lambda>fallback.
          sbind (sfor (set_lane True) (os_pending_move_lanes site)) (\<lambda>_.
          smodify (\<lambda>ex. ex\<lparr>ex_state := fallback, ex_status := ReadyStatus\<rparr>))))
      | _ \<Rightarrow> serr (Fail ''abort for execution without an installed wait record'')))"

definition execution_request_cancellation :: "(TypedExecution, bool) sr" where
  "execution_request_cancellation =
     sbind sget (\<lambda>ex.
     (case ex_cancellation ex of
        None \<Rightarrow> serr (Fail ''execution shape has no cancellation transition'')
      | Some (_, cleanup) \<Rightarrow>
          if ex_status ex = CompleteStatus \<or> ex_status ex = PropagatedErrorStatus \<or> ex_status ex = TrappedStatus
          then sret False
          else if ex_state ex = cleanup \<and> ex_status ex = ReadyStatus then sret False
          else sbind (smodify (\<lambda>ex. ex\<lparr>ex_state := cleanup, ex_status := ReadyStatus\<rparr>)) (\<lambda>_. sret True)))"

section \<open>The kernel's invariant\<close>

definition kernel_ok :: "TypedExecution \<Rightarrow> bool" where
  "kernel_ok ex \<longleftrightarrow> shape_ok (ex_shape ex)
     \<and> length (ex_initialized ex) = length (te_frame (ex_shape ex))
     \<and> unat (ex_state ex) < length (te_states (ex_shape ex))
     \<and> (\<forall>op. ex_status ex = Waiting op \<longrightarrow> unat op < length (te_operations (ex_shape ex)))
     \<and> ex_cancellation ex = map_option (\<lambda>c. (ct_operation c, ct_state c)) (te_cancellation (ex_shape ex))"

definition kernel_of :: "TypedExecutionShape \<Rightarrow> TypedExecution \<Rightarrow> bool" where
  "kernel_of sh ex \<longleftrightarrow> kernel_ok ex \<and> ex_shape ex = sh"

lemma execution_new_ok: "execution_new sh = Ok ex \<Longrightarrow> kernel_of sh ex"
  using shape_validate_Ok[of sh]
  by (auto simp: execution_new_def result_simps kernel_of_def kernel_ok_def shape_ok_def)

lemma kernel_set_lane: "unat l < length (te_frame sh) \<Longrightarrow> keeps (kernel_of sh) (set_lane b l)"
  by (rule keepsI) (auto simp: set_lane_def kernel_of_def kernel_ok_def split: if_splits)

lemma kernel_get_lane: "keeps (kernel_of sh) (get_lane l)"
  by (rule keepsI) (auto simp: get_lane_def intro!: no_panic_intros)

lemma kernel_apply_action:
  assumes "\<forall>l \<in> set (action_lanes a). unat l < length (te_frame sh)"
  shows "keeps (kernel_of sh) (apply_action a)"
  using assms by (cases a) (auto intro!: keeps_intros kernel_get_lane kernel_set_lane)

lemma kernel_take_outcome:
  assumes "\<forall>s. outcome_target out = Some s \<longrightarrow> unat s < length (te_states sh)"
    and "\<forall>op s. out = BlockedOn op s \<longrightarrow> unat op < length (te_operations sh)"
  shows "keeps (kernel_of sh) (take_outcome out)"
  using assms by (cases out) (auto intro!: keeps_intros keeps_smodify simp: kernel_of_def kernel_ok_def)

lemma kernel_take_transition: "transition_ok sh t \<Longrightarrow> keeps (kernel_of sh) (take_transition t)"
  unfolding take_transition_def transition_ok_def
  by (intro keeps_intros keeps_sfor kernel_apply_action kernel_take_outcome) auto

lemma no_panic_current_state [no_panic_intros]: "no_panic (current_state ex)"
  by (simp add: current_state_def no_panic_intros)

lemma current_state_ok: "kernel_of sh ex \<Longrightarrow> current_state ex = Ok st \<Longrightarrow>
    st = te_states sh ! unat (ex_state ex) \<and> st \<in> set (te_states sh) \<and> (\<forall>t \<in> set (es_transitions st). transition_ok sh t)"
  by (auto simp: current_state_def kernel_of_def kernel_ok_def shape_ok_def result_simps)

lemma kernel_turn_selected: "keeps (kernel_of sh) (turn_selected i)"
  unfolding turn_selected_def
proof (intro keeps_sget_bind keeps_if keeps_serr keeps_slift_bind no_panic_intros)
  fix ex st t
  assume "kernel_of sh ex" "current_state ex = Ok st"
    "index_or (es_transitions st) i ''execution selected absent transition'' = Ok t"
  then have "transition_ok sh t" using current_state_ok by (fastforce simp: result_simps)
  then show "keeps (kernel_of sh) (take_transition t)" by (rule kernel_take_transition)
qed

lemma kernel_turn: "keeps (kernel_of sh) turn"
  unfolding turn_def
  by (intro keeps_sget_bind keeps_slift_bind no_panic_intros)
    (auto intro!: keeps_intros kernel_turn_selected split: list.splits)

lemma kernel_wake: "keeps (kernel_of sh) (wake op)"
  unfolding wake_def
  by (intro keeps_sget_bind)
    (auto intro!: keeps_intros keeps_smodify simp: kernel_of_def kernel_ok_def split: KernelStatus.splits)

lemma no_panic_commit_lanes [no_panic_intros]: "no_panic (commit_result_lanes site arm)"
  by (auto simp: commit_result_lanes_def intro!: no_panic_intros split: option.splits)

lemma no_panic_matching [no_panic_intros]: "no_panic (matching_commit_transition ex op arm)"
  unfolding matching_commit_transition_def
  by (intro no_panic_intros) (auto split: list.splits)

lemma commit_lanes_ok: "site_ok sh site \<Longrightarrow> commit_result_lanes site arm = Ok ls \<Longrightarrow> l \<in> set ls \<Longrightarrow> unat l < length (te_frame sh)"
  using find_in_set by (fastforce simp: commit_result_lanes_def site_ok_def arm_ok_def result_simps split: option.splits if_splits)

lemma site_of_index: "kernel_of sh ex \<Longrightarrow> index_or (te_operations (ex_shape ex)) n msg = Ok site \<Longrightarrow> site_ok sh site"
  by (auto simp: kernel_of_def kernel_ok_def shape_ok_def result_simps)

lemma kernel_ready: "keeps (kernel_of sh) (smodify (\<lambda>ex. ex\<lparr>ex_status := ReadyStatus\<rparr>))"
  by (rule keeps_smodify) (auto simp: kernel_of_def kernel_ok_def)

lemma kernel_commit: "keeps (kernel_of sh) (commit_operation c)"
proof -
  obtain op arm where c: "commit_parts c = (op, arm)" by (cases "commit_parts c")
  have "keeps (kernel_of sh) (case ex_status ex of
      Waiting waiting \<Rightarrow> if waiting \<noteq> op then serr (Fail ''commit operation does not own this execution wait record'')
          else sbind (slift (index_or (te_operations (ex_shape ex)) (unat op)
                 ''operation vanished after validation'')) (\<lambda>site.
          sbind (slift (commit_result_lanes site arm)) (\<lambda>result_lanes.
          sbind (slift (matching_commit_transition ex op arm)) (\<lambda>transition_index.
          sbind (sfor (set_lane True) result_lanes) (\<lambda>_.
          sbind (smodify (\<lambda>ex. ex\<lparr>ex_status := ReadyStatus\<rparr>)) (\<lambda>_.
          turn_selected transition_index)))))
      | _ \<Rightarrow> serr (Fail ''commit for execution without an installed wait record''))" if ex: "kernel_of sh ex" for ex
  proof (cases "ex_status ex")
    case (Waiting w)
    show ?thesis unfolding Waiting KernelStatus.case
    proof (intro keeps_if keeps_slift_bind no_panic_intros keeps_serr)
      fix site ls i
      assume "index_or (te_operations (ex_shape ex)) (unat op) ''operation vanished after validation'' = Ok site"
        "commit_result_lanes site arm = Ok ls"
      with commit_lanes_ok site_of_index[OF ex] have "\<And>l. l \<in> set ls \<Longrightarrow> unat l < length (te_frame sh)" by blast
      then show "keeps (kernel_of sh) (sbind (sfor (set_lane True) ls) (\<lambda>_.
          sbind (smodify (\<lambda>ex. ex\<lparr>ex_status := ReadyStatus\<rparr>)) (\<lambda>_. turn_selected i)))"
        by (intro keeps_sbind keeps_sfor kernel_set_lane kernel_ready kernel_turn_selected)
    qed
  qed (simp_all add: keeps_serr)
  then show ?thesis unfolding commit_operation_def c prod.case by (intro keeps_sget_bind)
qed

lemma kernel_abort: "keeps (kernel_of sh) (abort_operation op)"
  unfolding abort_operation_def
proof (intro keeps_sget_bind)
  fix ex assume ex: "kernel_of sh ex"
  have body: "keeps (kernel_of sh) (sbind (sfor (set_lane True) (os_pending_move_lanes site)) (\<lambda>_.
          smodify (\<lambda>ex. ex\<lparr>ex_state := fallback, ex_status := ReadyStatus\<rparr>)))"
    if "site_ok sh site" "os_fallback_state site = Some fallback" for site fallback
    using that by (intro keeps_sbind keeps_sfor kernel_set_lane keeps_smodify)
      (auto simp: site_ok_def kernel_of_def kernel_ok_def)
  show "keeps (kernel_of sh) (case ex_status ex of
        Waiting waiting \<Rightarrow>
          if waiting \<noteq> op then serr (Fail ''abort operation does not own this execution wait record'')
          else sbind (slift (index_or (te_operations (ex_shape ex)) (unat op)
                 ''operation vanished after validation'')) (\<lambda>site.
          sbind (slift (ok_or (os_fallback_state site)
                 (Fail ''operation has no fallback state for aborted registration''))) (\<lambda>fallback.
          sbind (sfor (set_lane True) (os_pending_move_lanes site)) (\<lambda>_.
          smodify (\<lambda>ex. ex\<lparr>ex_state := fallback, ex_status := ReadyStatus\<rparr>))))
      | _ \<Rightarrow> serr (Fail ''abort for execution without an installed wait record''))"
    using site_of_index[OF ex]
    by (cases "ex_status ex") (auto intro!: keeps_intros keeps_slift_bind no_panic_intros body simp: ok_or_eq_Ok)
qed

lemma kernel_cancellation: "keeps (kernel_of sh) execution_request_cancellation"
  unfolding execution_request_cancellation_def
proof (intro keeps_sget_bind)
  fix ex assume ex: "kernel_of sh ex"
  have "keeps (kernel_of sh) (smodify (\<lambda>ex. ex\<lparr>ex_state := s, ex_status := ReadyStatus\<rparr>))"
    if "ex_cancellation ex = Some (op, s)" for op s
  proof (rule keeps_smodify)
    have "unat s < length (te_states sh)" using ex that
      by (cases "te_cancellation sh") (auto simp: kernel_of_def kernel_ok_def shape_ok_def)
    then show "kernel_of sh (t\<lparr>ex_state := s, ex_status := ReadyStatus\<rparr>)" if "kernel_of sh t" for t
      using that by (auto simp: kernel_of_def kernel_ok_def)
  qed
  then show "keeps (kernel_of sh) (case ex_cancellation ex of
        None \<Rightarrow> serr (Fail ''execution shape has no cancellation transition'')
      | Some (_, cleanup) \<Rightarrow>
          if ex_status ex = CompleteStatus \<or> ex_status ex = PropagatedErrorStatus \<or> ex_status ex = TrappedStatus
          then sret False
          else if ex_state ex = cleanup \<and> ex_status ex = ReadyStatus then sret False
          else sbind (smodify (\<lambda>ex. ex\<lparr>ex_state := cleanup, ex_status := ReadyStatus\<rparr>)) (\<lambda>_. sret True))"
    by (auto intro!: keeps_intros split: option.splits)
qed

lemmas kernel_keeps = kernel_turn kernel_turn_selected kernel_wake kernel_commit kernel_abort kernel_cancellation

end
