(* ===== verification/Kernel_Lanes.thy ===== *)
theory Kernel_Lanes
  imports Typed_Async
begin

text \<open>
  The must-consume analysis of shapes is sound for the kernel: along every run of a validated shape
  the initialisation bits of the must-consume lanes stay within the possibilities the analysis
  computed, so a task that completes leaves exactly its results live and a task that fails leaves nothing.
  A run is any sequence of turns, wakes, commits of operations whose result lanes are ordinary, and
  cancellations of a waiting execution.
\<close>

unbundle bit_operations_syntax

section \<open>Concrete lanes and masks\<close>











definition lanes_only :: "TypedExecution \<Rightarrow> TypedExecution \<Rightarrow> bool" where
  "lanes_only ex ex' \<longleftrightarrow> ex_shape ex' = ex_shape ex \<and> ex_state ex' = ex_state ex \<and> ex_status ex' = ex_status ex
     \<and> ex_cancellation ex' = ex_cancellation ex"

lemma lanes_only_simps [simp]: "lanes_only ex ex" "lanes_only ex (ex\<lparr>ex_initialized := ini\<rparr>)"
  by (simp_all add: lanes_only_def)






section \<open>Runs\<close>





definition at_cleanup :: "TypedExecution \<Rightarrow> bool" where
  "at_cleanup ex \<longleftrightarrow> (case te_cancellation (ex_shape ex) of None \<Rightarrow> False | Some c \<Rightarrow> ex_state ex = ct_state c)"

definition results_live :: "TypedExecution \<Rightarrow> bool" where
  "results_live ex \<longleftrightarrow> (\<forall>l < length (te_frame (ex_shape ex)). must_lanes (ex_shape ex) ! l \<longrightarrow>
     (ex_initialized ex ! l \<longleftrightarrow> l \<in> unat ` set (te_result_lanes (ex_shape ex)) \<and> \<not> at_cleanup ex))"

definition nothing_live :: "TypedExecution \<Rightarrow> bool" where
  "nothing_live ex \<longleftrightarrow> (\<forall>l < length (te_frame (ex_shape ex)). must_lanes (ex_shape ex) ! l \<longrightarrow> \<not> ex_initialized ex ! l)"

lemma live_status [simp]:
  "results_live (ex\<lparr>ex_status := s\<rparr>) = results_live ex" "nothing_live (ex\<lparr>ex_status := s\<rparr>) = nothing_live ex"
proof -
  have "at_cleanup (ex\<lparr>ex_status := s\<rparr>) = at_cleanup ex"
    by (simp add: at_cleanup_def split: option.split)
  then show "results_live (ex\<lparr>ex_status := s\<rparr>) = results_live ex" by (simp add: results_live_def)
qed (simp add: nothing_live_def)










section \<open>Completed and failed tasks\<close>


text \<open>
  A receiving task with a must-consume message: it waits for the message, moves it into its result and
  completes; when cancelled while waiting it completes from the cleanup state with nothing.
\<close>

definition sample_lane :: "32 word \<Rightarrow> LaneOwnership \<Rightarrow> bool \<Rightarrow> FrameLane" where
  "sample_lane i own init = \<lparr>fl_id = i, fl_ty = Named ''Msg'' [], fl_ownership = own, fl_initially_initialized = init\<rparr>"

definition sample_edge :: "LaneAction list \<Rightarrow> ExecutionOutcome \<Rightarrow> ExecutionTransition" where
  "sample_edge as out = \<lparr>tr_condition = Always, tr_actions = as, tr_outcome = out\<rparr>"

definition sample_site :: "32 word \<Rightarrow> ExecutionOperation \<Rightarrow> QueueShapeId option \<Rightarrow> OperationSite" where
  "sample_site i k q = \<lparr>os_id = i, os_kind = k, os_input_lanes = [], os_result_lanes = [], os_pending_move_lanes = [],
     os_fallback_state = Some 0, os_queue = q, os_arms = []\<rparr>"

definition sample_queue_shape :: QueueShape where
  "sample_queue_shape = \<lparr>qs_id = 0, qs_capacity = Fixed 1, qs_payload_layout_fingerprint = [], qs_ownership = Boxed\<rparr>"

definition sample_shape :: TypedExecutionShape where
  "sample_shape = \<lparr>te_id = 0, te_mode = NormalMode, te_entry = 0,
     te_frame = [sample_lane 0 MustConsume False, sample_lane 1 MustConsume False], te_result_lanes = [1],
     te_states = [\<lparr>es_id = 0, es_transitions = [sample_edge [] (BlockedOn 0 1)]\<rparr>,
       \<lparr>es_id = 1, es_transitions = [sample_edge [WriteLane 0, MoveLanes 0 1] CompleteOutcome]\<rparr>,
       \<lparr>es_id = 2, es_transitions = [sample_edge [] CompleteOutcome]\<rparr>],
     te_operations = [sample_site 0 ChannelReceive (Some 0), sample_site 1 CancellationOperation None],
     te_queues = [sample_queue_shape], te_cancellation = Some \<lparr>ct_operation = 1, ct_state = 2\<rparr>\<rparr>"

definition sample_execution :: TypedExecution where
  "sample_execution = \<lparr>ex_shape = sample_shape, ex_state = 0, ex_initialized = [False, False],
     ex_status = ReadyStatus, ex_cancellation = Some (1, 2)\<rparr>"

lemma sample_execution_new: "execution_new sample_shape = Ok sample_execution"
  by code_simp





text \<open>
  The restriction to commits with ordinary result lanes is needed: the analysis does not count the
  lanes a commit initialises. This validated shape receives into a must-consume lane, which the
  kernel initialises, and completes with the lane live although it is no result.
\<close>

definition leaking_shape :: TypedExecutionShape where
  "leaking_shape = sample_shape\<lparr>te_frame := [sample_lane 0 MustConsume False], te_result_lanes := [],
     te_states := [\<lparr>es_id = 0, es_transitions = [sample_edge [] (BlockedOn 0 1)]\<rparr>,
       \<lparr>es_id = 1, es_transitions = [sample_edge [] CompleteOutcome]\<rparr>],
     te_operations := [(sample_site 0 ChannelReceive (Some 0))\<lparr>os_result_lanes := [0]\<rparr>],
     te_cancellation := None\<rparr>"

lemma must_result_of_operation_untracked:
  "(case execution_new leaking_shape of
      Inl _ \<Rightarrow> False
    | Inr start \<Rightarrow>
        (case sbind (turn_selected 0) (\<lambda>_. commit_operation (CommitReady 0)) start of
           (Inr CompleteTurn, ex) \<Rightarrow> ex_initialized ex = [True] \<and> must_lanes (ex_shape ex) = [True] \<and> te_result_lanes (ex_shape ex) = []
         | _ \<Rightarrow> False))"
  by code_simp

section \<open>No panics\<close>

datatype kernel_call =
    TurnCall
  | TurnSelectedCall nat
  | WakeCall OperationSiteId
  | CommitCall OperationCommit
  | AbortCall OperationSiteId
  | CancelCall

fun kernel_perform :: "kernel_call \<Rightarrow> (TypedExecution, unit) sr" where
  "kernel_perform TurnCall = discard turn"
| "kernel_perform (TurnSelectedCall i) = discard (turn_selected i)"
| "kernel_perform (WakeCall op) = wake op"
| "kernel_perform (CommitCall c) = discard (commit_operation c)"
| "kernel_perform (AbortCall op) = abort_operation op"
| "kernel_perform CancelCall = discard execution_request_cancellation"

lemma kernel_perform_keeps: "keeps (kernel_of sh) (kernel_perform c)"
  by (cases c) (simp_all add: keeps_discard kernel_keeps)

interpretation kernel: steadfast "kernel_of sh" kernel_perform for sh
  by unfold_locales (rule kernel_perform_keeps)

text \<open>
  C10: validation of any shape, however malformed, ends without a panic; and on an execution of a validated
  shape no sequence of turns, wakes, commits, aborts and cancellations panics, even when some of the
  calls fail half way: every index the kernel takes stays within the shape.
\<close>

theorem kernel_never_panics:
  "no_panic (shape_validate sh) \<and> (execution_new sh = Ok start \<longrightarrow>
     list_all no_panic (fst (performs kernel_perform calls start)) \<and> kernel_ok (snd (performs kernel_perform calls start)))"
  using no_panic_shape_validate[of sh] execution_new_ok[of sh start]
    kernel.performs_ok[of sh start calls]
  by (auto simp: kernel_of_def)

theorem kernel_never_panics_witness:
  "execution_new sample_shape = Ok sample_execution \<and>
     list_all no_panic (fst (performs kernel_perform [CommitCall (CommitReady 7), TurnCall, AbortCall 1, CancelCall] sample_execution))"
  using kernel_never_panics[of sample_shape sample_execution] sample_execution_new by (simp del: performs.simps)

end
