(* ===== verification/Typed_Queue.thy ===== *)
theory Typed_Queue
  imports Typed_Execution "HOL-Library.Sublist"
begin

text \<open>
  The typed queue (crates/witchy-interp/src/typed_queue.rs, \<open>TypedQueue\<close>): a buffer of opaque payloads
  with FIFO queues of blocked senders and receivers. A \<open>VecDeque\<close> is a list, front first. The
  abstract view of a queue is the list of payloads sent and not yet received: the buffer followed by
  the payloads of the blocked senders.
\<close>

section \<open>The queue\<close>

type_synonym QueuePayload = "64 word"

record QueueWait =
  qw_execution :: "64 word"
  qw_operation :: OperationSiteId
  qw_generation :: "64 word"
  qw_arm :: "32 word option"

datatype QueueSend = SendCommitted "QueueWait option" | SendBlocked | SendClosedResult

datatype QueueReceive = ReceivedPayload QueuePayload "QueueWait option" | ReceiveBlocked | ReceiveClosedResult

datatype QueueCloseWake = CloseSend QueueWait QueuePayload | CloseReceive QueueWait

record PendingSend =
  ps_wait :: QueueWait
  ps_payload :: QueuePayload
  ps_sequence :: "64 word"

record PendingReceive =
  pr_wait :: QueueWait
  pr_sequence :: "64 word"

record TypedQueue =
  tq_shape :: QueueShape
  tq_payloads :: "QueuePayload list"
  tq_send_waiters :: "PendingSend list"
  tq_receive_waiters :: "PendingReceive list"
  tq_next_wait_sequence :: "64 word"
  tq_closed :: bool

definition queue_new :: "QueueShape \<Rightarrow> TypedQueue" where
  "queue_new shape = \<lparr>tq_shape = shape, tq_payloads = [], tq_send_waiters = [], tq_receive_waiters = [],
     tq_next_wait_sequence = 0, tq_closed = False\<rparr>"

definition has_buffer_capacity :: "TypedQueue \<Rightarrow> bool" where
  "has_buffer_capacity q =
     (case qs_capacity (tq_shape q) of
        Rendezvous \<Rightarrow> False
      | Fixed capacity \<Rightarrow> length (tq_payloads q) < unat capacity
      | Dynamic \<Rightarrow> True)"

definition queue_send :: "QueuePayload \<Rightarrow> TypedQueue \<Rightarrow> QueueSend \<times> TypedQueue" where
  "queue_send payload q =
     (if tq_closed q then (SendClosedResult, q)
      else (case tq_receive_waiters q of
          receiver # waiters \<Rightarrow> (SendCommitted (Some (pr_wait receiver)), q\<lparr>tq_receive_waiters := waiters\<rparr>)
        | [] \<Rightarrow>
            if has_buffer_capacity q
            then (SendCommitted None, q\<lparr>tq_payloads := tq_payloads q @ [payload]\<rparr>)
            else (SendBlocked, q)))"

definition promote_one_sender :: "TypedQueue \<Rightarrow> QueueWait option \<times> TypedQueue" where
  "promote_one_sender q =
     (if \<not> has_buffer_capacity q then (None, q)
      else (case tq_send_waiters q of
          [] \<Rightarrow> (None, q)
        | sender # waiters \<Rightarrow>
            (Some (ps_wait sender),
             q\<lparr>tq_send_waiters := waiters, tq_payloads := tq_payloads q @ [ps_payload sender]\<rparr>)))"

definition queue_receive :: "TypedQueue \<Rightarrow> QueueReceive \<times> TypedQueue" where
  "queue_receive q =
     (case tq_payloads q of
        payload # payloads \<Rightarrow>
          (case promote_one_sender (q\<lparr>tq_payloads := payloads\<rparr>) of (sender, q') \<Rightarrow> (ReceivedPayload payload sender, q'))
      | [] \<Rightarrow>
          (case tq_send_waiters q of
             sender # waiters \<Rightarrow>
               (ReceivedPayload (ps_payload sender) (Some (ps_wait sender)), q\<lparr>tq_send_waiters := waiters\<rparr>)
           | [] \<Rightarrow> (if tq_closed q then ReceiveClosedResult else ReceiveBlocked, q)))"

definition reject_duplicate :: "QueueWait \<Rightarrow> TypedQueue \<Rightarrow> unit outcome" where
  "reject_duplicate wait q =
     (if list_ex (\<lambda>pending. ps_wait pending = wait) (tq_send_waiters q)
        \<or> list_ex (\<lambda>pending. pr_wait pending = wait) (tq_receive_waiters q)
      then Err (Fail ''execution already has this queue wait registration'') else Ok ())"

definition reserve_wait_sequence :: "(TypedQueue, 64 word) sr" where
  "reserve_wait_sequence q =
     (if unat (tq_next_wait_sequence q) + 1 < 2 ^ 64
      then (Ok (tq_next_wait_sequence q), q\<lparr>tq_next_wait_sequence := tq_next_wait_sequence q + 1\<rparr>)
      else (Err (Fail ''typed queue wait sequence overflow''), q))"

definition register_send :: "QueueWait \<Rightarrow> QueuePayload \<Rightarrow> (TypedQueue, QueueSend) sr" where
  "register_send wait payload =
     sbind sget (\<lambda>q. sbind (slift (reject_duplicate wait q)) (\<lambda>_.
     sbind (\<lambda>q. case queue_send payload q of (r, q') \<Rightarrow> (Ok r, q')) (\<lambda>result.
     if result = SendBlocked then
       sbind reserve_wait_sequence (\<lambda>sequence.
       sbind (smodify (\<lambda>q. q\<lparr>tq_send_waiters := tq_send_waiters q @
         [\<lparr>ps_wait = wait, ps_payload = payload, ps_sequence = sequence\<rparr>]\<rparr>)) (\<lambda>_. sret result))
     else sret result)))"

definition register_receive :: "QueueWait \<Rightarrow> (TypedQueue, QueueReceive) sr" where
  "register_receive wait =
     sbind sget (\<lambda>q. sbind (slift (reject_duplicate wait q)) (\<lambda>_.
     sbind (\<lambda>q. case queue_receive q of (r, q') \<Rightarrow> (Ok r, q')) (\<lambda>result.
     if result = ReceiveBlocked then
       sbind reserve_wait_sequence (\<lambda>sequence.
       sbind (smodify (\<lambda>q. q\<lparr>tq_receive_waiters := tq_receive_waiters q @
         [\<lparr>pr_wait = wait, pr_sequence = sequence\<rparr>]\<rparr>)) (\<lambda>_. sret result))
     else sret result)))"

text \<open>\<open>remove(position(p))\<close>: the first element that satisfies \<open>p\<close> is dropped.\<close>

fun remove_first :: "('a \<Rightarrow> bool) \<Rightarrow> 'a list \<Rightarrow> 'a list" where
  "remove_first p [] = []"
| "remove_first p (x # xs) = (if p x then xs else x # remove_first p xs)"

definition queue_cancel :: "QueueWait \<Rightarrow> TypedQueue \<Rightarrow> bool \<times> TypedQueue" where
  "queue_cancel wait q =
     (if list_ex (\<lambda>pending. ps_wait pending = wait) (tq_send_waiters q)
      then (True, q\<lparr>tq_send_waiters := remove_first (\<lambda>pending. ps_wait pending = wait) (tq_send_waiters q)\<rparr>)
      else if list_ex (\<lambda>pending. pr_wait pending = wait) (tq_receive_waiters q)
      then (True, q\<lparr>tq_receive_waiters := remove_first (\<lambda>pending. pr_wait pending = wait) (tq_receive_waiters q)\<rparr>)
      else (False, q))"

definition queue_close :: "TypedQueue \<Rightarrow> QueueCloseWake list \<times> TypedQueue" where
  "queue_close q =
     (if tq_closed q then ([], q)
      else (map snd (sort_key fst
              (map (\<lambda>s. (ps_sequence s, CloseSend (ps_wait s) (ps_payload s))) (tq_send_waiters q)
               @ map (\<lambda>r. (pr_sequence r, CloseReceive (pr_wait r))) (tq_receive_waiters q))),
            q\<lparr>tq_closed := True, tq_send_waiters := [], tq_receive_waiters := []\<rparr>))"

section \<open>The invariant\<close>

text \<open>
  A receiver waits only when there is nothing to receive, a sender waits only when the buffer is
  full, a closed queue has no waiters, and the buffer stays within its capacity.
\<close>

definition queue_ok :: "TypedQueue \<Rightarrow> bool" where
  "queue_ok q \<longleftrightarrow>
     (tq_receive_waiters q \<noteq> [] \<longrightarrow> tq_payloads q = [] \<and> tq_send_waiters q = []) \<and>
     (tq_send_waiters q \<noteq> [] \<longrightarrow> \<not> has_buffer_capacity q) \<and>
     (tq_closed q \<longrightarrow> tq_send_waiters q = [] \<and> tq_receive_waiters q = []) \<and>
     (case qs_capacity (tq_shape q) of
        Rendezvous \<Rightarrow> tq_payloads q = []
      | Fixed capacity \<Rightarrow> length (tq_payloads q) \<le> unat capacity
      | Dynamic \<Rightarrow> True) \<and>
     sorted_wrt (<) (map ps_sequence (tq_send_waiters q)) \<and> sorted_wrt (<) (map pr_sequence (tq_receive_waiters q)) \<and>
     (\<forall>s \<in> set (map ps_sequence (tq_send_waiters q) @ map pr_sequence (tq_receive_waiters q)). s < tq_next_wait_sequence q) \<and>
     distinct (map ps_wait (tq_send_waiters q) @ map pr_wait (tq_receive_waiters q))"

definition contents :: "TypedQueue \<Rightarrow> QueuePayload list" where
  "contents q = tq_payloads q @ map ps_payload (tq_send_waiters q)"

lemma capacity_update [simp]:
  "has_buffer_capacity (q\<lparr>tq_send_waiters := a\<rparr>) = has_buffer_capacity q"
  "has_buffer_capacity (q\<lparr>tq_receive_waiters := b\<rparr>) = has_buffer_capacity q"
  "has_buffer_capacity (q\<lparr>tq_next_wait_sequence := n\<rparr>) = has_buffer_capacity q"
  "has_buffer_capacity (q\<lparr>tq_closed := c\<rparr>) = has_buffer_capacity q"
  by (simp_all add: has_buffer_capacity_def split: QueueCapacity.split)

lemma queue_new_ok: "queue_ok (queue_new shape)"
  by (simp add: queue_ok_def queue_new_def split: QueueCapacity.split)

lemma queue_send_ok:
  assumes "queue_ok q" "queue_send p q = (r, q')"
  shows "queue_ok q'"
proof (cases "tq_closed q")
  case False
  show ?thesis
  proof (cases "tq_receive_waiters q")
    case Nil
    with assms False show ?thesis
      by (auto simp: queue_send_def queue_ok_def has_buffer_capacity_def split: if_splits QueueCapacity.splits)
  next
    case (Cons w ws)
    with assms False show ?thesis by (auto simp: queue_send_def queue_ok_def split: QueueCapacity.splits)
  qed
qed (use assms in \<open>auto simp: queue_send_def\<close>)

text \<open>What a send does to the contents: appended, handed to the first receiver, or left to the caller.\<close>

lemma queue_send_cases:
  assumes "queue_ok q" "queue_send p q = (r, q')"
  shows "case r of
      SendCommitted None \<Rightarrow> contents q' = contents q @ [p]
    | SendCommitted (Some w) \<Rightarrow> contents q = [] \<and> contents q' = [] \<and> tq_receive_waiters q \<noteq> []
        \<and> w = pr_wait (hd (tq_receive_waiters q)) \<and> tq_receive_waiters q' = tl (tq_receive_waiters q)
    | SendBlocked \<Rightarrow> q' = q \<and> \<not> has_buffer_capacity q \<and> tq_receive_waiters q = [] \<and> \<not> tq_closed q
    | SendClosedResult \<Rightarrow> q' = q \<and> tq_closed q"
  using assms by (auto simp: queue_send_def queue_ok_def contents_def split: if_splits list.splits)

lemma queue_receive_ok:
  assumes "queue_ok q" "queue_receive q = (r, q')"
  shows "queue_ok q'"
proof (cases "tq_payloads q")
  case Nil
  with assms show ?thesis
    by (cases "tq_send_waiters q") (auto simp: queue_receive_def queue_ok_def split: QueueCapacity.splits)
next
  case (Cons p ps)
  show ?thesis
  proof (cases "tq_send_waiters q")
    case Nil
    with assms Cons show ?thesis
      by (auto simp: queue_receive_def queue_ok_def promote_one_sender_def has_buffer_capacity_def
          split: if_splits QueueCapacity.splits)
  next
    case (Cons s ss)
    with assms \<open>tq_payloads q = p # ps\<close> show ?thesis
      by (auto simp: queue_receive_def queue_ok_def promote_one_sender_def has_buffer_capacity_def
          split: if_splits QueueCapacity.splits)
  qed
qed

text \<open>What a receive does: the oldest payload is taken, or there is none.\<close>

lemma queue_receive_cases:
  assumes "queue_ok q" "queue_receive q = (r, q')"
  shows "case r of
      ReceivedPayload p _ \<Rightarrow> contents q = p # contents q'
    | ReceiveBlocked \<Rightarrow> q' = q \<and> contents q = [] \<and> \<not> tq_closed q
    | ReceiveClosedResult \<Rightarrow> q' = q \<and> contents q = [] \<and> tq_closed q"
  using assms by (auto simp: queue_receive_def promote_one_sender_def contents_def split: if_splits list.splits prod.splits)

lemma reserve_ok: "reserve_wait_sequence q = (r, q') \<Longrightarrow> no_panic r \<and> (\<forall>n. r = Ok n \<longrightarrow>
    n = tq_next_wait_sequence q \<and> n < n + 1 \<and> q' = q\<lparr>tq_next_wait_sequence := n + 1\<rparr>) \<and> (\<forall>e. r = Err e \<longrightarrow> q' = q)"
proof -
  have "w < w + 1" if "unat w + 1 < 2 ^ 64" for w :: "64 word"
    using that by (simp add: word_less_nat_alt unat_word_ariths)
  then show "reserve_wait_sequence q = (r, q') \<Longrightarrow> ?thesis"
    by (auto simp: reserve_wait_sequence_def split: if_splits)
qed

lemma reject_duplicate_cases: "reject_duplicate w q = Ok () \<and>
      w \<notin> set (map ps_wait (tq_send_waiters q) @ map pr_wait (tq_receive_waiters q))
    \<or> (\<exists>m. reject_duplicate w q = Err (Fail m))"
  by (auto simp: reject_duplicate_def list_ex_iff)

text \<open>The outcomes of a registration; a refusal leaves the queue as it was.\<close>

lemma register_send_cases:
  assumes "queue_ok q"
  obtains (refused) m where "register_send w p q = (Err (Fail m), q)"
  | (sent) r q' where "queue_send p q = (r, q')" "r \<noteq> SendBlocked" "register_send w p q = (Ok r, q')"
  | (parked) n where "queue_send p q = (SendBlocked, q)" "n = tq_next_wait_sequence q" "n < n + 1"
      "w \<notin> set (map ps_wait (tq_send_waiters q) @ map pr_wait (tq_receive_waiters q))"
      "register_send w p q = (Ok SendBlocked, q\<lparr>tq_next_wait_sequence := n + 1,
         tq_send_waiters := tq_send_waiters q @ [\<lparr>ps_wait = w, ps_payload = p, ps_sequence = n\<rparr>]\<rparr>)"
proof (cases "\<exists>m. reject_duplicate w q = Err (Fail m)")
  case True
  then show ?thesis using refused by (auto simp: register_send_def)
next
  case False
  with reject_duplicate_cases[of w q] have d: "reject_duplicate w q = Ok ()"
    "w \<notin> set (map ps_wait (tq_send_waiters q) @ map pr_wait (tq_receive_waiters q))" by auto
  obtain r q' where s: "queue_send p q = (r, q')" by (cases "queue_send p q")
  show ?thesis
  proof (cases "r = SendBlocked")
    case True
    then have "q' = q" using queue_send_cases[OF assms s] by simp
    obtain x q2 where x: "reserve_wait_sequence q = (x, q2)" by (cases "reserve_wait_sequence q")
    show ?thesis
    proof (cases x)
      case (Inl e)
      with reserve_ok[OF x] x True s d \<open>q' = q\<close> refused show ?thesis
        by (cases e) (auto simp: register_send_def sbind_def)
    next
      case (Inr n)
      with reserve_ok[OF x] x True s d \<open>q' = q\<close> parked show ?thesis by (auto simp: register_send_def sbind_def)
    qed
  next
    case False
    with s d sent show ?thesis by (auto simp: register_send_def sbind_def)
  qed
qed

lemma register_receive_cases:
  assumes "queue_ok q"
  obtains (refused) m where "register_receive w q = (Err (Fail m), q)"
  | (received) r q' where "queue_receive q = (r, q')" "r \<noteq> ReceiveBlocked" "register_receive w q = (Ok r, q')"
  | (parked) n where "queue_receive q = (ReceiveBlocked, q)" "n = tq_next_wait_sequence q" "n < n + 1"
      "w \<notin> set (map ps_wait (tq_send_waiters q) @ map pr_wait (tq_receive_waiters q))"
      "register_receive w q = (Ok ReceiveBlocked, q\<lparr>tq_next_wait_sequence := n + 1,
         tq_receive_waiters := tq_receive_waiters q @ [\<lparr>pr_wait = w, pr_sequence = n\<rparr>]\<rparr>)"
proof (cases "\<exists>m. reject_duplicate w q = Err (Fail m)")
  case True
  then show ?thesis using refused by (auto simp: register_receive_def)
next
  case False
  with reject_duplicate_cases[of w q] have d: "reject_duplicate w q = Ok ()"
    "w \<notin> set (map ps_wait (tq_send_waiters q) @ map pr_wait (tq_receive_waiters q))" by auto
  obtain r q' where s: "queue_receive q = (r, q')" by (cases "queue_receive q")
  show ?thesis
  proof (cases "r = ReceiveBlocked")
    case True
    then have "q' = q" using queue_receive_cases[OF assms s] by simp
    obtain x q2 where x: "reserve_wait_sequence q = (x, q2)" by (cases "reserve_wait_sequence q")
    show ?thesis
    proof (cases x)
      case (Inl e)
      with reserve_ok[OF x] x True s d \<open>q' = q\<close> refused show ?thesis
        by (cases e) (auto simp: register_receive_def sbind_def)
    next
      case (Inr n)
      with reserve_ok[OF x] x True s d \<open>q' = q\<close> parked show ?thesis by (auto simp: register_receive_def sbind_def)
    qed
  next
    case False
    with s d received show ?thesis by (auto simp: register_receive_def sbind_def)
  qed
qed

lemma park_sequences: "\<forall>s \<in> set xs. s < n \<Longrightarrow> sorted_wrt (<) xs \<Longrightarrow> sorted_wrt (<) (xs @ [n])" for n :: "64 word"
  by (simp add: sorted_wrt_append)

lemma register_send_ok:
  assumes ok: "queue_ok q" and r: "register_send w p q = (r, q')"
  shows "queue_ok q' \<and> no_panic r"
  using ok
proof (cases rule: register_send_cases[where w = w and p = p])
  case (parked n)
  have "\<not> has_buffer_capacity q" "tq_receive_waiters q = []" "\<not> tq_closed q"
    using queue_send_cases[OF ok parked(1)] by simp_all
  moreover have "s < n + 1" if "s < n" for s using that parked(3) by (rule less_trans)
  ultimately show ?thesis using ok r parked(2-5)
    by (auto simp: queue_ok_def sorted_wrt_append split: QueueCapacity.splits)
qed (use r ok queue_send_ok in auto)

lemma register_receive_ok:
  assumes ok: "queue_ok q" and r: "register_receive w q = (r, q')"
  shows "queue_ok q' \<and> no_panic r"
  using ok
proof (cases rule: register_receive_cases[where w = w])
  case (parked n)
  have "contents q = []" "\<not> tq_closed q" using queue_receive_cases[OF ok parked(1)] by simp_all
  then have "tq_payloads q = []" "tq_send_waiters q = []" "\<not> tq_closed q" by (simp_all add: contents_def)
  moreover have "s < n + 1" if "s < n" for s using that parked(3) by (rule less_trans)
  ultimately show ?thesis using ok r parked(2-5)
    by (auto simp: queue_ok_def sorted_wrt_append split: QueueCapacity.splits)
qed (use r ok queue_receive_ok in auto)

lemma remove_first_subseq: "subseq (remove_first p xs) xs"
  by (induction xs) auto

lemma remove_first_set: "set (remove_first p xs) \<subseteq> set xs"
  by (induction xs) auto

lemma remove_first_sorted: "sorted_wrt R (map f xs) \<Longrightarrow> sorted_wrt R (map f (remove_first p xs))"
  using remove_first_set by (induction xs) fastforce+

lemma remove_first_distinct: "distinct (map f xs) \<Longrightarrow> distinct (map f (remove_first p xs))"
  using remove_first_set by (induction xs) fastforce+

lemma queue_cancel_cases:
  assumes "queue_cancel w q = (b, q')"
  obtains (none) "q' = q" "\<not> b"
  | (send) p where "q' = q\<lparr>tq_send_waiters := remove_first p (tq_send_waiters q)\<rparr>" "tq_send_waiters q \<noteq> []" b
  | (receive) p where "q' = q\<lparr>tq_receive_waiters := remove_first p (tq_receive_waiters q)\<rparr>"
      "tq_receive_waiters q \<noteq> []" b
proof (cases "list_ex (\<lambda>pending. ps_wait pending = w) (tq_send_waiters q)")
  case True
  then have "tq_send_waiters q \<noteq> []" by auto
  with True assms show ?thesis by (intro send) (auto simp: queue_cancel_def)
next
  case no_send: False
  show ?thesis
  proof (cases "list_ex (\<lambda>pending. pr_wait pending = w) (tq_receive_waiters q)")
    case True
    then have "tq_receive_waiters q \<noteq> []" by auto
    with True no_send assms show ?thesis by (intro receive) (auto simp: queue_cancel_def)
  next
    case False
    with no_send assms none show ?thesis by (simp add: queue_cancel_def)
  qed
qed

lemma queue_cancel_ok:
  assumes ok: "queue_ok q" and c: "queue_cancel w q = (b, q')"
  shows "queue_ok q'"
  using c
proof (cases rule: queue_cancel_cases)
  case none
  with ok show ?thesis by simp
next
  case (send p)
  with ok have "tq_receive_waiters q = []" "\<not> has_buffer_capacity q" "\<not> tq_closed q" by (auto simp: queue_ok_def)
  with ok send(1) remove_first_set[of p "tq_send_waiters q"] show ?thesis
    by (auto simp: queue_ok_def remove_first_sorted remove_first_distinct split: QueueCapacity.splits)
next
  case (receive p)
  with ok have "tq_send_waiters q = []" "\<not> tq_closed q" "tq_payloads q = []" by (auto simp: queue_ok_def)
  with ok receive(1) remove_first_set[of p "tq_receive_waiters q"] show ?thesis
    by (auto simp: queue_ok_def remove_first_sorted remove_first_distinct split: QueueCapacity.splits)
qed

lemma queue_cancel_contents: "queue_cancel w q = (b, q') \<Longrightarrow> subseq (contents q') (contents q)"
proof (erule queue_cancel_cases)
  fix p assume "q' = q\<lparr>tq_send_waiters := remove_first p (tq_send_waiters q)\<rparr>"
  then show ?thesis using subseq_map[OF remove_first_subseq, of ps_payload p "tq_send_waiters q"]
    by (simp add: contents_def subseq_append')
qed (simp_all add: contents_def)

lemma queue_close_ok: "queue_ok q \<Longrightarrow> queue_close q = (ws, q') \<Longrightarrow> queue_ok q'"
proof -
  assume ok: "queue_ok q" and "queue_close q = (ws, q')"
  then have "q' = q \<or> q' = q\<lparr>tq_closed := True, tq_send_waiters := [], tq_receive_waiters := []\<rparr>"
    by (auto simp: queue_close_def split: if_splits)
  with ok show ?thesis by (elim disjE) (simp_all add: queue_ok_def split: QueueCapacity.splits)
qed

lemma queue_close_contents: "queue_close q = (ws, q') \<Longrightarrow> subseq (contents q') (contents q)"
  by (auto simp: queue_close_def contents_def split: if_splits)

section \<open>Traces\<close>

text \<open>
  A call on the queue and what it moves: the payloads the queue takes charge of and the payloads it
  gives to a receiver. A send that meets a parked receiver hands its payload over at once; a payload
  the queue refuses stays with the caller.
\<close>

datatype queue_call = SendCall QueuePayload | RegisterSend QueueWait QueuePayload | ReceiveCall
  | RegisterReceive QueueWait | CancelWait QueueWait | CloseCall

definition send_moves :: "QueuePayload \<Rightarrow> bool \<Rightarrow> QueueSend \<Rightarrow> QueuePayload list \<times> QueuePayload list" where
  "send_moves p parked r =
     (case r of
        SendCommitted None \<Rightarrow> ([p], [])
      | SendCommitted (Some _) \<Rightarrow> ([p], [p])
      | SendBlocked \<Rightarrow> (if parked then [p] else [], [])
      | SendClosedResult \<Rightarrow> ([], []))"

definition receive_moves :: "QueueReceive \<Rightarrow> QueuePayload list \<times> QueuePayload list" where
  "receive_moves r = (case r of ReceivedPayload p _ \<Rightarrow> ([], [p]) | _ \<Rightarrow> ([], []))"

fun queue_step :: "queue_call \<Rightarrow> TypedQueue \<Rightarrow> (QueuePayload list \<times> QueuePayload list) \<times> TypedQueue" where
  "queue_step (SendCall p) q = (case queue_send p q of (r, q') \<Rightarrow> (send_moves p False r, q'))"
| "queue_step (RegisterSend w p) q =
     (case register_send w p q of (Inr r, q') \<Rightarrow> (send_moves p True r, q') | (Inl _, q') \<Rightarrow> (([], []), q'))"
| "queue_step ReceiveCall q = (case queue_receive q of (r, q') \<Rightarrow> (receive_moves r, q'))"
| "queue_step (RegisterReceive w) q =
     (case register_receive w q of (Inr r, q') \<Rightarrow> (receive_moves r, q') | (Inl _, q') \<Rightarrow> (([], []), q'))"
| "queue_step (CancelWait w) q = (([], []), snd (queue_cancel w q))"
| "queue_step CloseCall q = (([], []), snd (queue_close q))"

definition withdraws :: "queue_call \<Rightarrow> bool" where
  "withdraws c = (case c of CancelWait _ \<Rightarrow> True | CloseCall \<Rightarrow> True | _ \<Rightarrow> False)"

lemma send_moves_ok:
  assumes "queue_ok q" "queue_send p q = (r, q')" "r \<noteq> SendBlocked \<or> \<not> parked"
  shows "snd (send_moves p parked r) @ contents q' = contents q @ fst (send_moves p parked r)"
  using queue_send_cases[OF assms(1,2)] assms(3)
  by (auto simp: send_moves_def split: QueueSend.splits option.splits)

lemma receive_moves_ok:
  assumes "queue_ok q" "queue_receive q = (r, q')"
  shows "snd (receive_moves r) @ contents q' = contents q @ fst (receive_moves r)"
  using queue_receive_cases[OF assms] by (auto simp: receive_moves_def split: QueueReceive.splits)

lemma queue_step_moves:
  assumes ok: "queue_ok q" and "queue_step c q = ((a, d), q')" and "\<not> withdraws c"
  shows "d @ contents q' = contents q @ a"
proof (cases c)
  case (SendCall p)
  with assms send_moves_ok[OF ok, of p _ _ False] show ?thesis by (auto split: prod.splits)
next
  case (RegisterSend w p)
  from ok show ?thesis
  proof (cases rule: register_send_cases[where w = w and p = p])
    case (refused m)
    with assms RegisterSend show ?thesis by simp
  next
    case (sent r q2)
    with assms RegisterSend send_moves_ok[OF ok sent(1), of True] show ?thesis by simp
  next
    case (parked n)
    with assms RegisterSend show ?thesis by (auto simp: send_moves_def contents_def)
  qed
next
  case ReceiveCall
  with assms receive_moves_ok[OF ok] show ?thesis by (auto split: prod.splits)
next
  case (RegisterReceive w)
  from ok show ?thesis
  proof (cases rule: register_receive_cases[where w = w])
    case (refused m)
    with assms RegisterReceive show ?thesis by simp
  next
    case (received r q2)
    with assms RegisterReceive receive_moves_ok[OF ok received(1)] show ?thesis by simp
  next
    case (parked n)
    with assms RegisterReceive show ?thesis by (auto simp: receive_moves_def contents_def)
  qed
qed (use assms in \<open>simp_all add: withdraws_def\<close>)

lemma queue_step_ok: "queue_ok q \<Longrightarrow> queue_step c q = (m, q') \<Longrightarrow> queue_ok q'"
  by (cases c) (auto split: prod.splits sum.splits dest: queue_send_ok queue_receive_ok register_send_ok
      register_receive_ok queue_cancel_ok[OF _ surjective_pairing] queue_close_ok[OF _ surjective_pairing])

lemma queue_step_subseq:
  assumes "queue_ok q" "queue_step c q = ((a, d), q')"
  shows "subseq (d @ contents q') (contents q @ a)"
proof (cases "withdraws c")
  case True
  with assms show ?thesis
    by (cases c) (auto simp: withdraws_def intro: queue_cancel_contents[OF surjective_pairing]
        queue_close_contents[OF surjective_pairing])
next
  case False
  with queue_step_moves[OF assms] show ?thesis by simp
qed

text \<open>A sequence of calls: everything accepted, everything delivered, in order.\<close>

fun run_calls :: "('c \<Rightarrow> 'q \<Rightarrow> ('p list \<times> 'p list) \<times> 'q) \<Rightarrow> 'c list \<Rightarrow> 'q \<Rightarrow> ('p list \<times> 'p list) \<times> 'q" where
  "run_calls step [] q = (([], []), q)"
| "run_calls step (c # cs) q =
     (case step c q of ((a, d), q1) \<Rightarrow> case run_calls step cs q1 of ((as, ds), q2) \<Rightarrow> ((a @ as, d @ ds), q2))"

text \<open>
  The contract of a channel: each call keeps the invariant, delivers in the order of acceptance, and
  loses nothing unless it withdraws something.
\<close>

locale fifo_channel =
  fixes inv :: "'q \<Rightarrow> bool" and view :: "'q \<Rightarrow> 'p list"
    and step :: "'c \<Rightarrow> 'q \<Rightarrow> ('p list \<times> 'p list) \<times> 'q" and lossy :: "'c \<Rightarrow> bool"
  assumes step_inv: "inv q \<Longrightarrow> step c q = (m, q') \<Longrightarrow> inv q'"
    and step_exact: "inv q \<Longrightarrow> step c q = ((a, d), q') \<Longrightarrow> \<not> lossy c \<Longrightarrow> d @ view q' = view q @ a"
    and step_order: "inv q \<Longrightarrow> step c q = ((a, d), q') \<Longrightarrow> subseq (d @ view q') (view q @ a)"
begin

lemma run_order: "inv q \<Longrightarrow> run_calls step cs q = ((as, ds), q') \<Longrightarrow> inv q' \<and> subseq (ds @ view q') (view q @ as)"
proof (induction cs arbitrary: q as ds)
  case (Cons c cs)
  obtain a d q1 where c: "step c q = ((a, d), q1)" by (metis prod.exhaust)
  obtain as2 ds2 where r: "run_calls step cs q1 = ((as2, ds2), q')" "as = a @ as2" "ds = d @ ds2"
    using Cons.prems(2) c by (auto split: prod.splits)
  have "inv q'" "subseq (ds2 @ view q') (view q1 @ as2)"
    using Cons.IH[OF step_inv[OF Cons.prems(1) c] r(1)] by auto
  then have "subseq (d @ ds2 @ view q') ((d @ view q1) @ as2)" by (simp add: subseq_append')
  also have "subseq \<dots> ((view q @ a) @ as2)"
    using step_order[OF Cons.prems(1) c] by (rule list_emb_append_mono) simp
  finally show ?case using \<open>inv q'\<close> r by simp
qed auto

lemma run_exact: "inv q \<Longrightarrow> run_calls step cs q = ((as, ds), q') \<Longrightarrow> \<not> list_ex lossy cs \<Longrightarrow> ds @ view q' = view q @ as"
proof (induction cs arbitrary: q as ds)
  case (Cons c cs)
  obtain a d q1 where c: "step c q = ((a, d), q1)" by (metis prod.exhaust)
  obtain as2 ds2 where r: "run_calls step cs q1 = ((as2, ds2), q')" "as = a @ as2" "ds = d @ ds2"
    using Cons.prems(2) c by (auto split: prod.splits)
  have "ds2 @ view q' = view q1 @ as2" using Cons.IH[OF step_inv[OF Cons.prems(1) c] r(1)] Cons.prems(3) by simp
  then have "ds @ view q' = (d @ view q1) @ as2" using r by simp
  moreover have "d @ view q1 = view q @ a" using step_exact[OF Cons.prems(1) c] Cons.prems(3) by simp
  ultimately show ?case using r by simp
qed auto

end

interpretation tq: fifo_channel queue_ok contents queue_step withdraws
  by unfold_locales (auto intro: queue_step_ok queue_step_moves queue_step_subseq)

text \<open>A sample shape and sample waits for evaluation.\<close>

definition sample_queue :: "QueueCapacity \<Rightarrow> QueueShape" where
  "sample_queue capacity =
     \<lparr>qs_id = 0, qs_capacity = capacity, qs_payload_layout_fingerprint = [], qs_ownership = InlinePayload\<rparr>"

definition sample_wait :: "64 word \<Rightarrow> QueueWait" where
  "sample_wait execution = \<lparr>qw_execution = execution, qw_operation = 0, qw_generation = 0, qw_arm = None\<rparr>"

lemmas queue_run_simps = queue_new_def register_receive_def register_send_def sbind_def reject_duplicate_def
  queue_receive_def queue_send_def reserve_wait_sequence_def promote_one_sender_def has_buffer_capacity_def
  send_moves_def receive_moves_def sample_queue_def sample_wait_def

section \<open>Properties\<close>

text \<open>
  C24: A channel delivers in the order of acceptance: over any sequence of sends, receives,
  registrations, cancellations and closes on a fresh queue, the delivered payloads followed by those
  still held are a subsequence of the accepted ones, so nothing is duplicated, invented or reordered.
\<close>

theorem queue_delivers_in_order:
  assumes "run_calls queue_step cs (queue_new shape) = ((accepted, delivered), q)"
  shows "subseq (delivered @ contents q) accepted"
  using tq.run_order[OF queue_new_ok assms] by (simp add: queue_new_def contents_def)

theorem queue_delivers_in_order_witness:
  "\<exists>q. run_calls queue_step
       [RegisterReceive (sample_wait 1), SendCall 7, SendCall 8, RegisterSend (sample_wait 2) 9, ReceiveCall]
       (queue_new (sample_queue (Fixed 1))) = (([7, 8, 9], [7, 8]), q) \<and> subseq ([7, 8] @ contents q) [7, 8, 9]"
proof -
  obtain q where "run_calls queue_step
       [RegisterReceive (sample_wait 1), SendCall 7, SendCall 8, RegisterSend (sample_wait 2) 9, ReceiveCall]
       (queue_new (sample_queue (Fixed 1))) = (([7, 8, 9], [7, 8]), q)"
    by (simp add: queue_run_simps)
  with queue_delivers_in_order[OF this] show ?thesis by blast
qed

text \<open>
  C25: Nothing is lost: as long as no wait is cancelled and the queue is not closed, every accepted
  payload has been delivered or is still held, in order; and the queue's invariant holds, so the
  buffer is within its capacity, a sender waits only when the buffer is full and a receiver only
  when there is nothing to receive.
\<close>

theorem queue_loses_nothing:
  assumes "run_calls queue_step cs (queue_new shape) = ((accepted, delivered), q)" "\<not> list_ex withdraws cs"
  shows "delivered @ contents q = accepted \<and> queue_ok q"
  using tq.run_exact[OF queue_new_ok assms] tq.run_order[OF queue_new_ok assms(1)]
  by (simp add: queue_new_def contents_def)

theorem queue_loses_nothing_witness:
  "\<exists>q. run_calls queue_step [RegisterReceive (sample_wait 1), SendCall 7, SendCall 3, RegisterSend (sample_wait 2) 8]
       (queue_new (sample_queue Rendezvous)) = (([7, 8], [7]), q) \<and> [7] @ contents q = [7, 8] \<and> queue_ok q"
proof -
  obtain q where "run_calls queue_step
       [RegisterReceive (sample_wait 1), SendCall 7, SendCall 3, RegisterSend (sample_wait 2) 8]
       (queue_new (sample_queue Rendezvous)) = (([7, 8], [7]), q)"
    by (simp add: queue_run_simps)
  with queue_loses_nothing[OF this] show ?thesis by (auto simp: withdraws_def)
qed

end
