(* ===== verification/Queue_Runtime.thy ===== *)
theory Queue_Runtime
  imports Typed_Async Typed_Queue Ordered_Collections "HOL-Library.Product_Lexorder"
begin

text \<open>
  The runtime that joins queues to executions (crates/witchy-interp/src/typed_queue.rs,
  \<open>TypedQueueRuntime\<close>, and its host wrapper in typed_host.rs). \<open>BTreeMap\<close> is a sorted association
  list, \<open>get_mut(..)?.method(..)\<close> runs the method on the entry and stores what it leaves, and
  \<open>expect("execution was checked above")\<close> is a lookup that panics.
\<close>

section \<open>The runtime\<close>

datatype QueueCompletion =
    SendAccepted
  | SendClosed QueuePayload
  | ReceivePayload QueuePayload
  | ReceiveClosed

record QueueDelivery =
  qd_execution :: "64 word"
  qd_operation :: OperationSiteId
  qd_arm :: "32 word option"
  qd_completion :: QueueCompletion

record HostWait =
  hw_execution :: "64 word"
  hw_operation :: OperationSiteId
  hw_generation :: "64 word"

record TypedQueueRuntime =
  rt_queues :: "(QueueShapeId, TypedQueue) btmap"
  rt_executions :: "(64 word, TypedExecution) btmap"
  rt_host_waits :: "(64 word, HostWait) btmap"

datatype QueueRuntimeResult =
  RuntimeBlocked | RuntimeCommitted "(64 word \<times> KernelTurn) list" "QueueDelivery list"

datatype QueueSelectResult =
  SelectBlocked | SelectCommitted "32 word" "(64 word \<times> KernelTurn) list" "QueueDelivery list"

definition runtime_default :: TypedQueueRuntime where
  "runtime_default = \<lparr>rt_queues = [], rt_executions = [], rt_host_waits = []\<rparr>"

definition no_such_execution :: fault where
  "no_such_execution = Fail ''typed queue runtime has no such execution''"

text \<open>\<open>queue_mut\<close> and a method call on the queue.\<close>

definition on_queue :: "QueueShapeId \<Rightarrow> (TypedQueue, 'a) sr \<Rightarrow> (TypedQueueRuntime, 'a) sr" where
  "on_queue i m rt =
     (case btm_get (rt_queues rt) i of
        None \<Rightarrow> (Err (Fail ''typed queue runtime has no such queue shape''), rt)
      | Some q \<Rightarrow> (case m q of (r, q') \<Rightarrow> (r, rt\<lparr>rt_queues := btm_insert i q' (rt_queues rt)\<rparr>)))"

text \<open>\<open>executions.get_mut(&id)\<close>, the given fault when there is none, and a method call on the execution.\<close>

definition on_execution :: "fault \<Rightarrow> 64 word \<Rightarrow> (TypedExecution, 'a) sr \<Rightarrow> (TypedQueueRuntime, 'a) sr" where
  "on_execution missing i m rt =
     (case btm_get (rt_executions rt) i of
        None \<Rightarrow> (Err missing, rt)
      | Some ex \<Rightarrow> (case m ex of (r, ex') \<Rightarrow> (r, rt\<lparr>rt_executions := btm_insert i ex' (rt_executions rt)\<rparr>)))"

definition read_execution :: "TypedQueueRuntime \<Rightarrow> 64 word \<Rightarrow> TypedExecution outcome" where
  "read_execution rt i = ok_or (btm_get (rt_executions rt) i) no_such_execution"

definition cancel_link :: "QueueWait \<Rightarrow> (TypedQueue, bool) sr" where
  "cancel_link wait q = (case queue_cancel wait q of (b, q') \<Rightarrow> (Ok b, q'))"

definition runtime_install_queue :: "TypedQueue \<Rightarrow> (TypedQueueRuntime, unit) sr" where
  "runtime_install_queue q rt =
     (let i = qs_id (tq_shape q); rt' = rt\<lparr>rt_queues := btm_insert i q (rt_queues rt)\<rparr> in
      if btm_get (rt_queues rt) i \<noteq> None
      then (Err (Fail ''typed queue runtime already has this queue shape ID''), rt') else (Ok (), rt'))"

definition runtime_install_execution :: "64 word \<Rightarrow> TypedExecution \<Rightarrow> (TypedQueueRuntime, unit) sr" where
  "runtime_install_execution i ex rt =
     (let rt' = rt\<lparr>rt_executions := btm_insert i ex (rt_executions rt)\<rparr> in
      if btm_get (rt_executions rt) i \<noteq> None
      then (Err (Fail ''typed queue runtime already has this execution ID''), rt') else (Ok (), rt'))"

definition has_queue :: "TypedQueueRuntime \<Rightarrow> QueueShapeId \<Rightarrow> bool" where
  "has_queue rt i = btm_contains_key (rt_queues rt) i"

definition turn_execution :: "64 word \<Rightarrow> (TypedQueueRuntime, KernelTurn) sr" where
  "turn_execution i = on_execution no_such_execution i turn"

definition execution_mut_turn_selected :: "64 word \<Rightarrow> nat \<Rightarrow> (TypedQueueRuntime, KernelTurn) sr" where
  "execution_mut_turn_selected i transition = on_execution no_such_execution i (turn_selected transition)"

definition wake_execution :: "64 word \<Rightarrow> OperationSiteId \<Rightarrow> (TypedQueueRuntime, unit) sr" where
  "wake_execution i operation = on_execution no_such_execution i (wake operation)"

section \<open>Host waits\<close>

definition runtime_submit_host :: "64 word \<Rightarrow> 64 word \<Rightarrow> 64 word \<Rightarrow> (TypedQueueRuntime, unit) sr" where
  "runtime_submit_host execution generation host =
     sbind sget (\<lambda>rt.
     if btm_contains_key (rt_host_waits rt) host
     then serr (Fail ''host operation already has a typed wait registration'')
     else sbind (slift (rbind (read_execution rt execution) waiting_operation)) (\<lambda>(operation, kind).
     if kind \<noteq> HostOperation then serr (Fail ''execution wait is not a typed host operation'')
     else if list_ex (\<lambda>(_, wait). hw_execution wait = execution) (rt_host_waits rt)
     then serr (Fail ''execution already has a typed host wait registration'')
     else smodify (\<lambda>rt. rt\<lparr>rt_host_waits := btm_insert host
            \<lparr>hw_execution = execution, hw_operation = operation, hw_generation = generation\<rparr> (rt_host_waits rt)\<rparr>)))"

definition runtime_complete_host ::
    "64 word \<Rightarrow> 64 word \<Rightarrow> (TypedQueueRuntime, (64 word \<times> OperationSiteId \<times> KernelTurn) option) sr" where
  "runtime_complete_host host generation =
     sbind sget (\<lambda>rt.
     (case btm_get (rt_host_waits rt) host of
        None \<Rightarrow> sret None
      | Some wait \<Rightarrow>
          if hw_generation wait \<noteq> generation then sret None
          else sbind (smodify (\<lambda>rt. rt\<lparr>rt_host_waits := btm_remove host (rt_host_waits rt)\<rparr>)) (\<lambda>_.
          sbind (on_execution (Fail ''typed host wait execution vanished'') (hw_execution wait)
                  (commit_operation (CommitReady (hw_operation wait)))) (\<lambda>turn.
          sret (Some (hw_execution wait, hw_operation wait, turn))))))"

definition runtime_request_host_cancellation :: "64 word \<Rightarrow> 64 word \<Rightarrow> (TypedQueueRuntime, bool) sr" where
  "runtime_request_host_cancellation execution generation =
     sbind sget (\<lambda>rt.
     (case List.find (\<lambda>(_, wait). hw_execution wait = execution \<and> hw_generation wait = generation) (rt_host_waits rt) of
        None \<Rightarrow> sret False
      | Some (host, wait) \<Rightarrow>
          sbind (smodify (\<lambda>rt. rt\<lparr>rt_host_waits := btm_remove host (rt_host_waits rt)\<rparr>)) (\<lambda>_.
          on_execution (Fail ''typed host wait execution vanished'') (hw_execution wait) execution_request_cancellation)))"

section \<open>Waits\<close>

definition waiting_operation_any ::
    "TypedQueueRuntime \<Rightarrow> 64 word \<Rightarrow> (OperationSiteId \<times> QueueShapeId \<times> ExecutionOperation) outcome" where
  "waiting_operation_any rt execution = rbind (read_execution rt execution) waiting_queue_operation"

definition runtime_waiting_operation ::
    "TypedQueueRuntime \<Rightarrow> 64 word \<Rightarrow> ExecutionOperation \<Rightarrow> (OperationSiteId \<times> QueueShapeId) outcome" where
  "runtime_waiting_operation rt execution expected =
     rbind (waiting_operation_any rt execution) (\<lambda>(operation, queue, actual).
       if actual \<noteq> expected then Err (Fail ''execution wait has a different typed queue operation'')
       else Ok (operation, queue))"

definition ensure_wait :: "TypedQueueRuntime \<Rightarrow> QueueWait \<Rightarrow> QueueShapeId \<Rightarrow> ExecutionOperation \<Rightarrow> unit outcome" where
  "ensure_wait rt wait queue expected =
     rbind (waiting_operation_any rt (qw_execution wait)) (\<lambda>(operation, actual_queue, actual).
       if operation \<noteq> qw_operation wait \<or> actual_queue \<noteq> queue \<or> actual \<noteq> expected
       then Err (Fail ''queue match does not own the target execution wait record'') else Ok ())"

definition ensure_select_wait ::
    "TypedQueueRuntime \<Rightarrow> QueueWait \<Rightarrow> QueueShapeId \<Rightarrow> ExecutionOperation \<Rightarrow> unit outcome" where
  "ensure_select_wait rt wait queue expected =
     rbind (ok_or (qw_arm wait) (Fail ''select wait is missing an arm identity'')) (\<lambda>arm.
     rbind (rbind (read_execution rt (qw_execution wait)) waiting_select_arms) (\<lambda>(operation, arms).
       if operation \<noteq> qw_operation wait
          \<or> \<not> list_ex (\<lambda>(ordinal, actual, actual_queue). ordinal = arm \<and> actual = expected \<and> actual_queue = queue) arms
       then Err (Fail ''queue match does not own the target select arm registration'') else Ok ()))"

definition runtime_commit :: "64 word \<Rightarrow> OperationSiteId \<Rightarrow> (TypedQueueRuntime, KernelTurn) sr" where
  "runtime_commit execution operation =
     on_execution no_such_execution execution (commit_operation (CommitReady operation))"

definition commit_wait :: "QueueWait \<Rightarrow> QueueShapeId \<Rightarrow> ExecutionOperation \<Rightarrow> (TypedQueueRuntime, KernelTurn) sr" where
  "commit_wait wait queue expected =
     sbind sget (\<lambda>rt.
     (case qw_arm wait of
        Some arm \<Rightarrow>
          sbind (slift (ensure_select_wait rt wait queue expected)) (\<lambda>_.
          on_execution Panic (qw_execution wait) (commit_operation (CommitSelectArm (qw_operation wait) arm)))
      | None \<Rightarrow>
          sbind (slift (ensure_wait rt wait queue expected)) (\<lambda>_.
          runtime_commit (qw_execution wait) (qw_operation wait))))"

definition cancel_waits :: "(QueueShapeId \<times> QueueWait) list \<Rightarrow> (TypedQueueRuntime, unit) sr" where
  "cancel_waits = sfor (\<lambda>(queue, wait). sbind (on_queue queue (cancel_link wait)) (\<lambda>_. sret ()))"

definition arm_wait :: "64 word \<Rightarrow> OperationSiteId \<Rightarrow> 64 word \<Rightarrow> 32 word option \<Rightarrow> QueueWait" where
  "arm_wait execution operation generation arm =
     \<lparr>qw_execution = execution, qw_operation = operation, qw_generation = generation, qw_arm = arm\<rparr>"

definition cancel_select_losers :: "QueueWait \<Rightarrow> (TypedQueueRuntime, unit) sr" where
  "cancel_select_losers winner =
     sbind (slift (ok_or (qw_arm winner) (Fail ''select winner is missing an arm identity''))) (\<lambda>winning_arm.
     sbind sget (\<lambda>rt.
     sbind (slift (rbind (read_execution rt (qw_execution winner)) waiting_select_arms)) (\<lambda>(operation, arms).
     if operation \<noteq> qw_operation winner then serr (Fail ''select close wake has a different operation identity'')
     else sfor (\<lambda>(arm, _, queue).
       if arm \<noteq> winning_arm
       then sbind (on_queue queue (cancel_link (arm_wait (qw_execution winner) operation (qw_generation winner) (Some arm))))
              (\<lambda>_. sret ())
       else sret ()) arms)))"

definition abort_select :: "64 word \<Rightarrow> OperationSiteId \<Rightarrow> (TypedQueueRuntime, unit) sr" where
  "abort_select execution operation = on_execution no_such_execution execution (abort_operation operation)"

definition delivery :: "64 word \<Rightarrow> OperationSiteId \<Rightarrow> 32 word option \<Rightarrow> QueueCompletion \<Rightarrow> QueueDelivery" where
  "delivery execution operation arm completion =
     \<lparr>qd_execution = execution, qd_operation = operation, qd_arm = arm, qd_completion = completion\<rparr>"

section \<open>Sends and receives\<close>

definition runtime_submit_send ::
    "64 word \<Rightarrow> 64 word \<Rightarrow> QueuePayload \<Rightarrow> (TypedQueueRuntime, QueueRuntimeResult) sr" where
  "runtime_submit_send execution generation payload =
     sbind sget (\<lambda>rt.
     sbind (slift (runtime_waiting_operation rt execution ChannelSend)) (\<lambda>(operation, queue).
     let wait = arm_wait execution operation generation None in
     sbind (on_queue queue (register_send wait payload)) (\<lambda>result.
     (case result of
        SendBlocked \<Rightarrow> sret RuntimeBlocked
      | SendClosedResult \<Rightarrow>
          sbind (commit_wait wait queue ChannelSend) (\<lambda>turn.
          sret (RuntimeCommitted [(execution, turn)] [delivery execution operation None (SendClosed payload)]))
      | SendCommitted receiver \<Rightarrow>
          sbind (runtime_commit execution operation) (\<lambda>turn.
          (case receiver of
             None \<Rightarrow> sret (RuntimeCommitted [(execution, turn)] [delivery execution operation None SendAccepted])
           | Some r \<Rightarrow>
               sbind sget (\<lambda>rt.
               sbind (slift (ensure_wait rt r queue ChannelReceive)) (\<lambda>_.
               sbind (runtime_commit (qw_execution r) (qw_operation r)) (\<lambda>turn2.
               sret (RuntimeCommitted [(execution, turn), (qw_execution r, turn2)]
                 [delivery execution operation None SendAccepted,
                  delivery (qw_execution r) (qw_operation r) None (ReceivePayload payload)]))))))))))"

definition runtime_submit_receive ::
    "64 word \<Rightarrow> 64 word \<Rightarrow> (TypedQueueRuntime, QueueRuntimeResult) sr" where
  "runtime_submit_receive execution generation =
     sbind sget (\<lambda>rt.
     sbind (slift (runtime_waiting_operation rt execution ChannelReceive)) (\<lambda>(operation, queue).
     let wait = arm_wait execution operation generation None in
     sbind (on_queue queue (register_receive wait)) (\<lambda>result.
     (case result of
        ReceiveBlocked \<Rightarrow> sret RuntimeBlocked
      | ReceiveClosedResult \<Rightarrow>
          sbind (commit_wait wait queue ChannelReceive) (\<lambda>turn.
          sret (RuntimeCommitted [(execution, turn)] [delivery execution operation None ReceiveClosed]))
      | ReceivedPayload payload sender \<Rightarrow>
          sbind (runtime_commit execution operation) (\<lambda>turn.
          (case sender of
             None \<Rightarrow> sret (RuntimeCommitted [(execution, turn)]
                       [delivery execution operation None (ReceivePayload payload)])
           | Some s \<Rightarrow>
               sbind sget (\<lambda>rt.
               sbind (slift (ensure_wait rt s queue ChannelSend)) (\<lambda>_.
               sbind (runtime_commit (qw_execution s) (qw_operation s)) (\<lambda>turn2.
               sret (RuntimeCommitted [(execution, turn), (qw_execution s, turn2)]
                 [delivery execution operation None (ReceivePayload payload),
                  delivery (qw_execution s) (qw_operation s) None SendAccepted]))))))))))"

section \<open>Close\<close>

text \<open>
  A close wake row: its position, the wait, the direction and the completion. Of the wakes that
  belong to one select the one with the smallest arm is kept, under the select's key.
\<close>

type_synonym close_row = "nat \<times> QueueWait \<times> ExecutionOperation \<times> QueueCompletion"
type_synonym select_key = "64 word \<times> 32 word \<times> 64 word"

fun wake_parts :: "QueueCloseWake \<Rightarrow> QueueWait \<times> ExecutionOperation \<times> QueueCompletion" where
  "wake_parts (CloseSend wait payload) = (wait, ChannelSend, SendClosed payload)"
| "wake_parts (CloseReceive wait) = (wait, ChannelReceive, ReceiveClosed)"

fun sort_wakes :: "nat \<Rightarrow> QueueCloseWake list \<Rightarrow> close_row list \<Rightarrow>
    (select_key, nat \<times> QueueWait \<times> QueueCompletion) btmap \<Rightarrow>
    close_row list \<times> (select_key, nat \<times> QueueWait \<times> QueueCompletion) btmap" where
  "sort_wakes position_of [] ordinary selects = (ordinary, selects)"
| "sort_wakes position_of (cw # wakes) ordinary selects =
     (case wake_parts cw of (wait, direction, completion) \<Rightarrow>
     (case qw_arm wait of
        Some arm \<Rightarrow>
          (let key = (qw_execution wait, qw_operation wait, qw_generation wait) in
           sort_wakes (Suc position_of) wakes ordinary
             (case btm_get selects key of
                Some (_, selected, _) \<Rightarrow>
                  if (case qw_arm selected of None \<Rightarrow> False | Some selected_arm \<Rightarrow> selected_arm \<le> arm) then selects
                  else btm_insert key (position_of, wait, completion) selects
              | None \<Rightarrow> btm_insert key (position_of, wait, completion) selects))
      | None \<Rightarrow> sort_wakes (Suc position_of) wakes (ordinary @ [(position_of, wait, direction, completion)]) selects))"

text \<open>\<open>unreachable!\<close> is a panic.\<close>

definition close_direction :: "QueueCompletion \<Rightarrow> ExecutionOperation outcome" where
  "close_direction completion =
     (case completion of
        SendClosed _ \<Rightarrow> Ok ChannelSend
      | ReceiveClosed \<Rightarrow> Ok ChannelReceive
      | _ \<Rightarrow> Err Panic)"

definition select_row :: "nat \<times> QueueWait \<times> QueueCompletion \<Rightarrow> close_row outcome" where
  "select_row = (\<lambda>(position_of, wait, completion).
     rbind (close_direction completion) (\<lambda>direction. Ok (position_of, wait, direction, completion)))"

definition wake_row :: "QueueShapeId \<Rightarrow> close_row \<Rightarrow> (TypedQueueRuntime, (64 word \<times> KernelTurn) \<times> QueueDelivery) sr" where
  "wake_row queue = (\<lambda>(_, wait, direction, completion).
     sbind (if qw_arm wait \<noteq> None then cancel_select_losers wait else sret ()) (\<lambda>_.
     sbind (commit_wait wait queue direction) (\<lambda>turn.
     sret ((qw_execution wait, turn), delivery (qw_execution wait) (qw_operation wait) (qw_arm wait) completion))))"

definition close_link :: "(TypedQueue, QueueCloseWake list) sr" where
  "close_link q = (case queue_close q of (wakes, q') \<Rightarrow> (Ok wakes, q'))"

definition runtime_close_queue :: "QueueShapeId \<Rightarrow> (TypedQueueRuntime, QueueRuntimeResult) sr" where
  "runtime_close_queue queue =
     sbind (on_queue queue close_link) (\<lambda>wakes.
     (case sort_wakes 0 wakes [] [] of (ordinary, selects) \<Rightarrow>
     sbind (slift (rtraverse select_row (map snd selects))) (\<lambda>rows.
     sbind (sfor_collect (wake_row queue) (sort_key fst (ordinary @ rows))) (\<lambda>woken.
     sret (RuntimeCommitted (map fst woken) (map snd woken))))))"

section \<open>Cancellation of a direct wait\<close>

definition runtime_cancel :: "64 word \<Rightarrow> 64 word \<Rightarrow> (TypedQueueRuntime, bool) sr" where
  "runtime_cancel execution generation =
     sbind sget (\<lambda>rt.
     sbind (slift (waiting_operation_any rt execution)) (\<lambda>(operation, queue, _).
     sbind (on_queue queue (cancel_link (arm_wait execution operation generation None))) (\<lambda>cancelled.
     if \<not> cancelled then sret False
     else sbind (on_execution Panic execution (abort_operation operation)) (\<lambda>_. sret True))))"

section \<open>Select\<close>

datatype SelectAdmission = AdmitSend QueueSend QueuePayload | AdmitReceive QueueReceive

definition check_send_payloads ::
    "(32 word, QueuePayload) btmap \<Rightarrow> (32 word \<times> ExecutionOperation \<times> QueueShapeId) list \<Rightarrow> unit outcome" where
  "check_send_payloads send_payloads arms =
     rfor (\<lambda>(ordinal, _).
       (case List.find (\<lambda>(arm, _, _). arm = ordinal) arms of
          None \<Rightarrow> Err (Fail ''select payload names an absent arm'')
        | Some (_, direction, _) \<Rightarrow>
            if direction \<noteq> ChannelSend
            then Err (Fail ''select payload may be supplied only for a send arm'') else Ok ())) send_payloads"

definition select_admit ::
    "(32 word, QueuePayload) btmap \<Rightarrow> QueueWait \<Rightarrow> 32 word \<times> ExecutionOperation \<times> QueueShapeId \<Rightarrow>
     (TypedQueueRuntime, SelectAdmission) sr" where
  "select_admit send_payloads wait = (\<lambda>(arm, direction, queue).
     (case direction of
        ChannelSend \<Rightarrow>
          sbind (slift (ok_or (btm_get send_payloads arm) (Fail ''typed select send arm has no payload binding''))) (\<lambda>payload.
          sbind (on_queue queue (register_send wait payload)) (\<lambda>r. sret (AdmitSend r payload)))
      | ChannelReceive \<Rightarrow> sbind (on_queue queue (register_receive wait)) (\<lambda>r. sret (AdmitReceive r))
      | _ \<Rightarrow> serr (Fail ''typed select arm is not a queue operation'')))"

text \<open>The winning arm commits after the earlier registrations are withdrawn; then its partner, if any.\<close>

definition select_commit ::
    "(QueueShapeId \<times> QueueWait) list \<Rightarrow> QueueWait \<Rightarrow> 32 word \<Rightarrow> QueueShapeId \<Rightarrow> ExecutionOperation \<Rightarrow> QueueCompletion \<Rightarrow>
     (QueueWait \<times> ExecutionOperation \<times> QueueCompletion) option \<Rightarrow> (TypedQueueRuntime, QueueSelectResult) sr" where
  "select_commit registered wait arm queue direction completion partner =
     sbind (cancel_waits registered) (\<lambda>_.
     sbind (commit_wait wait queue direction) (\<lambda>turn.
     (case partner of
        None \<Rightarrow> sret (SelectCommitted arm [(qw_execution wait, turn)]
                  [delivery (qw_execution wait) (qw_operation wait) (Some arm) completion])
      | Some (other, other_direction, other_completion) \<Rightarrow>
          sbind (commit_wait other queue other_direction) (\<lambda>turn2.
          sret (SelectCommitted arm [(qw_execution wait, turn), (qw_execution other, turn2)]
            [delivery (qw_execution wait) (qw_operation wait) (Some arm) completion,
             delivery (qw_execution other) (qw_operation other) (qw_arm other) other_completion])))))"

fun select_arms :: "(32 word, QueuePayload) btmap \<Rightarrow> 64 word \<Rightarrow> OperationSiteId \<Rightarrow> 64 word \<Rightarrow>
    (QueueShapeId \<times> QueueWait) list \<Rightarrow> (32 word \<times> ExecutionOperation \<times> QueueShapeId) list \<Rightarrow>
    (TypedQueueRuntime, QueueSelectResult) sr" where
  "select_arms send_payloads execution operation generation registered [] = sret SelectBlocked"
| "select_arms send_payloads execution operation generation registered ((arm, direction, queue) # arms) =
     (let wait = arm_wait execution operation generation (Some arm) in
      sbind (select_admit send_payloads wait (arm, direction, queue)) (\<lambda>admission.
      (case admission of
         AdmitSend SendBlocked _ \<Rightarrow>
           select_arms send_payloads execution operation generation (registered @ [(queue, wait)]) arms
       | AdmitReceive ReceiveBlocked \<Rightarrow>
           select_arms send_payloads execution operation generation (registered @ [(queue, wait)]) arms
       | AdmitSend SendClosedResult payload \<Rightarrow>
           select_commit registered wait arm queue ChannelSend (SendClosed payload) None
       | AdmitReceive ReceiveClosedResult \<Rightarrow>
           select_commit registered wait arm queue ChannelReceive ReceiveClosed None
       | AdmitSend (SendCommitted receiver) payload \<Rightarrow>
           select_commit registered wait arm queue ChannelSend SendAccepted
             (map_option (\<lambda>r. (r, ChannelReceive, ReceivePayload payload)) receiver)
       | AdmitReceive (ReceivedPayload payload sender) \<Rightarrow>
           select_commit registered wait arm queue ChannelReceive (ReceivePayload payload)
             (map_option (\<lambda>s. (s, ChannelSend, SendAccepted)) sender))))"

definition runtime_submit_select ::
    "64 word \<Rightarrow> 64 word \<Rightarrow> (32 word, QueuePayload) btmap \<Rightarrow> (TypedQueueRuntime, QueueSelectResult) sr" where
  "runtime_submit_select execution generation send_payloads =
     sbind sget (\<lambda>rt.
     sbind (slift (rbind (read_execution rt execution) waiting_select_arms)) (\<lambda>(operation, arms).
     if arms = [] then serr (Fail ''typed select has no arms'')
     else sbind (slift (check_send_payloads send_payloads arms)) (\<lambda>_.
     select_arms send_payloads execution operation generation [] arms)))"

text \<open>The exact registrations of the given arms are withdrawn; how many there were.\<close>

fun cancel_arms :: "64 word \<Rightarrow> OperationSiteId \<Rightarrow> 64 word \<Rightarrow>
    (32 word \<times> ExecutionOperation \<times> QueueShapeId) list \<Rightarrow> (TypedQueueRuntime, nat) sr" where
  "cancel_arms execution operation generation [] = sret 0"
| "cancel_arms execution operation generation ((arm, _, queue) # arms) =
     sbind (on_queue queue (cancel_link (arm_wait execution operation generation (Some arm)))) (\<lambda>b.
     sbind (cancel_arms execution operation generation arms) (\<lambda>n. sret (if b then Suc n else n)))"

definition runtime_cancel_select :: "64 word \<Rightarrow> 64 word \<Rightarrow> (TypedQueueRuntime, bool) sr" where
  "runtime_cancel_select execution generation =
     sbind sget (\<lambda>rt.
     sbind (slift (rbind (read_execution rt execution) waiting_select_arms)) (\<lambda>(operation, arms).
     sbind (cancel_arms execution operation generation arms) (\<lambda>n.
     if n \<noteq> 0 then sbind (abort_select execution operation) (\<lambda>_. sret True) else sret False)))"

section \<open>Cooperative cancellation\<close>

definition claim_waits :: "TypedExecution \<Rightarrow> 64 word \<Rightarrow> 64 word \<Rightarrow> (TypedQueueRuntime, bool) sr" where
  "claim_waits cancellable execution generation =
     (case waiting_select_arms cancellable of
        Inr (operation, arms) \<Rightarrow>
          sbind (cancel_arms execution operation generation arms) (\<lambda>claimed.
          if claimed = 0 then sret False
          else if claimed \<noteq> length arms
          then serr (Fail ''cancellation found a partially installed select wait record'')
          else sret True)
      | Inl _ \<Rightarrow>
          sbind sget (\<lambda>rt.
          sbind (slift (waiting_operation_any rt execution)) (\<lambda>(operation, queue, _).
          on_queue queue (cancel_link (arm_wait execution operation generation None)))))"

definition runtime_request_cancellation :: "64 word \<Rightarrow> 64 word \<Rightarrow> (TypedQueueRuntime, bool) sr" where
  "runtime_request_cancellation execution generation =
     sbind sget (\<lambda>rt.
     sbind (slift (read_execution rt execution)) (\<lambda>cancellable.
     if \<not> has_cancellation_transition cancellable
     then serr (Fail ''execution shape has no cancellation transition'')
     else if \<not> (case ex_status cancellable of Waiting _ \<Rightarrow> True | _ \<Rightarrow> False)
     then on_execution Panic execution execution_request_cancellation
     else if list_ex (\<lambda>(_, wait). hw_execution wait = execution) (rt_host_waits rt)
     then runtime_request_host_cancellation execution generation
     else sbind (claim_waits cancellable execution generation) (\<lambda>claimed.
     if \<not> claimed then sret False
     else on_execution Panic execution execution_request_cancellation)))"

section \<open>The host wrapper\<close>

text \<open>\<open>TypedHostRuntime\<close> wraps the runtime and nothing else.\<close>

datatype HostSubmission = HostBlocked

record 'p HostDelivery =
  hd_execution :: "64 word"
  hd_operation :: OperationSiteId
  hd_payload :: 'p

record 'p HostCompletion =
  hc_turn :: KernelTurn
  hc_delivery :: "'p HostDelivery"

definition host_submit :: "64 word \<Rightarrow> 64 word \<Rightarrow> 64 word \<Rightarrow> (TypedQueueRuntime, HostSubmission) sr" where
  "host_submit execution generation host =
     sbind (runtime_submit_host execution generation host) (\<lambda>_. sret HostBlocked)"

definition host_complete :: "64 word \<Rightarrow> 64 word \<Rightarrow> 'p \<Rightarrow> (TypedQueueRuntime, 'p HostCompletion option) sr" where
  "host_complete host generation payload =
     sbind (runtime_complete_host host generation) (\<lambda>completed.
     (case completed of
        None \<Rightarrow> sret None
      | Some (execution, operation, t) \<Rightarrow>
          sret (Some \<lparr>hc_turn = t, hc_delivery =
            \<lparr>hd_execution = execution, hd_operation = operation, hd_payload = payload\<rparr>\<rparr>)))"

definition host_request_cancellation :: "64 word \<Rightarrow> 64 word \<Rightarrow> (TypedQueueRuntime, bool) sr" where
  "host_request_cancellation execution generation =
     sbind sget (\<lambda>rt.
     sbind (slift (ok_or (btm_get (rt_executions rt) execution) (Fail ''typed host runtime has no such execution''))) (\<lambda>current.
     if \<not> has_cancellation_transition current
     then serr (Fail ''execution shape has no cancellation transition'')
     else if \<not> (case ex_status current of Waiting _ \<Rightarrow> True | _ \<Rightarrow> False)
     then runtime_request_cancellation execution generation
     else runtime_request_host_cancellation execution generation))"

end
