(* ===== verification/Runtime_Safety.thy ===== *)
theory Runtime_Safety
  imports Queue_Runtime
begin

text \<open>
  The invariant of the queue runtime: its maps are ordered, every queue satisfies the queue invariant
  and every execution the kernel's, and no execution ever leaves. Every operation keeps it and none
  panics, so each \<open>expect\<close> and \<open>unreachable!\<close> of typed_queue.rs is justified.
\<close>

section \<open>Entries of a larger state\<close>

text \<open>
  A component kept inside a larger state: when the entry's invariant follows from the whole one and
  replacing an entry by a good one keeps the whole, code that respects the entry respects the whole.
\<close>

definition on_entry :: "('s \<Rightarrow> 'k \<Rightarrow> 'v option) \<Rightarrow> ('k \<Rightarrow> 'v \<Rightarrow> 's \<Rightarrow> 's) \<Rightarrow> fault \<Rightarrow> 'k \<Rightarrow> ('v, 'a) sr \<Rightarrow> ('s, 'a) sr" where
  "on_entry get put missing k m s =
     (case get s k of None \<Rightarrow> (Err missing, s) | Some v \<Rightarrow> (case m v of (r, v') \<Rightarrow> (r, put k v' s)))"

locale component_registry =
  fixes get :: "'s \<Rightarrow> 'k \<Rightarrow> 'v option" and put :: "'k \<Rightarrow> 'v \<Rightarrow> 's \<Rightarrow> 's"
    and whole :: "'s \<Rightarrow> bool" and entry :: "'k \<Rightarrow> 'v \<Rightarrow> bool"
  assumes entry_of_whole: "whole s \<Longrightarrow> get s k = Some v \<Longrightarrow> entry k v"
    and put_whole: "whole s \<Longrightarrow> get s k = Some v \<Longrightarrow> entry k v' \<Longrightarrow> whole (put k v' s)"
begin

lemma keeps_on_entry:
  assumes "keeps (entry k) m" "\<And>s. whole s \<Longrightarrow> missing \<noteq> Panic \<or> get s k \<noteq> None"
  shows "keeps whole (on_entry get put missing k m)"
proof (rule keepsI)
  fix s r s' assume s: "whole s" "on_entry get put missing k m s = (r, s')"
  show "whole s' \<and> no_panic r"
  proof (cases "get s k")
    case None
    with s assms(2)[OF s(1)] show ?thesis by (auto simp: on_entry_def no_panic_def)
  next
    case (Some v)
    obtain r2 v' where m: "m v = (r2, v')" by (cases "m v")
    with keepsD[OF assms(1) entry_of_whole[OF s(1) Some]] have "entry k v'" "no_panic r2" by auto
    with s Some m put_whole show ?thesis by (auto simp: on_entry_def)
  qed
qed

end

section \<open>The runtime invariant\<close>

definition queue_at :: "QueueShapeId \<Rightarrow> TypedQueue \<Rightarrow> bool" where
  "queue_at i q \<longleftrightarrow> queue_ok q \<and> qs_id (tq_shape q) = i"

text \<open>\<open>S\<close> names executions that are known to be installed.\<close>

definition runtime_with :: "64 word set \<Rightarrow> TypedQueueRuntime \<Rightarrow> bool" where
  "runtime_with S rt \<longleftrightarrow> btm_ok (rt_queues rt) \<and> btm_ok (rt_executions rt) \<and> btm_ok (rt_host_waits rt)
     \<and> (\<forall>i q. btm_get (rt_queues rt) i = Some q \<longrightarrow> queue_at i q)
     \<and> (\<forall>i ex. btm_get (rt_executions rt) i = Some ex \<longrightarrow> kernel_ok ex)
     \<and> S \<subseteq> dom (btm_get (rt_executions rt))"

abbreviation runtime_ok :: "TypedQueueRuntime \<Rightarrow> bool" where
  "runtime_ok \<equiv> runtime_with {}"

definition installed :: "TypedQueueRuntime \<Rightarrow> 64 word set" where
  "installed rt = dom (btm_get (rt_executions rt))"

interpretation queue_entry: component_registry "\<lambda>rt. btm_get (rt_queues rt)"
    "\<lambda>i q rt. rt\<lparr>rt_queues := btm_insert i q (rt_queues rt)\<rparr>" "runtime_with S" queue_at for S
  by unfold_locales (auto simp: runtime_with_def btm_ok_insert btm_get_insert)

interpretation execution_entry: component_registry "\<lambda>rt. btm_get (rt_executions rt)"
    "\<lambda>i ex rt. rt\<lparr>rt_executions := btm_insert i ex (rt_executions rt)\<rparr>" "runtime_with S" "\<lambda>_. kernel_ok" for S
  by unfold_locales (auto simp: runtime_with_def btm_ok_insert btm_get_insert)

lemma on_queue_entry: "on_queue i m = on_entry (\<lambda>rt. btm_get (rt_queues rt))
    (\<lambda>i q rt. rt\<lparr>rt_queues := btm_insert i q (rt_queues rt)\<rparr>) (Fail ''typed queue runtime has no such queue shape'') i m"
  by (rule ext) (simp add: on_queue_def on_entry_def)

lemma on_execution_entry: "on_execution missing i m = on_entry (\<lambda>rt. btm_get (rt_executions rt))
    (\<lambda>i ex rt. rt\<lparr>rt_executions := btm_insert i ex (rt_executions rt)\<rparr>) missing i m"
  by (rule ext) (simp add: on_execution_def on_entry_def)

named_theorems runtime_intros \<open>operations that keep the runtime invariant\<close>

lemma keeps_on_queue [runtime_intros]: "keeps (queue_at i) m \<Longrightarrow> keeps (runtime_with S) (on_queue i m)"
  unfolding on_queue_entry by (rule queue_entry.keeps_on_entry) simp_all

lemma keeps_on_execution:
  assumes "\<And>sh. keeps (kernel_of sh) m" "missing \<noteq> Panic \<or> i \<in> S"
  shows "keeps (runtime_with S) (on_execution missing i m)"
  unfolding on_execution_entry
proof (rule execution_entry.keeps_on_entry)
  show "keeps kernel_ok m"
  proof (rule keepsI)
    fix ex r ex' assume ex: "kernel_ok ex" "m ex = (r, ex')"
    have "kernel_of (ex_shape ex) ex" using ex(1) by (simp add: kernel_of_def)
    from keepsD[OF assms(1) this ex(2)] show "kernel_ok ex' \<and> no_panic r" by (simp add: kernel_of_def)
  qed
  show "missing \<noteq> Panic \<or> btm_get (rt_executions s) i \<noteq> None" if "runtime_with S s" for s
    using that assms(2) by (auto simp: runtime_with_def)
qed

text \<open>After looking at the state, the executions seen there may be taken as installed.\<close>

lemma keeps_sget_grow [runtime_intros]:
  assumes "\<And>rt. runtime_with S rt \<Longrightarrow> keeps (runtime_with (installed rt)) (f rt)"
  shows "keeps (runtime_with S) (sbind sget f)"
proof (rule keepsI)
  fix rt r rt' assume rt: "runtime_with S rt" "sbind sget f rt = (r, rt')"
  then have f: "f rt rt = (r, rt')" by simp
  have i: "runtime_with (installed rt) rt" "S \<subseteq> installed rt" using rt(1) by (simp_all add: runtime_with_def installed_def)
  from keepsD[OF assms[OF rt(1)] i(1) f] i(2) show "runtime_with S rt' \<and> no_panic r"
    by (auto simp: runtime_with_def)
qed

lemma read_execution_installed: "read_execution rt i = Ok ex \<Longrightarrow> i \<in> installed rt"
  by (auto simp: read_execution_def installed_def result_simps)

lemma queue_send_shape: "queue_send p q = (r, q') \<Longrightarrow> tq_shape q' = tq_shape q"
  by (auto simp: queue_send_def split: if_splits list.splits)

lemma queue_receive_shape: "queue_receive q = (r, q') \<Longrightarrow> tq_shape q' = tq_shape q"
  by (auto simp: queue_receive_def promote_one_sender_def split: if_splits list.splits prod.splits)

lemma queue_at_register_send [runtime_intros]: "keeps (queue_at i) (register_send w p)"
proof (rule keepsI)
  fix q r q' assume q: "queue_at i q" and r: "register_send w p q = (r, q')"
  have ok: "queue_ok q" using q by (simp add: queue_at_def)
  then have "tq_shape q' = tq_shape q"
  proof (cases rule: register_send_cases[where w = w and p = p])
    case (sent r2 q2)
    with r queue_send_shape[OF sent(1)] show ?thesis by simp
  qed (use r in simp_all)
  with register_send_ok[OF ok r] q show "queue_at i q' \<and> no_panic r" by (simp add: queue_at_def)
qed

lemma queue_at_register_receive [runtime_intros]: "keeps (queue_at i) (register_receive w)"
proof (rule keepsI)
  fix q r q' assume q: "queue_at i q" and r: "register_receive w q = (r, q')"
  have ok: "queue_ok q" using q by (simp add: queue_at_def)
  then have "tq_shape q' = tq_shape q"
  proof (cases rule: register_receive_cases[where w = w])
    case (received r2 q2)
    with r queue_receive_shape[OF received(1)] show ?thesis by simp
  qed (use r in simp_all)
  with register_receive_ok[OF ok r] q show "queue_at i q' \<and> no_panic r" by (simp add: queue_at_def)
qed

lemma queue_at_cancel [runtime_intros]: "keeps (queue_at i) (cancel_link w)"
proof (rule keepsI)
  fix q r q' assume q: "queue_at i q" and r: "cancel_link w q = (r, q')"
  obtain b where b: "queue_cancel w q = (b, q')" "r = Ok b" using r by (auto simp: cancel_link_def split: prod.splits)
  then have "tq_shape q' = tq_shape q" by (elim queue_cancel_cases) simp_all
  with queue_cancel_ok[OF _ b(1)] q b show "queue_at i q' \<and> no_panic r" by (simp add: queue_at_def)
qed

lemma queue_at_close [runtime_intros]: "keeps (queue_at i) close_link"
proof (rule keepsI)
  fix q r q' assume q: "queue_at i q" and r: "close_link q = (r, q')"
  obtain b where b: "queue_close q = (b, q')" "r = Ok b" using r by (auto simp: close_link_def split: prod.splits)
  then have "tq_shape q' = tq_shape q" by (auto simp: queue_close_def split: if_splits)
  with queue_close_ok[OF _ b(1)] q b show "queue_at i q' \<and> no_panic r" by (simp add: queue_at_def)
qed

section \<open>Lookups do not panic\<close>

lemma no_panic_rtraverse [no_panic_intros]: "(\<And>x. x \<in> set xs \<Longrightarrow> no_panic (f x)) \<Longrightarrow> no_panic (rtraverse f xs)"
  by (induction xs) (auto intro!: no_panic_rbind)

lemma no_panic_waits [no_panic_intros]:
  "no_panic (read_execution rt i)" "no_panic (waiting_operation ex)" "no_panic (waiting_queue_operation ex)"
  "no_panic (waiting_select_arms ex)"
proof -
  show a: "no_panic (read_execution rt i)" by (simp add: read_execution_def no_such_execution_def no_panic_intros)
  show b: "no_panic (waiting_operation ex)"
    by (auto simp: waiting_operation_def intro!: no_panic_intros split: KernelStatus.splits)
  show "no_panic (waiting_queue_operation ex)"
    by (auto simp: waiting_queue_operation_def intro!: no_panic_intros split: sum.splits)
  show "no_panic (waiting_select_arms ex)"
    by (auto simp: waiting_select_arms_def select_arm_row_def intro!: no_panic_intros split: KernelStatus.splits)
qed

lemma no_panic_waiting_any [no_panic_intros]: "no_panic (waiting_operation_any rt i)"
  unfolding waiting_operation_any_def by (intro no_panic_intros)

lemma no_panic_ensure [no_panic_intros]:
  "no_panic (runtime_waiting_operation rt i k)" "no_panic (ensure_wait rt w q k)" "no_panic (ensure_select_wait rt w q k)"
  unfolding runtime_waiting_operation_def ensure_wait_def ensure_select_wait_def
  by (intro no_panic_rbind no_panic_intros; auto intro!: no_panic_intros)+

section \<open>Every operation keeps the invariant\<close>

lemma waiting_any_installed: "waiting_operation_any rt i = Ok x \<Longrightarrow> i \<in> installed rt"
  by (auto simp: waiting_operation_any_def result_simps dest: read_execution_installed)

lemma ensure_select_installed: "ensure_select_wait rt w q k = Ok u \<Longrightarrow> qw_execution w \<in> installed rt"
  by (auto simp: ensure_select_wait_def result_simps dest: read_execution_installed)

lemma keeps_slift_bind_pair [runtime_intros]:
  "no_panic r \<Longrightarrow> (\<And>a b. r = Ok (a, b) \<Longrightarrow> keeps I (f a b)) \<Longrightarrow> keeps I (sbind (slift r) (\<lambda>(a, b). f a b))"
  by (rule keeps_slift_bind) auto

lemma keeps_slift_bind_triple [runtime_intros]:
  "no_panic r \<Longrightarrow> (\<And>a b c. r = Ok (a, b, c) \<Longrightarrow> keeps I (f a b c)) \<Longrightarrow> keeps I (sbind (slift r) (\<lambda>(a, b, c). f a b c))"
  by (rule keeps_slift_bind) auto

lemma not_panic [simp]: "no_such_execution \<noteq> Panic"
  by (simp add: no_such_execution_def)

lemma runtime_turns:
  "keeps (runtime_with S) (turn_execution i)" "keeps (runtime_with S) (execution_mut_turn_selected i n)"
  "keeps (runtime_with S) (wake_execution i op)" "keeps (runtime_with S) (runtime_commit i op)"
  "keeps (runtime_with S) (abort_select i op)"
  unfolding turn_execution_def execution_mut_turn_selected_def wake_execution_def runtime_commit_def abort_select_def
  by (rule keeps_on_execution, rule kernel_keeps, simp)+

lemma runtime_commit_wait: "keeps (runtime_with S) (commit_wait w q k)"
  unfolding commit_wait_def
proof (intro keeps_sget_grow)
  fix rt
  have "keeps (runtime_with (installed rt)) (on_execution Panic (qw_execution w) (commit_operation c))"
    if "ensure_select_wait rt w q k = Ok u" for u c
    using ensure_select_installed[OF that] by (intro keeps_on_execution kernel_keeps) simp
  then show "keeps (runtime_with (installed rt)) (case qw_arm w of
        Some arm \<Rightarrow> sbind (slift (ensure_select_wait rt w q k)) (\<lambda>_.
          on_execution Panic (qw_execution w) (commit_operation (CommitSelectArm (qw_operation w) arm)))
      | None \<Rightarrow> sbind (slift (ensure_wait rt w q k)) (\<lambda>_. runtime_commit (qw_execution w) (qw_operation w)))"
    by (cases "qw_arm w") (auto intro!: keeps_slift_bind no_panic_intros runtime_turns)
qed

lemma runtime_cancel_waits: "keeps (runtime_with S) (cancel_waits ws)"
  unfolding cancel_waits_def
  by (intro keeps_sfor) (auto intro!: keeps_sbind keeps_sret runtime_intros)

lemma runtime_cancel_losers: "keeps (runtime_with S) (cancel_select_losers w)"
  unfolding cancel_select_losers_def
  by (intro keeps_slift_bind keeps_sget_grow no_panic_intros runtime_intros keeps_if keeps_serr keeps_sfor)
    (auto intro!: keeps_sbind keeps_sret runtime_intros)

lemma runtime_cancel_arms: "keeps (runtime_with S) (cancel_arms e op g arms)"
proof (induction arms)
  case (Cons a arms)
  obtain arm k q where "a = (arm, k, q)" by (cases a)
  with Cons show ?case by (simp only: cancel_arms.simps) (intro keeps_sbind keeps_sret runtime_intros)
qed (simp only: cancel_arms.simps keeps_sret)

lemma runtime_hosts:
  "keeps (runtime_with S) (runtime_submit_host e g h)" "keeps (runtime_with S) (runtime_complete_host h g)"
  "keeps (runtime_with S) (runtime_request_host_cancellation e g)"
proof -
  have insert: "keeps (runtime_with S) (smodify (\<lambda>rt. rt\<lparr>rt_host_waits := btm_insert h w (rt_host_waits rt)\<rparr>))" for S w
    by (rule keeps_smodify) (auto simp: runtime_with_def btm_ok_insert)
  have remove: "keeps (runtime_with S) (smodify (\<lambda>rt. rt\<lparr>rt_host_waits := btm_remove h (rt_host_waits rt)\<rparr>))" for S h
    by (rule keeps_smodify) (auto simp: runtime_with_def btm_ok_remove)
  show "keeps (runtime_with S) (runtime_submit_host e g h)"
    unfolding runtime_submit_host_def
    by (intro keeps_sget_grow runtime_intros keeps_if keeps_serr no_panic_intros insert)
  show "keeps (runtime_with S) (runtime_complete_host h g)"
    unfolding runtime_complete_host_def
    by (intro keeps_sget_grow) (auto intro!: keeps_sbind keeps_sret keeps_if remove keeps_on_execution kernel_keeps split: option.splits)
  show "keeps (runtime_with S) (runtime_request_host_cancellation e g)"
    unfolding runtime_request_host_cancellation_def
    by (intro keeps_sget_grow) (auto intro!: keeps_sbind keeps_sret remove keeps_on_execution kernel_keeps split: option.splits)
qed

lemma runtime_submit: "keeps (runtime_with S) (runtime_submit_send e g p)" "keeps (runtime_with S) (runtime_submit_receive e g)"
  unfolding runtime_submit_send_def runtime_submit_receive_def Let_def
  by (intro keeps_sget_grow runtime_intros no_panic_intros;
      auto intro!: keeps_sbind keeps_sret keeps_sget_grow keeps_slift_bind no_panic_intros runtime_intros runtime_turns
        runtime_commit_wait split: QueueSend.splits QueueReceive.splits option.splits)+

lemma wake_parts_completion: "wake_parts cw = (w, k, c) \<Longrightarrow> no_panic (close_direction c)"
  by (cases cw) (auto simp: close_direction_def)

definition all_closing :: "(select_key, nat \<times> QueueWait \<times> QueueCompletion) btmap \<Rightarrow> bool" where
  "all_closing selects \<longleftrightarrow> list_all (\<lambda>e. no_panic (close_direction (snd (snd (snd e))))) selects"

lemma all_closing_insert: "all_closing m \<Longrightarrow> no_panic (close_direction c) \<Longrightarrow> all_closing (btm_insert k (n, w, c) m)"
  by (induction m) (simp_all add: all_closing_def)

lemma sort_wakes_closed:
  assumes "sort_wakes n wakes ordinary selects = (ordinary', selects')" "all_closing selects"
  shows "all_closing selects'"
  using assms
proof (induction wakes arbitrary: n ordinary selects)
  case (Cons cw wakes)
  obtain w k c where parts: "wake_parts cw = (w, k, c)" by (metis prod.exhaust)
  show ?case
  proof (cases "qw_arm w")
    case None
    with Cons parts show ?thesis by simp
  next
    case (Some arm)
    let ?key = "(qw_execution w, qw_operation w, qw_generation w)"
    define selects2 where "selects2 = (case btm_get selects ?key of
          Some (_, selected, _) \<Rightarrow>
            if (case qw_arm selected of None \<Rightarrow> False | Some selected_arm \<Rightarrow> selected_arm \<le> arm) then selects
            else btm_insert ?key (n, w, c) selects
        | None \<Rightarrow> btm_insert ?key (n, w, c) selects)"
    have "selects2 = selects \<or> selects2 = btm_insert ?key (n, w, c) selects"
      by (simp add: selects2_def split: option.splits)
    then have "all_closing selects2"
      using all_closing_insert[OF Cons.prems(2) wake_parts_completion[OF parts]] Cons.prems(2) by metis
    with Cons.IH[of "Suc n" ordinary selects2] Cons.prems(1) parts Some show ?thesis
      by (simp add: selects2_def Let_def)
  qed
qed simp

lemma wake_row_keeps: "keeps (runtime_with S) (wake_row q row)"
  unfolding wake_row_def
  by (cases row) (auto intro!: keeps_sbind keeps_sret keeps_if runtime_cancel_losers runtime_commit_wait)

lemma runtime_close: "keeps (runtime_with S) (runtime_close_queue q)"
  unfolding runtime_close_queue_def
proof (rule keeps_sbind)
  show "keeps (runtime_with S) (on_queue q close_link)" by (intro runtime_intros)
  fix wakes
  obtain ordinary selects where sorted: "sort_wakes 0 wakes [] [] = (ordinary, selects)"
    by (cases "sort_wakes 0 wakes [] []")
  have "no_panic (rtraverse select_row (map snd selects))"
  proof (rule no_panic_rtraverse)
    fix x assume "x \<in> set (map snd selects)"
    with sort_wakes_closed[OF sorted] show "no_panic (select_row x)"
      by (auto simp: all_closing_def list_all_iff select_row_def intro!: no_panic_intros)
  qed
  with wake_row_keeps show "keeps (runtime_with S) (case sort_wakes 0 wakes [] [] of (ordinary, selects) \<Rightarrow>
     sbind (slift (rtraverse select_row (map snd selects))) (\<lambda>rows.
     sbind (sfor_collect (wake_row q) (sort_key fst (ordinary @ rows))) (\<lambda>woken.
     sret (RuntimeCommitted (map fst woken) (map snd woken)))))"
    unfolding sorted prod.case by (intro keeps_slift_bind keeps_sbind keeps_sfor_collect keeps_sret)
qed

lemma runtime_cancel_keeps: "keeps (runtime_with S) (runtime_cancel e g)"
  unfolding runtime_cancel_def
proof (intro keeps_sget_grow keeps_slift_bind_triple no_panic_intros)
  fix rt op q k assume "waiting_operation_any rt e = Ok (op, q, k)"
  then have "e \<in> installed rt" by (rule waiting_any_installed)
  then show "keeps (runtime_with (installed rt)) (sbind (on_queue q (cancel_link (arm_wait e op g None))) (\<lambda>cancelled.
     if \<not> cancelled then sret False
     else sbind (on_execution Panic e (abort_operation op)) (\<lambda>_. sret True)))"
    by (intro keeps_sbind keeps_if keeps_sret keeps_on_execution kernel_keeps runtime_intros) simp
qed

lemma runtime_select_commit: "keeps (runtime_with S) (select_commit reg w arm q k c partner)"
  unfolding select_commit_def
  by (intro keeps_sbind runtime_cancel_waits runtime_commit_wait)
    (auto intro!: keeps_sbind keeps_sret runtime_commit_wait split: option.splits)

lemma runtime_select_admit: "keeps (runtime_with S) (select_admit ps w (arm, k, q))"
  unfolding select_admit_def
  by (cases k) (auto intro!: keeps_sbind keeps_sret keeps_serr keeps_slift_bind no_panic_intros runtime_intros)

lemma runtime_select_arms: "keeps (runtime_with S) (select_arms ps e op g reg arms)"
proof (induction arms arbitrary: reg)
  case (Cons a arms)
  obtain arm k q where a: "a = (arm, k, q)" by (cases a)
  show ?case unfolding a select_arms.simps Let_def
    by (intro keeps_sbind runtime_select_admit)
      (auto intro!: runtime_select_commit Cons split: SelectAdmission.splits QueueSend.splits QueueReceive.splits)
qed (simp only: select_arms.simps keeps_sret)

lemma no_panic_check_payloads [no_panic_intros]: "no_panic (check_send_payloads ps arms)"
  unfolding check_send_payloads_def by (intro no_panic_rfor) (auto split: option.splits)

lemma runtime_selects:
  "keeps (runtime_with S) (runtime_submit_select e g ps)" "keeps (runtime_with S) (runtime_cancel_select e g)"
  unfolding runtime_submit_select_def runtime_cancel_select_def
  by (intro keeps_sget_grow runtime_intros no_panic_intros keeps_if keeps_serr keeps_slift_bind runtime_select_arms
      keeps_sbind keeps_sret runtime_cancel_arms runtime_turns)+

lemma runtime_claim: "keeps (runtime_with S) (claim_waits ex e g)"
proof (cases "waiting_select_arms ex")
  case (Inl x)
  then show ?thesis unfolding claim_waits_def
    by simp (intro keeps_sget_grow runtime_intros no_panic_intros)
next
  case (Inr x)
  then show ?thesis unfolding claim_waits_def
    by (cases x) (simp, intro keeps_sbind runtime_cancel_arms keeps_if keeps_serr keeps_sret)
qed

lemma runtime_request: "keeps (runtime_with S) (runtime_request_cancellation e g)"
  unfolding runtime_request_cancellation_def
proof (intro keeps_sget_grow keeps_slift_bind no_panic_intros)
  fix rt ex assume "read_execution rt e = Ok ex"
  then have "e \<in> installed rt" by (rule read_execution_installed)
  then show "keeps (runtime_with (installed rt)) (
     if \<not> has_cancellation_transition ex then serr (Fail ''execution shape has no cancellation transition'')
     else if \<not> (case ex_status ex of Waiting _ \<Rightarrow> True | _ \<Rightarrow> False)
     then on_execution Panic e execution_request_cancellation
     else if list_ex (\<lambda>(_, wait). hw_execution wait = e) (rt_host_waits rt)
     then runtime_request_host_cancellation e g
     else sbind (claim_waits ex e g) (\<lambda>claimed.
     if \<not> claimed then sret False
     else on_execution Panic e execution_request_cancellation))"
    by (intro keeps_if keeps_serr keeps_on_execution kernel_keeps runtime_hosts keeps_sbind runtime_claim keeps_sret) simp_all
qed

lemma runtime_host_wrapper:
  "keeps (runtime_with S) (host_submit e g h)" "keeps (runtime_with S) (host_complete h g p)"
  "keeps (runtime_with S) (host_request_cancellation e g)"
  unfolding host_submit_def host_complete_def host_request_cancellation_def
  by (auto intro!: keeps_sbind keeps_sret keeps_sget_grow keeps_slift_bind no_panic_intros keeps_if keeps_serr
      runtime_request runtime_hosts split: option.splits)

section \<open>Properties\<close>

datatype runtime_call =
    InstallQueue QueueShape
  | InstallExecution "64 word" TypedExecutionShape
  | TurnExecution "64 word"
  | TurnSelectedExecution "64 word" nat
  | WakeExecution "64 word" OperationSiteId
  | HostSubmit "64 word" "64 word" "64 word"
  | HostComplete "64 word" "64 word"
  | HostCancel "64 word" "64 word"
  | SubmitSend "64 word" "64 word" QueuePayload
  | SubmitReceive "64 word" "64 word"
  | SubmitSelect "64 word" "64 word" "(32 word, QueuePayload) btmap"
  | CloseQueue QueueShapeId
  | CancelDirect "64 word" "64 word"
  | CancelSelect "64 word" "64 word"
  | RequestCancellation "64 word" "64 word"

fun runtime_perform :: "runtime_call \<Rightarrow> (TypedQueueRuntime, unit) sr" where
  "runtime_perform (InstallQueue shape) = runtime_install_queue (queue_new shape)"
| "runtime_perform (InstallExecution i shape) =
     sbind (slift (execution_new shape)) (\<lambda>ex. runtime_install_execution i ex)"
| "runtime_perform (TurnExecution i) = discard (turn_execution i)"
| "runtime_perform (TurnSelectedExecution i n) = discard (execution_mut_turn_selected i n)"
| "runtime_perform (WakeExecution i op) = wake_execution i op"
| "runtime_perform (HostSubmit e g h) = discard (host_submit e g h)"
| "runtime_perform (HostComplete h g) = discard (host_complete h g ())"
| "runtime_perform (HostCancel e g) = discard (host_request_cancellation e g)"
| "runtime_perform (SubmitSend e g p) = discard (runtime_submit_send e g p)"
| "runtime_perform (SubmitReceive e g) = discard (runtime_submit_receive e g)"
| "runtime_perform (SubmitSelect e g ps) = discard (runtime_submit_select e g ps)"
| "runtime_perform (CloseQueue q) = discard (runtime_close_queue q)"
| "runtime_perform (CancelDirect e g) = discard (runtime_cancel e g)"
| "runtime_perform (CancelSelect e g) = discard (runtime_cancel_select e g)"
| "runtime_perform (RequestCancellation e g) = discard (runtime_request_cancellation e g)"

lemma no_panic_execution_new [no_panic_intros]: "no_panic (execution_new sh)"
  unfolding execution_new_def by (intro no_panic_rbind no_panic_shape_validate no_panic_intros)

lemma runtime_installs:
  "queue_ok q \<Longrightarrow> keeps (runtime_with S) (runtime_install_queue q)"
  "kernel_ok ex \<Longrightarrow> keeps (runtime_with S) (runtime_install_execution i ex)"
  by (auto intro!: keepsI simp: runtime_install_queue_def runtime_install_execution_def Let_def runtime_with_def
      btm_ok_insert btm_get_insert queue_at_def split: if_splits)

lemma runtime_perform_keeps: "keeps (runtime_with S) (runtime_perform c)"
proof (cases c)
  case (InstallQueue shape)
  then show ?thesis by (simp add: runtime_installs queue_new_ok)
next
  case (InstallExecution i sh)
  have "kernel_ok ex" if "execution_new sh = Ok ex" for ex using execution_new_ok[OF that] by (simp add: kernel_of_def)
  with InstallExecution show ?thesis
    by simp (intro keeps_slift_bind runtime_installs no_panic_intros)
qed (simp_all add: keeps_discard runtime_turns runtime_host_wrapper runtime_submit runtime_selects runtime_close
    runtime_cancel_keeps runtime_request)

interpretation runtime: steadfast "runtime_with S" runtime_perform for S
  by unfold_locales (rule runtime_perform_keeps)

lemma runtime_default_ok: "runtime_with {} runtime_default"
  by (simp add: runtime_with_def runtime_default_def)

text \<open>
  C26: The queue runtime never panics: whatever queues and shapes are installed and whatever sequence
  of turns, wakes, host events, sends, receives, selects, closes and cancellations follows, with
  failed calls in between, no call reaches an \<open>expect\<close> or \<open>unreachable!\<close>, every queue keeps its
  invariant and every execution the kernel's.
\<close>

theorem runtime_never_panics:
  "list_all no_panic (fst (performs runtime_perform calls runtime_default))
     \<and> runtime_ok (snd (performs runtime_perform calls runtime_default))"
  by (rule runtime.performs_ok[OF runtime_default_ok])

text \<open>
  No call removes an execution: from any state reached by calls, the executions installed there
  are still installed after any further calls, so a wait or a scheduled identifier never dangles.
\<close>

theorem executions_persist:
  "installed (snd (performs runtime_perform before runtime_default)) \<subseteq>
   installed (snd (performs runtime_perform after (snd (performs runtime_perform before runtime_default))))"
proof -
  let ?rt = "snd (performs runtime_perform before runtime_default)"
  have "runtime_with {} ?rt" using runtime.performs_ok[OF runtime_default_ok] by blast
  then have "runtime_with (installed ?rt) ?rt" by (simp add: runtime_with_def installed_def)
  from runtime.performs_ok[OF this, of after] show ?thesis by (simp add: runtime_with_def installed_def)
qed

end
