(* ===== verification/Select_Waits.thy ===== *)
theory Select_Waits
  imports Runtime_Safety
begin

text \<open>
  Select registrations across several queues (crates/witchy-interp/src/typed_queue.rs): who withdraws
  the losing arms, and what a direct send or receive does when the other side of the match is a
  select arm.
\<close>

section \<open>Registrations\<close>




















section \<open>A direct operation against a select arm\<close>

definition waits_in_select :: "TypedExecution \<Rightarrow> bool" where
  "waits_in_select ex =
     (case ex_status ex of
        Waiting op \<Rightarrow> unat op < length (te_operations (ex_shape ex)) \<and> os_queue (te_operations (ex_shape ex) ! unat op) = None
      | _ \<Rightarrow> False)"

lemma select_has_no_queue: "waits_in_select ex \<Longrightarrow>
    waiting_queue_operation ex = Err (Fail ''waiting operation has no typed queue binding'')"
  by (auto simp: waits_in_select_def waiting_queue_operation_def waiting_operation_def split: KernelStatus.splits)

text \<open>
  C32: A direct send that meets a select receiver at the head of the queue fails after it has acted: the
  sender is committed and its wait is over, the receiver's registration is gone although it still
  waits, the payload is delivered to nobody, and the caller sees an error.
\<close>

theorem direct_send_drops_select_receiver:
  assumes "runtime_ok rt" "runtime_waiting_operation rt e ChannelSend = Ok (op, i)"
    and "btm_get (rt_queues rt) i = Some q" "tq_receive_waiters q = r # rest" "\<not> tq_closed q"
    and "reject_duplicate (arm_wait e op g None) q = Ok ()"
    and "btm_get (rt_executions rt) e = Some sex" "commit_operation (CommitReady op) sex = (Ok t, sex')"
    and "qw_execution (pr_wait r) \<noteq> e" "btm_get (rt_executions rt) (qw_execution (pr_wait r)) = Some rex" "waits_in_select rex"
  shows "runtime_submit_send e g p rt = (Err (Fail ''waiting operation has no typed queue binding''),
     rt\<lparr>rt_queues := btm_insert i (q\<lparr>tq_receive_waiters := rest\<rparr>) (rt_queues rt),
        rt_executions := btm_insert e sex' (rt_executions rt)\<rparr>)"
proof -
  have reg: "register_send (arm_wait e op g None) p q = (Ok (SendCommitted (Some (pr_wait r))), q\<lparr>tq_receive_waiters := rest\<rparr>)"
    using assms(4-6) by (simp add: register_send_def queue_send_def sbind_def)
  have "btm_get (btm_insert e sex' (rt_executions rt)) (qw_execution (pr_wait r)) = Some rex"
    using assms(1,9,10) by (simp add: runtime_with_def btm_get_insert)
  with assms reg select_has_no_queue[OF assms(11)] show ?thesis
    by (simp add: runtime_submit_send_def Let_def on_queue_def runtime_commit_def on_execution_def ensure_wait_def
        waiting_operation_any_def read_execution_def)
qed

text \<open>A receiver that selects over two queues, a direct sender and a selecting sender on the first queue.\<close>

definition choice_queue :: "QueueShapeId \<Rightarrow> QueueShape" where
  "choice_queue i = (sample_queue Rendezvous)\<lparr>qs_id := i\<rparr>"

definition choice_arm :: "32 word \<Rightarrow> ExecutionOperation \<Rightarrow> QueueShapeId \<Rightarrow> OperationArm" where
  "choice_arm n k i = \<lparr>oa_ordinal = n, oa_operation = k, oa_endpoint_lane = 0, oa_input_lanes = [], oa_result_lanes = [],
     oa_queue = Some i, oa_ownership = InlinePayload\<rparr>"

definition choice_shape :: "ExecutionOperation \<Rightarrow> QueueShapeId option \<Rightarrow> OperationArm list \<Rightarrow> ExecutionEdgeCondition list \<Rightarrow> TypedExecutionShape" where
  "choice_shape k q arms edges = \<lparr>te_id = 0, te_mode = NormalMode, te_entry = 0,
     te_frame = [\<lparr>fl_id = 0, fl_ty = Named ''Chan'' [], fl_ownership = CopyLane, fl_initially_initialized = True\<rparr>],
     te_result_lanes = [],
     te_states = [\<lparr>es_id = 0, es_transitions = [\<lparr>tr_condition = Always, tr_actions = [], tr_outcome = BlockedOn 0 1\<rparr>]\<rparr>,
       \<lparr>es_id = 1, es_transitions = map (\<lambda>c. \<lparr>tr_condition = c, tr_actions = [], tr_outcome = CompleteOutcome\<rparr>) edges\<rparr>],
     te_operations = [\<lparr>os_id = 0, os_kind = k, os_input_lanes = [], os_result_lanes = [], os_pending_move_lanes = [],
       os_fallback_state = None, os_queue = q, os_arms = arms\<rparr>],
     te_queues = [choice_queue 0, choice_queue 1], te_cancellation = None\<rparr>"

definition select_receiver :: TypedExecutionShape where
  "select_receiver = choice_shape Select None [choice_arm 0 ChannelReceive 0, choice_arm 1 ChannelReceive 1]
     [SelectArmEdge 0 0, SelectArmEdge 0 1]"

definition direct_sender :: TypedExecutionShape where
  "direct_sender = choice_shape ChannelSend (Some 0) [] [Always]"


definition choice_execution :: "TypedExecutionShape \<Rightarrow> KernelStatus \<Rightarrow> TypedExecution" where
  "choice_execution sh st = \<lparr>ex_shape = sh, ex_state = 1, ex_initialized = [True], ex_status = st, ex_cancellation = None\<rparr>"

definition choice_setup :: "TypedExecutionShape \<Rightarrow> runtime_call list" where
  "choice_setup sender = [InstallQueue (choice_queue 0), InstallQueue (choice_queue 1), InstallExecution 1 select_receiver,
     InstallExecution 2 sender, TurnExecution 1, SubmitSelect 1 0 [], TurnExecution 2]"

definition choice_runtime :: "TypedExecutionShape \<Rightarrow> TypedQueueRuntime" where
  "choice_runtime sender = snd (performs runtime_perform (choice_setup sender) runtime_default)"

definition parked_queue :: "QueueShapeId \<Rightarrow> 32 word \<Rightarrow> TypedQueue" where
  "parked_queue i arm = (queue_new (choice_queue i))\<lparr>tq_next_wait_sequence := 1,
     tq_receive_waiters := [\<lparr>pr_wait = arm_wait 1 0 0 (Some arm), pr_sequence = 0\<rparr>]\<rparr>"

lemma choice_runtime_ok: "runtime_ok (choice_runtime sender)"
  unfolding choice_runtime_def using runtime.performs_ok[OF runtime_default_ok] by blast

lemma choice_runtime_parts:
  "choice_runtime direct_sender = \<lparr>rt_queues = [(0, parked_queue 0 0), (1, parked_queue 1 1)],
     rt_executions = [(1, choice_execution select_receiver (Waiting 0)), (2, choice_execution direct_sender (Waiting 0))],
     rt_host_waits = []\<rparr>"
  by code_simp

theorem direct_send_drops_select_receiver_witness:
  "runtime_submit_send 2 0 7 (choice_runtime direct_sender) =
     (Err (Fail ''waiting operation has no typed queue binding''),
      (choice_runtime direct_sender)\<lparr>rt_queues := [(0, (parked_queue 0 0)\<lparr>tq_receive_waiters := []\<rparr>), (1, parked_queue 1 1)],
        rt_executions := [(1, choice_execution select_receiver (Waiting 0)), (2, choice_execution direct_sender CompleteStatus)]\<rparr>)"
proof -
  let ?rt = "choice_runtime direct_sender" and ?q = "parked_queue 0 0"
  have 1: "runtime_waiting_operation ?rt 2 ChannelSend = Ok (0, 0)" by code_simp
  have 2: "btm_get (rt_queues ?rt) 0 = Some ?q" "tq_receive_waiters ?q = hd (tq_receive_waiters ?q) # []" "\<not> tq_closed ?q"
    by (simp_all add: choice_runtime_parts parked_queue_def queue_new_def)
  have 3: "reject_duplicate (arm_wait 2 0 0 None) ?q = Ok ()" by code_simp
  have 4: "btm_get (rt_executions ?rt) 2 = Some (choice_execution direct_sender (Waiting 0))" by (simp add: choice_runtime_parts)
  have 5: "commit_operation (CommitReady 0) (choice_execution direct_sender (Waiting 0)) =
      (Ok CompleteTurn, choice_execution direct_sender CompleteStatus)" by code_simp
  have 6: "qw_execution (pr_wait (hd (tq_receive_waiters ?q))) \<noteq> 2" by code_simp
  have 7: "btm_get (rt_executions ?rt) (qw_execution (pr_wait (hd (tq_receive_waiters ?q)))) =
      Some (choice_execution select_receiver (Waiting 0))"
    by (simp add: choice_runtime_parts parked_queue_def arm_wait_def)
  have 8: "waits_in_select (choice_execution select_receiver (Waiting 0))" by code_simp
  from direct_send_drops_select_receiver[OF choice_runtime_ok 1 2 3 4 5 6 7 8, of 7] show ?thesis
    by (simp add: choice_runtime_parts)
qed



end
