(* ===== verification/Async_Program.thy ===== *)
theory Async_Program
  imports Must_Lanes Wire_Format
begin

text \<open>
  The canonical async program (crates/witchy-types/src/async_program.rs): the schema that backends
  bind, its structural validation, its canonical bytes and fingerprint, and the conversions from and
  to typed execution shapes. The newtypes over \<open>u32\<close> are 32-bit words; \<open>[u8; 32]\<close> is a list of bytes
  whose length the predicate \<open>arrays_ok\<close> fixes. \<open>blake3::hash\<close> is a parameter.
\<close>

section \<open>The schema\<close>

definition ASYNC_PROGRAM_SCHEMA_VERSION :: "32 word" where
  "ASYNC_PROGRAM_SCHEMA_VERSION = 2"

type_synonym AsyncProgramStateId = "32 word"
type_synonym AsyncProgramOperationId = "32 word"
type_synonym FinalCallableIndex = "32 word"

record AsyncStateEdge =
  ae_condition :: ExecutionEdgeCondition
  ae_actions :: "LaneAction list"
  ae_outcome :: ExecutionOutcome

record FinalStateBinding =
  fb_state :: AsyncProgramStateId
  fb_callable :: FinalCallableIndex
  fb_capture_to_lane :: "32 word list"
  fb_edges :: "AsyncStateEdge list"

record AsyncOperationArm =
  aa_ordinal :: "32 word"
  aa_operation :: ExecutionOperation
  aa_endpoint_lane :: "32 word"
  aa_input_lanes :: "32 word list"
  aa_result_lanes :: "32 word list"
  aa_queue :: "QueueShapeId option"
  aa_ownership :: PayloadOwnership

record AsyncOperationBinding =
  ao_id :: AsyncProgramOperationId
  ao_kind :: ExecutionOperation
  ao_input_lanes :: "32 word list"
  ao_result_lanes :: "32 word list"
  ao_pending_move_lanes :: "32 word list"
  ao_fallback_state :: "AsyncProgramStateId option"
  ao_queue :: "QueueShapeId option"
  ao_arms :: "AsyncOperationArm list"

record AsyncCancellationTransition =
  ac_operation :: AsyncProgramOperationId
  ac_state :: AsyncProgramStateId

record AsyncBackendStateBinding =
  bs_state :: AsyncProgramStateId
  bs_callable :: FinalCallableIndex
  bs_capture_to_lane :: "32 word list"

record AsyncBackendBinding =
  bb_shape :: ExecutionShapeId
  bb_mode :: SourceExecutionMode
  bb_closure_layout_fingerprint :: bytes
  bb_states :: "AsyncBackendStateBinding list"

datatype DynamicAsyncBoundary =
  DynamicAsyncCall | DynamicSelectEndpoint | OpaqueHostOperation | UnsupportedTypedOperation

record FinalTypedAsyncStateBinding =
  fs_state :: ExecutionStateId
  fs_callable :: FinalCallableIndex
  fs_capture_to_lane :: "FrameLaneId list"

record FinalTypedAsyncExecution =
  fe_execution :: TypedExecutionShape
  fe_closure_layout_fingerprint :: bytes
  fe_state_bindings :: "FinalTypedAsyncStateBinding list"
  fe_dynamic_boundaries :: "DynamicAsyncBoundary list"

record AsyncExecutionShape =
  as_id :: ExecutionShapeId
  as_mode :: SourceExecutionMode
  as_closure_layout_fingerprint :: bytes
  as_frame :: "FrameLane list"
  as_entry :: AsyncProgramStateId
  as_result_lanes :: "32 word list"
  as_states :: "FinalStateBinding list"
  as_operations :: "AsyncOperationBinding list"
  as_queues :: "QueueShape list"
  as_cancellation :: "AsyncCancellationTransition option"
  as_dynamic_boundaries :: "DynamicAsyncBoundary list"

record AsyncProgram =
  ap_schema_version :: "32 word"
  ap_semantic_fingerprint :: bytes
  ap_execution_shapes :: "AsyncExecutionShape list"

section \<open>Binding a backend\<close>

definition validate_backend_state :: "nat \<times> FinalStateBinding \<times> AsyncBackendStateBinding \<Rightarrow> unit outcome" where
  "validate_backend_state = (\<lambda>(expected, semantic, backend).
     if bs_state backend \<noteq> word_of_nat expected \<or> bs_state backend \<noteq> fb_state semantic
        \<or> bs_callable backend \<noteq> fb_callable semantic \<or> bs_capture_to_lane backend \<noteq> fb_capture_to_lane semantic
     then Err (Fail ''async backend state binding drifted from canonical layout'') else Ok ())"

definition validate_backend_binding :: "AsyncExecutionShape \<Rightarrow> AsyncBackendBinding \<Rightarrow> unit outcome" where
  "validate_backend_binding shape binding =
     (if bb_shape binding \<noteq> as_id shape then Err (Fail ''async backend binding names a different execution shape'')
      else if bb_mode binding \<noteq> as_mode shape then Err (Fail ''async backend execution mode drifted from checked source'')
      else if bb_closure_layout_fingerprint binding \<noteq> as_closure_layout_fingerprint shape
      then Err (Fail ''async backend closure layout fingerprint drifted'')
      else if length (bb_states binding) \<noteq> length (as_states shape)
      then Err (Fail ''async backend state binding count drifted'')
      else rfor validate_backend_state (enumerate 0 (zip (as_states shape) (bb_states binding))))"

definition typed_state :: "FinalStateBinding \<Rightarrow> ExecutionState" where
  "typed_state state = \<lparr>es_id = fb_state state, es_transitions = map (\<lambda>edge.
     \<lparr>tr_condition = ae_condition edge, tr_actions = ae_actions edge, tr_outcome = ae_outcome edge\<rparr>) (fb_edges state)\<rparr>"

definition typed_arm :: "AsyncOperationArm \<Rightarrow> OperationArm" where
  "typed_arm arm = \<lparr>oa_ordinal = aa_ordinal arm, oa_operation = aa_operation arm, oa_endpoint_lane = aa_endpoint_lane arm,
     oa_input_lanes = aa_input_lanes arm, oa_result_lanes = aa_result_lanes arm, oa_queue = aa_queue arm,
     oa_ownership = aa_ownership arm\<rparr>"

definition typed_operation :: "AsyncOperationBinding \<Rightarrow> OperationSite" where
  "typed_operation operation = \<lparr>os_id = ao_id operation, os_kind = ao_kind operation,
     os_input_lanes = ao_input_lanes operation, os_result_lanes = ao_result_lanes operation,
     os_pending_move_lanes = ao_pending_move_lanes operation, os_fallback_state = ao_fallback_state operation,
     os_queue = ao_queue operation, os_arms = map typed_arm (ao_arms operation)\<rparr>"

definition typed_shape :: "AsyncExecutionShape \<Rightarrow> TypedExecutionShape" where
  "typed_shape shape = \<lparr>te_id = as_id shape, te_mode = as_mode shape, te_entry = as_entry shape, te_frame = as_frame shape,
     te_result_lanes = as_result_lanes shape, te_states = map typed_state (as_states shape),
     te_operations = map typed_operation (as_operations shape), te_queues = as_queues shape,
     te_cancellation = map_option (\<lambda>c. \<lparr>ct_operation = ac_operation c, ct_state = ac_state c\<rparr>) (as_cancellation shape)\<rparr>"

definition into_typed_execution :: "AsyncExecutionShape \<Rightarrow> AsyncBackendBinding \<Rightarrow> TypedExecutionShape outcome" where
  "into_typed_execution shape binding =
     rbind (validate_backend_binding shape binding) (\<lambda>_.
     rbind (shape_validate (typed_shape shape)) (\<lambda>_. Ok (typed_shape shape)))"

section \<open>Structure\<close>

definition validate_edge_condition :: "ExecutionEdgeCondition \<Rightarrow> nat \<Rightarrow> nat \<Rightarrow> unit outcome" where
  "validate_edge_condition condition lane_count operation_count =
     (case condition of
        Always \<Rightarrow> Ok ()
      | BooleanEdge lane _ \<Rightarrow>
          if unat lane < lane_count then Ok () else Err (Fail ''async edge condition references absent frame lane'')
      | VariantEdge lane _ \<Rightarrow>
          if unat lane < lane_count then Ok () else Err (Fail ''async edge condition references absent frame lane'')
      | SelectArmEdge operation _ \<Rightarrow>
          if unat operation < operation_count then Ok ()
          else Err (Fail ''async edge condition references absent operation''))"

definition validate_async_state :: "AsyncExecutionShape \<Rightarrow> nat \<times> FinalStateBinding \<Rightarrow> unit outcome" where
  "validate_async_state shape = (\<lambda>(expected_state, binding).
     if fb_state binding \<noteq> word_of_nat expected_state then Err (Fail ''async state IDs must be dense'')
     else rbind (rfor (\<lambda>lane. if unat lane \<ge> length (as_frame shape)
              then Err (Fail ''async capture binding references absent frame lane'') else Ok ()) (fb_capture_to_lane binding)) (\<lambda>_.
     if fb_edges binding = [] then Err (Fail ''async state has no canonical edge'')
     else rfor (\<lambda>edge. validate_edge_condition (ae_condition edge) (length (as_frame shape)) (length (as_operations shape)))
            (fb_edges binding)))"

definition validate_async_arm :: "AsyncExecutionShape \<Rightarrow> nat \<times> AsyncOperationArm \<Rightarrow> unit outcome" where
  "validate_async_arm shape = (\<lambda>(ordinal, arm).
     if aa_ordinal arm \<noteq> word_of_nat ordinal then Err (Fail ''async operation arms must preserve dense source order'')
     else if unat (aa_endpoint_lane arm) \<ge> length (as_frame shape)
        \<or> list_ex (\<lambda>lane. unat lane \<ge> length (as_frame shape)) (aa_input_lanes arm @ aa_result_lanes arm)
     then Err (Fail ''async operation arm references absent frame lane'')
     else if (case aa_queue arm of None \<Rightarrow> False | Some queue \<Rightarrow> unat queue \<ge> length (as_queues shape))
     then Err (Fail ''async operation arm references absent queue shape'') else Ok ())"

definition validate_async_operation :: "AsyncExecutionShape \<Rightarrow> nat \<times> AsyncOperationBinding \<Rightarrow> unit outcome" where
  "validate_async_operation shape = (\<lambda>(expected_operation, operation).
     if ao_id operation \<noteq> word_of_nat expected_operation then Err (Fail ''async operation IDs must be dense'')
     else if list_ex (\<lambda>lane. unat lane \<ge> length (as_frame shape))
        (ao_input_lanes operation @ ao_result_lanes operation @ ao_pending_move_lanes operation)
     then Err (Fail ''async operation references absent frame lane'')
     else if (case ao_fallback_state operation of None \<Rightarrow> False | Some state \<Rightarrow> unat state \<ge> length (as_states shape))
     then Err (Fail ''async operation fallback references absent state'')
     else if (case ao_queue operation of None \<Rightarrow> False | Some queue \<Rightarrow> unat queue \<ge> length (as_queues shape))
     then Err (Fail ''async operation references absent queue shape'')
     else rfor (validate_async_arm shape) (enumerate 0 (ao_arms operation)))"

definition validate_async_cancellation :: "AsyncExecutionShape \<Rightarrow> unit outcome" where
  "validate_async_cancellation shape =
     (case as_cancellation shape of
        None \<Rightarrow> Ok ()
      | Some cancellation \<Rightarrow>
          if unat (ac_operation cancellation) \<ge> length (as_operations shape)
             \<or> unat (ac_state cancellation) \<ge> length (as_states shape)
          then Err (Fail ''async cancellation references an absent operation or state'')
          else rbind (index (as_operations shape) (unat (ac_operation cancellation))) (\<lambda>operation.
          if ao_kind operation \<noteq> CancellationOperation
          then Err (Fail ''async cancellation must name a cancellation operation'') else Ok ()))"

definition layout_binding :: "AsyncExecutionShape \<Rightarrow> AsyncBackendBinding" where
  "layout_binding shape = \<lparr>bb_shape = as_id shape, bb_mode = as_mode shape,
     bb_closure_layout_fingerprint = as_closure_layout_fingerprint shape,
     bb_states = map (\<lambda>state. \<lparr>bs_state = fb_state state, bs_callable = fb_callable state,
       bs_capture_to_lane = fb_capture_to_lane state\<rparr>) (as_states shape)\<rparr>"

definition validate_async_shape :: "nat \<times> AsyncExecutionShape \<Rightarrow> unit outcome" where
  "validate_async_shape = (\<lambda>(expected, shape).
     if as_id shape \<noteq> word_of_nat expected then Err (Fail ''async execution shape IDs must be dense'')
     else rbind (rfor (\<lambda>(lane, field). if fl_id field \<noteq> word_of_nat lane
              then Err (Fail ''async frame lane IDs must be dense'') else Ok ()) (enumerate 0 (as_frame shape))) (\<lambda>_.
     if unat (as_entry shape) \<ge> length (as_states shape) then Err (Fail ''async execution entry references absent state'')
     else if list_ex (\<lambda>lane. unat lane \<ge> length (as_frame shape)) (as_result_lanes shape)
     then Err (Fail ''async result binding references absent frame lane'')
     else rbind (rfor (validate_async_state shape) (enumerate 0 (as_states shape))) (\<lambda>_.
     rbind (rfor (\<lambda>(expected_queue, queue). if qs_id queue \<noteq> word_of_nat expected_queue
              then Err (Fail ''async queue IDs must be dense'') else Ok ()) (enumerate 0 (as_queues shape))) (\<lambda>_.
     rbind (rfor (validate_async_operation shape) (enumerate 0 (as_operations shape))) (\<lambda>_.
     rbind (validate_async_cancellation shape) (\<lambda>_.
     rbind (into_typed_execution shape (layout_binding shape)) (\<lambda>_. Ok ())))))))"

definition validate_structure :: "AsyncProgram \<Rightarrow> unit outcome" where
  "validate_structure program =
     (if ap_schema_version program \<noteq> ASYNC_PROGRAM_SCHEMA_VERSION
      then Err (Fail ''unsupported async-program schema version'')
      else rfor validate_async_shape (enumerate 0 (ap_execution_shapes program)))"

section \<open>Canonical bytes\<close>

text \<open>Bytes appended one piece after the other.\<close>

fun cat :: "bytes outcome list \<Rightarrow> bytes outcome" where
  "cat [] = Ok []"
| "cat (e # es) = rbind e (\<lambda>a. rbind (cat es) (\<lambda>b. Ok (a @ b)))"

definition push_len :: "nat \<Rightarrow> bytes outcome" where
  "push_len n = (if n < 2 ^ 32 then Ok (put_u32 (word_of_nat n))
     else Err (Fail ''async-program canonical length exceeds u32''))"

text \<open>\<open>push_len\<close> and then a loop over the elements.\<close>

definition push_list :: "('a \<Rightarrow> bytes outcome) \<Rightarrow> 'a list \<Rightarrow> bytes outcome" where
  "push_list f xs = cat [push_len (length xs), cat (map f xs)]"

definition push_u32s :: "32 word list \<Rightarrow> bytes outcome" where
  "push_u32s = push_list (\<lambda>v. Ok (put_u32 v))"

definition encode_optional_u32 :: "32 word option \<Rightarrow> bytes" where
  "encode_optional_u32 value = (case value of Some v \<Rightarrow> 1 # put_u32 v | None \<Rightarrow> [0])"

fun lane_ownership_tag :: "LaneOwnership \<Rightarrow> byte" where
  "lane_ownership_tag CopyLane = 0"
| "lane_ownership_tag MoveLane = 1"
| "lane_ownership_tag MustConsume = 2"

fun payload_ownership_tag :: "PayloadOwnership \<Rightarrow> byte" where
  "payload_ownership_tag InlinePayload = 0"
| "payload_ownership_tag BufferRoot = 1"
| "payload_ownership_tag Boxed = 2"

fun operation_tag :: "ExecutionOperation \<Rightarrow> byte" where
  "operation_tag ChannelSend = 0"
| "operation_tag ChannelReceive = 1"
| "operation_tag Select = 2"
| "operation_tag Spawn = 3"
| "operation_tag Join = 4"
| "operation_tag HostOperation = 5"
| "operation_tag Yield = 6"
| "operation_tag CancellationOperation = 7"

definition bool_tag :: "bool \<Rightarrow> byte" where
  "bool_tag b = (if b then 1 else 0)"

fun mode_tag :: "SourceExecutionMode \<Rightarrow> byte" where
  "mode_tag NormalMode = 0"
| "mode_tag OptMode = 1"

fun boundary_tag :: "DynamicAsyncBoundary \<Rightarrow> byte" where
  "boundary_tag DynamicAsyncCall = 0"
| "boundary_tag DynamicSelectEndpoint = 1"
| "boundary_tag OpaqueHostOperation = 2"
| "boundary_tag UnsupportedTypedOperation = 3"

fun encode_condition :: "ExecutionEdgeCondition \<Rightarrow> bytes" where
  "encode_condition Always = [0]"
| "encode_condition (BooleanEdge lane when) = 1 # put_u32 lane @ [bool_tag when]"
| "encode_condition (VariantEdge lane tag) = 2 # put_u32 lane @ put_u32 tag"
| "encode_condition (SelectArmEdge operation arm) = 3 # put_u32 operation @ put_u32 arm"

fun encode_action :: "LaneAction \<Rightarrow> bytes" where
  "encode_action (CopyLanes a b) = 0 # put_u32 a @ put_u32 b"
| "encode_action (MoveLanes a b) = 1 # put_u32 a @ put_u32 b"
| "encode_action (WriteLane b) = 2 # put_u32 b"
| "encode_action (ClearLane l) = 3 # put_u32 l"
| "encode_action (DischargeLane l) = 4 # put_u32 l"

definition encode_actions :: "LaneAction list \<Rightarrow> bytes outcome" where
  "encode_actions = push_list (\<lambda>action. Ok (encode_action action))"

fun encode_outcome :: "ExecutionOutcome \<Rightarrow> bytes" where
  "encode_outcome (ContinueTo state) = 0 # put_u32 state"
| "encode_outcome (ReadyAt state) = 1 # put_u32 state"
| "encode_outcome (BlockedOn operation retry) = 2 # put_u32 operation @ put_u32 retry"
| "encode_outcome CompleteOutcome = [3]"
| "encode_outcome PropagateErrorOutcome = [4]"
| "encode_outcome TrapOutcome = [5]"

fun encode_capacity :: "QueueCapacity \<Rightarrow> bytes" where
  "encode_capacity Rendezvous = [0]"
| "encode_capacity (Fixed capacity) = 1 # put_u32 capacity"
| "encode_capacity Dynamic = [2]"

definition encode_lane :: "FrameLane \<Rightarrow> bytes outcome" where
  "encode_lane lane = cat [Ok (put_u32 (fl_id lane)), Ok [lane_ownership_tag (fl_ownership lane)],
     Ok [bool_tag (fl_initially_initialized lane)]]"

definition encode_edge :: "AsyncStateEdge \<Rightarrow> bytes outcome" where
  "encode_edge edge = cat [Ok (encode_condition (ae_condition edge)), encode_actions (ae_actions edge),
     Ok (encode_outcome (ae_outcome edge))]"

definition encode_state :: "FinalStateBinding \<Rightarrow> bytes outcome" where
  "encode_state state = cat [Ok (put_u32 (fb_state state)), Ok (put_u32 (fb_callable state)),
     push_u32s (fb_capture_to_lane state), push_list encode_edge (fb_edges state)]"

definition encode_queue :: "QueueShape \<Rightarrow> bytes outcome" where
  "encode_queue queue = cat [Ok (put_u32 (qs_id queue)), Ok (encode_capacity (qs_capacity queue)),
     Ok (qs_payload_layout_fingerprint queue), Ok [payload_ownership_tag (qs_ownership queue)]]"

definition encode_arm :: "AsyncOperationArm \<Rightarrow> bytes outcome" where
  "encode_arm arm = cat [Ok (put_u32 (aa_ordinal arm)), Ok [operation_tag (aa_operation arm)],
     Ok (put_u32 (aa_endpoint_lane arm)), push_u32s (aa_input_lanes arm), push_u32s (aa_result_lanes arm),
     Ok (encode_optional_u32 (aa_queue arm)), Ok [payload_ownership_tag (aa_ownership arm)]]"

definition encode_operation :: "AsyncOperationBinding \<Rightarrow> bytes outcome" where
  "encode_operation operation = cat [Ok (put_u32 (ao_id operation)), Ok [operation_tag (ao_kind operation)],
     push_u32s (ao_input_lanes operation), push_u32s (ao_result_lanes operation),
     push_u32s (ao_pending_move_lanes operation), Ok (encode_optional_u32 (ao_fallback_state operation)),
     Ok (encode_optional_u32 (ao_queue operation)), push_list encode_arm (ao_arms operation)]"

definition encode_cancellation :: "AsyncCancellationTransition option \<Rightarrow> bytes" where
  "encode_cancellation cancellation =
     (case cancellation of Some c \<Rightarrow> 1 # put_u32 (ac_operation c) @ put_u32 (ac_state c) | None \<Rightarrow> [0])"

definition encode_shape :: "AsyncExecutionShape \<Rightarrow> bytes outcome" where
  "encode_shape shape = cat [Ok (put_u32 (as_id shape)), Ok [mode_tag (as_mode shape)],
     Ok (as_closure_layout_fingerprint shape), push_list encode_lane (as_frame shape), Ok (put_u32 (as_entry shape)),
     push_u32s (as_result_lanes shape), push_list encode_state (as_states shape), push_list encode_queue (as_queues shape),
     push_list encode_operation (as_operations shape), Ok (encode_cancellation (as_cancellation shape)),
     push_list (\<lambda>boundary. Ok [boundary_tag boundary]) (as_dynamic_boundaries shape)]"

definition canonical_bytes :: "AsyncProgram \<Rightarrow> bytes outcome" where
  "canonical_bytes program =
     rbind (validate_structure program) (\<lambda>_.
     cat [Ok (put_u32 (ap_schema_version program)), push_list encode_shape (ap_execution_shapes program)])"

definition computed_fingerprint :: "(bytes \<Rightarrow> bytes) \<Rightarrow> AsyncProgram \<Rightarrow> bytes outcome" where
  "computed_fingerprint blake3 program = rbind (canonical_bytes program) (\<lambda>bs. Ok (blake3 bs))"

definition program_new :: "(bytes \<Rightarrow> bytes) \<Rightarrow> AsyncExecutionShape list \<Rightarrow> AsyncProgram outcome" where
  "program_new blake3 shapes =
     (let program = \<lparr>ap_schema_version = ASYNC_PROGRAM_SCHEMA_VERSION, ap_semantic_fingerprint = replicate 32 0,
            ap_execution_shapes = shapes\<rparr> in
      rbind (validate_structure program) (\<lambda>_.
      rbind (computed_fingerprint blake3 program) (\<lambda>digest. Ok (program\<lparr>ap_semantic_fingerprint := digest\<rparr>))))"

definition program_validate :: "(bytes \<Rightarrow> bytes) \<Rightarrow> AsyncProgram \<Rightarrow> unit outcome" where
  "program_validate blake3 program =
     rbind (validate_structure program) (\<lambda>_.
     rbind (computed_fingerprint blake3 program) (\<lambda>digest.
     if ap_semantic_fingerprint program \<noteq> digest
     then Err (Fail ''async-program semantic fingerprint does not match canonical bytes'') else Ok ()))"

section \<open>From typed executions\<close>

definition check_final_binding :: "TypedExecutionShape \<Rightarrow> nat \<times> FinalTypedAsyncStateBinding \<Rightarrow> unit outcome" where
  "check_final_binding execution = (\<lambda>(position, binding).
     if fs_state binding \<noteq> word_of_nat position then Err (Fail ''final async state binding IDs must be dense'')
     else if list_ex (\<lambda>lane. unat lane \<ge> length (te_frame execution)) (fs_capture_to_lane binding)
     then Err (Fail ''final async capture binding references absent frame lane'') else Ok ())"

definition async_state :: "ExecutionState \<Rightarrow> FinalTypedAsyncStateBinding \<Rightarrow> FinalStateBinding" where
  "async_state state binding = \<lparr>fb_state = es_id state, fb_callable = fs_callable binding,
     fb_capture_to_lane = fs_capture_to_lane binding,
     fb_edges = map (\<lambda>t. \<lparr>ae_condition = tr_condition t, ae_actions = tr_actions t, ae_outcome = tr_outcome t\<rparr>)
       (es_transitions state)\<rparr>"

definition async_arm :: "OperationArm \<Rightarrow> AsyncOperationArm" where
  "async_arm arm = \<lparr>aa_ordinal = oa_ordinal arm, aa_operation = oa_operation arm, aa_endpoint_lane = oa_endpoint_lane arm,
     aa_input_lanes = oa_input_lanes arm, aa_result_lanes = oa_result_lanes arm, aa_queue = oa_queue arm,
     aa_ownership = oa_ownership arm\<rparr>"

definition async_operation :: "OperationSite \<Rightarrow> AsyncOperationBinding" where
  "async_operation operation = \<lparr>ao_id = os_id operation, ao_kind = os_kind operation,
     ao_input_lanes = os_input_lanes operation, ao_result_lanes = os_result_lanes operation,
     ao_pending_move_lanes = os_pending_move_lanes operation, ao_fallback_state = os_fallback_state operation,
     ao_queue = os_queue operation, ao_arms = map async_arm (os_arms operation)\<rparr>"

definition into_async_shape :: "FinalTypedAsyncExecution \<Rightarrow> AsyncExecutionShape outcome" where
  "into_async_shape final =
     (let execution = fe_execution final in
      rbind (shape_validate execution) (\<lambda>_.
      if length (fe_state_bindings final) \<noteq> length (te_states execution)
      then Err (Fail ''final async state binding count drifted from typed execution'')
      else (let bindings = sort_key fs_state (fe_state_bindings final) in
      rbind (rfor (check_final_binding execution) (enumerate 0 bindings)) (\<lambda>_.
      Ok \<lparr>as_id = te_id execution, as_mode = te_mode execution,
          as_closure_layout_fingerprint = fe_closure_layout_fingerprint final, as_frame = te_frame execution,
          as_entry = te_entry execution, as_result_lanes = te_result_lanes execution,
          as_states = map (\<lambda>(state, binding). async_state state binding) (zip (te_states execution) bindings),
          as_operations = map async_operation (te_operations execution), as_queues = te_queues execution,
          as_cancellation = map_option (\<lambda>c. \<lparr>ac_operation = ct_operation c, ac_state = ct_state c\<rparr>) (te_cancellation execution),
          as_dynamic_boundaries = fe_dynamic_boundaries final\<rparr>))))"

definition from_final_typed_executions ::
    "(bytes \<Rightarrow> bytes) \<Rightarrow> FinalTypedAsyncExecution list \<Rightarrow> AsyncProgram outcome" where
  "from_final_typed_executions blake3 executions =
     rbind (rtraverse into_async_shape executions) (program_new blake3)"

end
