(* ===== verification/Async_Encoding.thy ===== *)
theory Async_Encoding
  imports Async_Program
begin

text \<open>
  What the canonical bytes and the conversions of async programs preserve. An encoder is described by
  what it \<open>observes\<close>: two values whose encodings start the same byte string agree on the observation,
  and the rest of the string is the same. Observations compose along the sequence of pushes, so the
  bytes of a whole program determine everything but the types of its frame lanes.
\<close>

section \<open>Observing encoders\<close>

definition observes :: "('a \<Rightarrow> bool) \<Rightarrow> ('a \<Rightarrow> 'o) \<Rightarrow> ('a \<Rightarrow> bytes outcome) \<Rightarrow> bool" where
  "observes P f e \<longleftrightarrow> (\<forall>x y a b r s. P x \<longrightarrow> P y \<longrightarrow> e x = Ok a \<longrightarrow> e y = Ok b \<longrightarrow> a @ r = b @ s \<longrightarrow> f x = f y \<and> r = s)"

named_theorems observe_intros \<open>what each piece of an encoding determines\<close>

lemma observesI:
  assumes "\<And>x y a b r s. P x \<Longrightarrow> P y \<Longrightarrow> e x = Ok a \<Longrightarrow> e y = Ok b \<Longrightarrow> a @ r = b @ s \<Longrightarrow> f x = f y \<and> r = s"
  shows "observes P f e"
  unfolding observes_def using assms by blast

lemma observesD: "observes P f e \<Longrightarrow> P x \<Longrightarrow> P y \<Longrightarrow> e x = Ok a \<Longrightarrow> e y = Ok b \<Longrightarrow> a @ r = b @ s \<Longrightarrow> f x = f y \<and> r = s"
  unfolding observes_def by blast

lemma observes_field: "observes P f e \<Longrightarrow> (\<And>x. Q x \<Longrightarrow> P (h x)) \<Longrightarrow> observes Q (\<lambda>x. f (h x)) (\<lambda>x. e (h x))"
  unfolding observes_def by blast

lemma observes_weaken: "observes P f e \<Longrightarrow> (\<And>x. Q x \<Longrightarrow> P x) \<Longrightarrow> (\<And>x y. f x = f y \<Longrightarrow> g x = g y) \<Longrightarrow> observes Q g e"
  unfolding observes_def by blast

lemma observes_Ok:
  assumes "\<And>x y r s. P x \<Longrightarrow> P y \<Longrightarrow> g x @ r = g y @ s \<Longrightarrow> f x = f y \<and> r = s"
  shows "observes P f (\<lambda>x. Ok (g x))"
  unfolding observes_def sum.inject(2) using assms by blast

lemma observes_image: "observes P f e \<Longrightarrow> (\<And>x y. f x = f y \<Longrightarrow> g x = g y) \<Longrightarrow> observes P g e"
  by (rule observes_weaken)

lemma observes_u32 [observe_intros]: "observes P f (\<lambda>x. Ok (put_u32 (f x)))"
  by (rule observes_Ok) (rule u32_codec.put_prefix_free[OF TrueI TrueI])

lemma observes_byte: "inj t \<Longrightarrow> observes P f (\<lambda>x. Ok [t (f x)])"
  by (rule observes_Ok) (simp add: inj_eq)

lemma observes_array: "(\<And>x. P x \<Longrightarrow> length (f x) = n) \<Longrightarrow> observes P f (\<lambda>x. Ok (f x))"
  by (rule observes_Ok) (metis append_eq_append_conv)

lemma observes_cat_Nil: "observes P (\<lambda>_. ()) (\<lambda>x. cat [])"
  by (rule observesI) auto

lemma observes_cat_Cons:
  assumes "observes P f e" "observes P g (\<lambda>x. cat (es x))"
  shows "observes P (\<lambda>x. (f x, g x)) (\<lambda>x. cat (e x # es x))"
proof (rule observesI)
  fix x y a b r s assume P: "P x" "P y" and enc: "cat (e x # es x) = Ok a" "cat (e y # es y) = Ok b" and eq: "a @ r = b @ s"
  from enc obtain a1 a2 b1 b2 where parts: "e x = Ok a1" "cat (es x) = Ok a2" "a = a1 @ a2"
      "e y = Ok b1" "cat (es y) = Ok b2" "b = b1 @ b2"
    by (auto simp: result_simps)
  then have "a1 @ (a2 @ r) = b1 @ (b2 @ s)" using eq by simp
  with observesD[OF assms(1) P parts(1,4)] have f: "f x = f y" and "a2 @ r = b2 @ s" by auto
  with observesD[OF assms(2) P parts(2,5)] show "(f x, g x) = (f y, g y) \<and> r = s" by simp
qed

lemma observes_len: "observes P (\<lambda>x. length (h x)) (\<lambda>x. push_len (length (h x)))"
proof (rule observesI)
  fix x y a b r s
  assume "push_len (length (h x)) = Ok a" "push_len (length (h y)) = Ok b" "a @ r = b @ s"
  then have l: "length (h x) < 2 ^ 32" "length (h y) < 2 ^ 32"
    and "put_u32 (word_of_nat (length (h x))) @ r = put_u32 (word_of_nat (length (h y))) @ s"
    by (auto simp: push_len_def split: if_splits)
  then have "word_of_nat (length (h x)) = (word_of_nat (length (h y)) :: 32 word)" "r = s"
    using u32_codec.put_prefix_free by blast+
  then show "length (h x) = length (h y) \<and> r = s" using unat_len32[OF l(1)] unat_len32[OF l(2)] by metis
qed

lemma observes_elements:
  assumes "observes P f e"
  shows "\<forall>x \<in> set xs. P x \<Longrightarrow> \<forall>y \<in> set ys. P y \<Longrightarrow> length xs = length ys \<Longrightarrow> cat (map e xs) = Ok a \<Longrightarrow>
    cat (map e ys) = Ok b \<Longrightarrow> a @ r = b @ s \<Longrightarrow> map f xs = map f ys \<and> r = s"
proof (induction xs arbitrary: ys a b)
  case (Cons x xs)
  then obtain y ys' where ys: "ys = y # ys'" by (cases ys) auto
  with Cons.prems obtain a1 a2 b1 b2 where parts: "e x = Ok a1" "cat (map e xs) = Ok a2" "a = a1 @ a2"
      "e y = Ok b1" "cat (map e ys') = Ok b2" "b = b1 @ b2"
    by (auto simp: result_simps)
  then have "a1 @ (a2 @ r) = b1 @ (b2 @ s)" using Cons.prems(6) by simp
  moreover have "P x" "P y" using Cons.prems ys by auto
  ultimately have "f x = f y" "a2 @ r = b2 @ s" using observesD[OF assms _ _ parts(1,4)] by auto
  with Cons.IH[OF _ _ _ parts(2,5)] Cons.prems ys show ?case by simp
qed simp

lemma observes_list [observe_intros]:
  assumes "observes P f e"
  shows "observes (\<lambda>xs. \<forall>x \<in> set xs. P x) (map f) (push_list e)"
proof (rule observesI)
  fix xs ys :: "'a list" and a b r s
  assume P: "\<forall>x \<in> set xs. P x" "\<forall>x \<in> set ys. P x" and enc: "push_list e xs = Ok a" "push_list e ys = Ok b" and eq: "a @ r = b @ s"
  from enc obtain a1 a2 b1 b2 where parts: "push_len (length xs) = Ok a1" "cat (map e xs) = Ok a2" "a = a1 @ a2"
      "push_len (length ys) = Ok b1" "cat (map e ys) = Ok b2" "b = b1 @ b2"
    by (auto simp: push_list_def result_simps)
  then have "a1 @ (a2 @ r) = b1 @ (b2 @ s)" using eq by simp
  with observesD[OF observes_len[of "\<lambda>_. True" "\<lambda>x. x"] _ _ parts(1,4)] have "length xs = length ys" "a2 @ r = b2 @ s" by auto
  with observes_elements[OF assms P _ parts(2,5)] show "map f xs = map f ys \<and> r = s" by blast
qed

lemma observes_u32s: "observes P f (\<lambda>x. push_u32s (f x))"
proof -
  have "observes (\<lambda>_. True) (map (\<lambda>v. v)) push_u32s"
    unfolding push_u32s_def by (rule observes_weaken[OF observes_list[OF observes_u32[of "\<lambda>_. True" "\<lambda>v. v"]]]) auto
  from observes_field[OF this, of P f] show ?thesis by simp
qed

section \<open>The pieces\<close>

lemma put_u32_cancel [simp]: "put_u32 a @ r = put_u32 b @ s \<longleftrightarrow> a = b \<and> r = s"
  using u32_codec.put_prefix_free by blast

lemma put_u32_inj [simp]: "put_u32 a = put_u32 b \<longleftrightarrow> a = b"
  using put_u32_cancel[of a "[]" b "[]"] by simp

lemma tags_inj [simp]:
  "lane_ownership_tag l = lane_ownership_tag l' \<longleftrightarrow> l = l'" "payload_ownership_tag p = payload_ownership_tag p' \<longleftrightarrow> p = p'"
  "operation_tag k = operation_tag k' \<longleftrightarrow> k = k'" "bool_tag b = bool_tag b' \<longleftrightarrow> b = b'"
  "mode_tag m = mode_tag m' \<longleftrightarrow> m = m'" "boundary_tag d = boundary_tag d' \<longleftrightarrow> d = d'"
proof -
  show "operation_tag k = operation_tag k' \<longleftrightarrow> k = k'" by (cases k; cases k'; simp)
  show "lane_ownership_tag l = lane_ownership_tag l' \<longleftrightarrow> l = l'" by (cases l; cases l'; simp)
  show "payload_ownership_tag p = payload_ownership_tag p' \<longleftrightarrow> p = p'" by (cases p; cases p'; simp)
  show "mode_tag m = mode_tag m' \<longleftrightarrow> m = m'" by (cases m; cases m'; simp)
  show "boundary_tag d = boundary_tag d' \<longleftrightarrow> d = d'" by (cases d; cases d'; simp)
qed (simp add: bool_tag_def)

lemma encode_condition_cancel: "encode_condition c @ r = encode_condition c' @ s \<Longrightarrow> c = c' \<and> r = s"
  by (cases c; cases c'; simp)

lemma encode_action_cancel: "encode_action c @ r = encode_action c' @ s \<Longrightarrow> c = c' \<and> r = s"
  by (cases c; cases c'; simp)

lemma encode_outcome_cancel: "encode_outcome c @ r = encode_outcome c' @ s \<Longrightarrow> c = c' \<and> r = s"
  by (cases c; cases c'; simp)

lemma encode_capacity_cancel: "encode_capacity c @ r = encode_capacity c' @ s \<Longrightarrow> c = c' \<and> r = s"
  by (cases c; cases c'; simp)

lemma encode_optional_cancel: "encode_optional_u32 c @ r = encode_optional_u32 c' @ s \<Longrightarrow> c = c' \<and> r = s"
  by (cases c; cases c'; simp add: encode_optional_u32_def)

lemma encode_cancellation_cancel: "encode_cancellation c @ r = encode_cancellation c' @ s \<Longrightarrow> c = c' \<and> r = s"
  by (cases c; cases c'; simp add: encode_cancellation_def)

lemma observes_pure: "(\<And>u v r s. enc u @ r = enc v @ s \<Longrightarrow> u = v \<and> r = s) \<Longrightarrow> observes P f (\<lambda>x. Ok (enc (f x)))"
  by (rule observes_Ok)

lemma tags_injective: "inj lane_ownership_tag" "inj payload_ownership_tag" "inj operation_tag" "inj bool_tag"
  "inj mode_tag" "inj boundary_tag"
  by (simp_all add: inj_def)

lemma observes_pures:
  "observes P f (\<lambda>x. Ok (encode_condition (f x)))" "observes P g (\<lambda>x. Ok (encode_action (g x)))"
  "observes P h (\<lambda>x. Ok (encode_outcome (h x)))" "observes P i (\<lambda>x. Ok (encode_capacity (i x)))"
  "observes P j (\<lambda>x. Ok (encode_optional_u32 (j x)))" "observes P k (\<lambda>x. Ok (encode_cancellation (k x)))"
  by (rule observes_pure, erule encode_condition_cancel encode_action_cancel encode_outcome_cancel
      encode_capacity_cancel encode_optional_cancel encode_cancellation_cancel)+

lemmas observe_pieces = observes_cat_Cons observes_cat_Nil observes_u32 observes_u32s observes_pures
  observes_byte[OF tags_injective(1)] observes_byte[OF tags_injective(2)] observes_byte[OF tags_injective(3)]
  observes_byte[OF tags_injective(4)] observes_byte[OF tags_injective(5)] observes_byte[OF tags_injective(6)]

definition queue_array_ok :: "QueueShape \<Rightarrow> bool" where
  "queue_array_ok q \<longleftrightarrow> length (qs_payload_layout_fingerprint q) = 32"

definition shape_arrays_ok :: "AsyncExecutionShape \<Rightarrow> bool" where
  "shape_arrays_ok sh \<longleftrightarrow> length (as_closure_layout_fingerprint sh) = 32 \<and> (\<forall>q \<in> set (as_queues sh). queue_array_ok q)"

definition arrays_ok :: "AsyncProgram \<Rightarrow> bool" where
  "arrays_ok p \<longleftrightarrow> (\<forall>sh \<in> set (ap_execution_shapes p). shape_arrays_ok sh)"

definition untyped_lane :: "FrameLane \<Rightarrow> FrameLane" where
  "untyped_lane l = l\<lparr>fl_ty := Named [] []\<rparr>"

definition untyped :: "AsyncExecutionShape \<Rightarrow> AsyncExecutionShape" where
  "untyped sh = sh\<lparr>as_frame := map untyped_lane (as_frame sh)\<rparr>"

lemma observes_lane: "observes (\<lambda>_. True) untyped_lane encode_lane"
  unfolding encode_lane_def
  by (rule observes_image, (rule observe_pieces)+) (auto simp: untyped_lane_def)

lemma observes_edge: "observes (\<lambda>_. True) (\<lambda>e. e) encode_edge"
proof -
  have actions: "observes P f (\<lambda>x. encode_actions (f x))" for P :: "AsyncStateEdge \<Rightarrow> bool" and f
    unfolding encode_actions_def
    by (rule observes_weaken[OF observes_field[OF observes_list[OF observes_pures(2)[of "\<lambda>_. True" "\<lambda>a. a"]]]])
      auto
  show ?thesis unfolding encode_edge_def by (rule observes_image, (rule observe_pieces actions)+) auto
qed

lemma observes_sub:
  assumes "observes R (\<lambda>x. x) e" "\<And>x. P x \<Longrightarrow> \<forall>y \<in> set (f x). R y"
  shows "observes P f (\<lambda>x. push_list e (f x))"
  using observes_field[OF observes_list[OF assms(1)], of P f] assms(2) by simp

lemma observes_sub_all: "observes (\<lambda>_. True) (\<lambda>x. x) e \<Longrightarrow> observes P f (\<lambda>x. push_list e (f x))"
  by (rule observes_sub[of "\<lambda>_. True"]) simp_all

lemma observes_state: "observes (\<lambda>_. True) (\<lambda>e. e) encode_state"
  unfolding encode_state_def by (rule observes_image, (rule observe_pieces observes_sub_all[OF observes_edge])+) auto

lemma observes_queue: "observes queue_array_ok (\<lambda>e. e) encode_queue"
proof -
  have fp: "observes queue_array_ok qs_payload_layout_fingerprint (\<lambda>q. Ok (qs_payload_layout_fingerprint q))"
    by (rule observes_array) (simp add: queue_array_ok_def)
  show ?thesis unfolding encode_queue_def by (rule observes_image, (rule observe_pieces fp)+) auto
qed

lemma observes_arm: "observes (\<lambda>_. True) (\<lambda>e. e) encode_arm"
  unfolding encode_arm_def by (rule observes_image, (rule observe_pieces)+) auto

lemma observes_operation: "observes (\<lambda>_. True) (\<lambda>e. e) encode_operation"
  unfolding encode_operation_def by (rule observes_image, (rule observe_pieces observes_sub_all[OF observes_arm])+) auto

lemma observes_boundaries: "observes P f (\<lambda>x. push_list (\<lambda>boundary. Ok [boundary_tag boundary]) (f x))"
  by (rule observes_sub_all[OF observes_byte[OF tags_injective(6)]])

lemma observes_frame: "observes P (\<lambda>sh. map untyped_lane (as_frame sh)) (\<lambda>sh. push_list encode_lane (as_frame sh))"
  by (rule observes_weaken[OF observes_field[OF observes_list[OF observes_lane]]]) auto

lemma observes_shape: "observes shape_arrays_ok untyped encode_shape"
proof -
  have fp: "observes shape_arrays_ok as_closure_layout_fingerprint (\<lambda>q. Ok (as_closure_layout_fingerprint q))"
    by (rule observes_array) (simp add: shape_arrays_ok_def)
  have queues: "observes shape_arrays_ok as_queues (\<lambda>sh. push_list encode_queue (as_queues sh))"
    by (rule observes_sub[OF observes_queue]) (simp add: shape_arrays_ok_def)
  show ?thesis unfolding encode_shape_def
    by (rule observes_image, (rule observe_pieces fp queues observes_frame observes_boundaries
        observes_sub_all[OF observes_state] observes_sub_all[OF observes_operation])+) (auto simp: untyped_def)
qed

lemma canonical_bytes_determine:
  assumes "arrays_ok p" "arrays_ok q" "canonical_bytes p = Ok a" "canonical_bytes q = Ok b" "a @ r = b @ s"
  shows "map untyped (ap_execution_shapes p) = map untyped (ap_execution_shapes q) \<and> r = s"
proof -
  have "observes arrays_ok (\<lambda>p. (ap_schema_version p, map untyped (ap_execution_shapes p), ()))
      (\<lambda>p. cat [Ok (put_u32 (ap_schema_version p)), push_list encode_shape (ap_execution_shapes p)])"
    by (rule observe_pieces, rule observe_pieces, rule observe_pieces, rule observes_field[OF observes_list[OF observes_shape]],
        simp add: arrays_ok_def, rule observe_pieces)
  from observesD[OF this assms(1,2) _ _ assms(5)] assms(3,4) show ?thesis
    unfolding canonical_bytes_def by (auto elim!: rbind_OkE)
qed

section \<open>Conversions\<close>

lemma rebuild [simp]:
  "\<lparr>tr_condition = tr_condition t, tr_actions = tr_actions t, tr_outcome = tr_outcome t\<rparr> = t"
  "\<lparr>oa_ordinal = oa_ordinal x, oa_operation = oa_operation x, oa_endpoint_lane = oa_endpoint_lane x,
     oa_input_lanes = oa_input_lanes x, oa_result_lanes = oa_result_lanes x, oa_queue = oa_queue x, oa_ownership = oa_ownership x\<rparr> = x"
  by simp_all

lemma typed_async_state [simp]: "typed_state (async_state st b) = st"
  by (cases st) (simp add: typed_state_def async_state_def comp_def)

lemma typed_async_operation [simp]: "typed_operation (async_operation op) = op"
  by (cases op) (simp add: typed_operation_def async_operation_def typed_arm_def async_arm_def comp_def)

lemma into_async_shape_typed:
  assumes "into_async_shape f = Ok sh"
  shows "typed_shape sh = fe_execution f"
proof -
  define bs where "bs = sort_key fs_state (fe_state_bindings f)"
  have len: "length bs = length (te_states (fe_execution f))"
    using assms by (auto simp: bs_def into_async_shape_def Let_def elim!: rbind_OkE if_Err_OkE)
  have "map (typed_state \<circ> (\<lambda>(state, binding). async_state state binding)) (zip xs bs) = xs" if "length bs = length xs" for xs
    using that by (intro nth_equalityI) (auto simp: comp_def split: prod.splits)
  with assms len show ?thesis
    by (cases "te_cancellation (fe_execution f)")
      (auto simp: typed_shape_def into_async_shape_def Let_def comp_def bs_def elim!: rbind_OkE if_Err_OkE)
qed

lemma backend_states_exact:
  assumes "length ys = length xs" "rfor validate_backend_state (enumerate n (zip xs ys)) = Ok ()"
  shows "ys = map (\<lambda>state. \<lparr>bs_state = fb_state state, bs_callable = fb_callable state,
       bs_capture_to_lane = fb_capture_to_lane state\<rparr>) xs"
  using assms
proof (induction ys xs arbitrary: n rule: list_induct2)
  case (Cons y ys x xs)
  then show ?case by (auto simp: validate_backend_state_def split: if_splits elim!: rbind_OkE)
qed simp

lemma validate_backend_exact: "validate_backend_binding sh b = Ok () \<Longrightarrow> b = layout_binding sh"
proof -
  assume "validate_backend_binding sh b = Ok ()"
  then have "bb_shape b = as_id sh" "bb_mode b = as_mode sh" "bb_closure_layout_fingerprint b = as_closure_layout_fingerprint sh"
    and len: "length (bb_states b) = length (as_states sh)"
    and states: "rfor validate_backend_state (enumerate 0 (zip (as_states sh) (bb_states b))) = Ok ()"
    by (auto simp: validate_backend_binding_def elim!: if_Err_OkE)
  with backend_states_exact[OF len states] show ?thesis by (cases b) (simp add: layout_binding_def)
qed

lemma into_typed_cases: "into_typed_execution sh b = Ok t \<longleftrightarrow>
    validate_backend_binding sh b = Ok () \<and> shape_validate (typed_shape sh) = Ok () \<and> t = typed_shape sh"
  by (auto simp: into_typed_execution_def result_simps)

lemma validate_structure_shape:
  assumes "validate_structure p = Ok ()" "sh \<in> set (ap_execution_shapes p)"
  shows "into_typed_execution sh (layout_binding sh) = Ok (typed_shape sh)"
proof -
  have "sh \<in> set (map snd (enumerate 0 (ap_execution_shapes p)))" using assms(2) by simp
  then obtain n where "(n, sh) \<in> set (enumerate 0 (ap_execution_shapes p))"
    unfolding set_map by force
  then have "validate_async_shape (n, sh) = Ok ()"
    using assms(1) by (auto simp: validate_structure_def result_simps split: if_splits)
  then obtain t where "into_typed_execution sh (layout_binding sh) = Ok t"
    by (auto simp: validate_async_shape_def elim!: rbind_OkE if_Err_OkE)
  then show ?thesis by (simp add: into_typed_cases)
qed

lemma fingerprint_irrelevant:
  "validate_structure (p\<lparr>ap_semantic_fingerprint := d\<rparr>) = validate_structure p"
  "canonical_bytes (p\<lparr>ap_semantic_fingerprint := d\<rparr>) = canonical_bytes p"
  by (simp_all add: validate_structure_def canonical_bytes_def)

lemma program_new_Ok:
  assumes "program_new blake3 shapes = Ok p"
  shows "ap_execution_shapes p = shapes \<and> validate_structure p = Ok () \<and> program_validate blake3 p = Ok ()"
proof -
  define base where "base = \<lparr>ap_schema_version = ASYNC_PROGRAM_SCHEMA_VERSION, ap_semantic_fingerprint = replicate 32 0,
            ap_execution_shapes = shapes\<rparr>"
  from assms obtain bs where base: "validate_structure base = Ok ()" "canonical_bytes base = Ok bs"
      "p = base\<lparr>ap_semantic_fingerprint := blake3 bs\<rparr>"
    unfolding program_new_def Let_def base_def[symmetric] by (auto simp: computed_fingerprint_def elim!: rbind_OkE)
  moreover have "ap_execution_shapes base = shapes" by (simp add: base_def)
  ultimately show ?thesis by (simp add: program_validate_def computed_fingerprint_def fingerprint_irrelevant)
qed

section \<open>A sample\<close>

text \<open>The hash is replaced by the identity, which keeps the whole input.\<close>

definition sample_final :: "bytes \<Rightarrow> FinalTypedAsyncExecution" where
  "sample_final digest = \<lparr>fe_execution = \<lparr>te_id = 0, te_mode = NormalMode, te_entry = 0,
       te_frame = [\<lparr>fl_id = 0, fl_ty = Named ''Int'' [], fl_ownership = CopyLane, fl_initially_initialized = True\<rparr>],
       te_result_lanes = [0],
       te_states = [\<lparr>es_id = 0, es_transitions = [\<lparr>tr_condition = Always, tr_actions = [], tr_outcome = ContinueTo 1\<rparr>]\<rparr>,
         \<lparr>es_id = 1, es_transitions = [\<lparr>tr_condition = Always, tr_actions = [WriteLane 0], tr_outcome = CompleteOutcome\<rparr>]\<rparr>],
       te_operations = [], te_queues = [], te_cancellation = None\<rparr>,
     fe_closure_layout_fingerprint = digest,
     fe_state_bindings = [\<lparr>fs_state = 1, fs_callable = 9, fs_capture_to_lane = [0]\<rparr>, \<lparr>fs_state = 0, fs_callable = 7, fs_capture_to_lane = []\<rparr>],
     fe_dynamic_boundaries = []\<rparr>"

definition sample_program :: AsyncProgram where
  "sample_program = (case from_final_typed_executions (\<lambda>bs. bs) [sample_final (replicate 32 5)] of
     Inr p \<Rightarrow> p | Inl _ \<Rightarrow> \<lparr>ap_schema_version = 0, ap_semantic_fingerprint = [], ap_execution_shapes = []\<rparr>)"

lemma sample_program_from: "from_final_typed_executions (\<lambda>bs. bs) [sample_final (replicate 32 5)] = Ok sample_program"
  by code_simp

lemma sample_program_valid: "program_validate (\<lambda>bs. bs) sample_program = Ok ()"
  "validate_structure sample_program = Ok ()" "arrays_ok sample_program"
  "canonical_bytes sample_program = Ok (ap_semantic_fingerprint sample_program)"
  by code_simp+

text \<open>The same program with another type in its frame.\<close>

definition retyped_program :: AsyncProgram where
  "retyped_program = sample_program\<lparr>ap_execution_shapes := map (\<lambda>sh. sh\<lparr>as_frame :=
     map (\<lambda>l. l\<lparr>fl_ty := Named ''Str'' []\<rparr>) (as_frame sh)\<rparr>) (ap_execution_shapes sample_program)\<rparr>"

lemma retyped_program_valid: "program_validate (\<lambda>bs. bs) retyped_program = Ok ()"
  "arrays_ok retyped_program" "canonical_bytes retyped_program = Ok (ap_semantic_fingerprint retyped_program)"
  by code_simp+

lemma retyped_program_differs: "retyped_program \<noteq> sample_program"
proof
  assume eq: "retyped_program = sample_program"
  have "map (\<lambda>sh. map fl_ty (as_frame sh)) (ap_execution_shapes retyped_program) \<noteq>
      map (\<lambda>sh. map fl_ty (as_frame sh)) (ap_execution_shapes sample_program)" by code_simp
  with eq show False by simp
qed

lemma retyped_program_fingerprint: "ap_semantic_fingerprint sample_program = ap_semantic_fingerprint retyped_program"
  by (simp add: retyped_program_def)

section \<open>Properties\<close>

text \<open>
  C34: The semantic fingerprint binds the program: if two programs validate and carry the same
  fingerprint, and the hash does not collide on their canonical bytes, then they agree on every
  shape, lane, state, edge, action, queue, operation, select arm and cancellation; only the types of
  frame lanes, which the closure layout fingerprint stands for, are left out.
\<close>

theorem fingerprint_binds_program:
  assumes "program_validate blake3 p = Ok ()" "program_validate blake3 q = Ok ()" "arrays_ok p" "arrays_ok q"
    and "canonical_bytes p = Ok a" "canonical_bytes q = Ok b" "blake3 a = blake3 b \<longrightarrow> a = b"
    and "ap_semantic_fingerprint p = ap_semantic_fingerprint q"
  shows "map untyped (ap_execution_shapes p) = map untyped (ap_execution_shapes q)"
proof -
  have "blake3 a = blake3 b"
    using assms(1,2,5,6,8) by (auto simp: program_validate_def computed_fingerprint_def elim!: rbind_OkE split: if_splits)
  with assms(7) have "a @ [] = b @ []" by simp
  from canonical_bytes_determine[OF assms(3-6) this] show ?thesis by blast
qed

theorem fingerprint_binds_program_witness:
  "retyped_program \<noteq> sample_program \<and> ap_semantic_fingerprint sample_program = ap_semantic_fingerprint retyped_program \<and>
   map untyped (ap_execution_shapes sample_program) = map untyped (ap_execution_shapes retyped_program)"
  using fingerprint_binds_program[OF sample_program_valid(1) retyped_program_valid(1) sample_program_valid(3)
      retyped_program_valid(2) sample_program_valid(4) retyped_program_valid(3)]
    retyped_program_differs retyped_program_fingerprint by simp

text \<open>
  C35: Lowering typed executions to the canonical program and binding it again gives back the typed
  executions: the program produced from a list of final executions validates, and each of its shapes,
  bound with its own layout, is the execution it came from.
\<close>

theorem lowering_roundtrip:
  assumes "from_final_typed_executions blake3 fs = Ok p"
  shows "program_validate blake3 p = Ok () \<and>
    list_all2 (\<lambda>f sh. into_typed_execution sh (layout_binding sh) = Ok (fe_execution f)) fs (ap_execution_shapes p)"
proof -
  from assms obtain shapes where shapes: "list_all2 (\<lambda>f sh. into_async_shape f = Ok sh) fs shapes" "program_new blake3 shapes = Ok p"
    by (auto simp: from_final_typed_executions_def result_simps)
  note new = program_new_Ok[OF shapes(2)]
  have "list_all2 (\<lambda>f sh. into_typed_execution sh (layout_binding sh) = Ok (fe_execution f)) fs shapes"
  proof (rule list.rel_mono_strong[OF shapes(1)])
    show "into_typed_execution sh (layout_binding sh) = Ok (fe_execution f)" if "sh \<in> set shapes" "into_async_shape f = Ok sh" for f sh
      using validate_structure_shape[of p sh] into_async_shape_typed[OF that(2)] that(1) new by simp
  qed
  with new show ?thesis by simp
qed

theorem lowering_roundtrip_witness:
  "program_validate (\<lambda>bs. bs) sample_program = Ok () \<and>
   list_all2 (\<lambda>f sh. into_typed_execution sh (layout_binding sh) = Ok (fe_execution f))
     [sample_final (replicate 32 5)] (ap_execution_shapes sample_program)"
  by (rule lowering_roundtrip[OF sample_program_from])

text \<open>
  A backend can bind a shape of a valid program with exactly one binding: any difference of shape,
  mode, closure layout, state, callable or capture is refused.
\<close>

theorem backend_binding_exact:
  assumes "validate_structure p = Ok ()" "sh \<in> set (ap_execution_shapes p)"
  shows "(\<exists>t. into_typed_execution sh b = Ok t) \<longleftrightarrow> b = layout_binding sh"
  using validate_structure_shape[OF assms] validate_backend_exact[of sh b] by (auto simp: into_typed_cases)

theorem backend_binding_exact_witness:
  "(\<exists>t. into_typed_execution (hd (ap_execution_shapes sample_program))
       ((layout_binding (hd (ap_execution_shapes sample_program)))\<lparr>bb_mode := OptMode\<rparr>) = Ok t) \<longleftrightarrow>
   (layout_binding (hd (ap_execution_shapes sample_program)))\<lparr>bb_mode := OptMode\<rparr> =
     layout_binding (hd (ap_execution_shapes sample_program))"
proof -
  have "hd (ap_execution_shapes sample_program) \<in> set (ap_execution_shapes sample_program)" by code_simp
  from backend_binding_exact[OF sample_program_valid(2) this] show ?thesis .
qed

end
