(* ===== verification/Typed_Scheduler.thy ===== *)
theory Typed_Scheduler
  imports Runtime_Safety Async_Program
begin

text \<open>
  The deterministic scheduler of typed executions (crates/witchy-interp/src/typed_scheduler.rs): two
  ready queues of execution identifiers, the set of queued identifiers, the runtime it owns and the
  traces it numbers. A round runs the snapshot of the current ready queue.
\<close>

section \<open>The scheduler\<close>

record SchedulerEvent =
  ev_sequence :: "64 word"
  ev_execution :: "64 word"
  ev_turn :: KernelTurn

datatype AdmissionResult =
    AdmissionBlocked
  | AdmissionCommitted
  | AdmissionClosed
  | AdmissionStale
  | AdmissionCancelled
  | AdmissionError string

record AdmissionEvent =
  ad_sequence :: "64 word"
  ad_operation :: OperationSiteId
  ad_generation :: "64 word"
  ad_result :: AdmissionResult

record TypedScheduler =
  sc_runtime :: TypedQueueRuntime
  sc_ready :: "64 word list"
  sc_next_round :: "64 word list"
  sc_queued :: "64 word btset"
  sc_next_sequence :: "64 word"
  sc_admission_sequence :: "64 word"
  sc_admissions :: "AdmissionEvent list"

definition scheduler_new :: TypedScheduler where
  "scheduler_new = \<lparr>sc_runtime = runtime_default, sc_ready = [], sc_next_round = [], sc_queued = [],
     sc_next_sequence = 0, sc_admission_sequence = 0, sc_admissions = []\<rparr>"

text \<open>A call on the runtime the scheduler owns.\<close>

definition on_runtime :: "(TypedQueueRuntime, 'a) sr \<Rightarrow> (TypedScheduler, 'a) sr" where
  "on_runtime m s = (case m (sc_runtime s) of (r, rt) \<Rightarrow> (r, s\<lparr>sc_runtime := rt\<rparr>))"

definition enqueue_next :: "64 word \<Rightarrow> (TypedScheduler, unit) sr" where
  "enqueue_next execution s =
     (if execution \<in> set (sc_queued s) then (Ok (), s)
      else (Ok (), s\<lparr>sc_queued := bts_insert execution (sc_queued s), sc_next_round := sc_next_round s @ [execution]\<rparr>))"

definition reserve_sequence :: "(TypedScheduler, 64 word) sr" where
  "reserve_sequence s =
     (if unat (sc_next_sequence s) + 1 < 2 ^ 64
      then (Ok (sc_next_sequence s), s\<lparr>sc_next_sequence := sc_next_sequence s + 1\<rparr>)
      else (Err (Fail ''typed scheduler transition sequence overflow''), s))"

definition operation_id :: "TypedScheduler \<Rightarrow> 64 word \<Rightarrow> OperationSiteId outcome" where
  "operation_id s execution =
     rbind (ok_or (btm_get (rt_executions (sc_runtime s)) execution) (Fail ''typed scheduler has no such execution'')) (\<lambda>ex.
     rbind (waiting_operation ex) (\<lambda>(operation, _). Ok operation))"

definition record_admission :: "OperationSiteId \<Rightarrow> 64 word \<Rightarrow> AdmissionResult \<Rightarrow> (TypedScheduler, unit) sr" where
  "record_admission operation generation result s =
     (if unat (sc_admission_sequence s) + 1 < 2 ^ 64
      then (Ok (), s\<lparr>sc_admission_sequence := sc_admission_sequence s + 1,
             sc_admissions := sc_admissions s @ [\<lparr>ad_sequence = sc_admission_sequence s, ad_operation = operation,
               ad_generation = generation, ad_result = result\<rparr>]\<rparr>)
      else (Err (Fail ''typed scheduler admission sequence overflow''), s))"

definition is_closed_completion :: "QueueCompletion \<Rightarrow> bool" where
  "is_closed_completion c = (case c of SendClosed _ \<Rightarrow> True | ReceiveClosed \<Rightarrow> True | _ \<Rightarrow> False)"

definition queue_result :: "QueueRuntimeResult \<Rightarrow> AdmissionResult" where
  "queue_result result =
     (case result of
        RuntimeBlocked \<Rightarrow> AdmissionBlocked
      | RuntimeCommitted _ deliveries \<Rightarrow>
          if list_ex (\<lambda>d. is_closed_completion (qd_completion d)) deliveries then AdmissionClosed else AdmissionCommitted)"

definition select_result :: "QueueSelectResult \<Rightarrow> AdmissionResult" where
  "select_result result =
     (case result of
        SelectBlocked \<Rightarrow> AdmissionBlocked
      | SelectCommitted _ _ deliveries \<Rightarrow>
          if list_ex (\<lambda>d. is_closed_completion (qd_completion d)) deliveries then AdmissionClosed else AdmissionCommitted)"

section \<open>Rounds\<close>

definition is_runnable :: "KernelTurn \<Rightarrow> bool" where
  "is_runnable t = (case t of Continued _ \<Rightarrow> True | BecameReady _ \<Rightarrow> True | _ \<Rightarrow> False)"

text \<open>\<open>ready.pop_front().expect(..)\<close>.\<close>

definition pop_ready :: "(TypedScheduler, 64 word) sr" where
  "pop_ready s =
     (case sc_ready s of
        [] \<Rightarrow> (Err Panic, s)
      | execution # rest \<Rightarrow> (Ok execution, s\<lparr>sc_ready := rest\<rparr>))"

definition run_one :: "(64 word, nat) btmap \<Rightarrow> (TypedScheduler, SchedulerEvent) sr" where
  "run_one selections =
     sbind pop_ready (\<lambda>execution.
     sbind (smodify (\<lambda>s. s\<lparr>sc_queued := bts_difference (sc_queued s) [execution]\<rparr>)) (\<lambda>_.
     sbind (on_runtime (case btm_get selections execution of
         Some transition \<Rightarrow> execution_mut_turn_selected execution transition
       | None \<Rightarrow> turn_execution execution)) (\<lambda>t.
     sbind reserve_sequence (\<lambda>sequence.
     sbind (if is_runnable t then enqueue_next execution else sret ()) (\<lambda>_.
     sret \<lparr>ev_sequence = sequence, ev_execution = execution, ev_turn = t\<rparr>)))))"

text \<open>The loop body \<open>n\<close> times.\<close>

fun run_times :: "(64 word, nat) btmap \<Rightarrow> nat \<Rightarrow> (TypedScheduler, SchedulerEvent list) sr" where
  "run_times selections 0 = sret []"
| "run_times selections (Suc n) =
     sbind (run_one selections) (\<lambda>event. sbind (run_times selections n) (\<lambda>events. sret (event # events)))"

definition start_round :: "TypedScheduler \<Rightarrow> TypedScheduler" where
  "start_round s = (if sc_ready s = [] then s\<lparr>sc_ready := sc_next_round s, sc_next_round := sc_ready s\<rparr> else s)"

definition run_round_selected :: "(64 word, nat) btmap \<Rightarrow> (TypedScheduler, SchedulerEvent list) sr" where
  "run_round_selected selections =
     sbind (smodify start_round) (\<lambda>_. sbind sget (\<lambda>s. run_times selections (length (sc_ready s))))"

definition run_round :: "(TypedScheduler, SchedulerEvent list) sr" where
  "run_round = run_round_selected []"

section \<open>Admissions\<close>

definition admit_turns :: "(64 word \<times> KernelTurn) list \<Rightarrow> (TypedScheduler, unit) sr" where
  "admit_turns = sfor (\<lambda>(execution, t). if is_runnable t then enqueue_next execution else sret ())"

definition admit_queue_result :: "QueueRuntimeResult \<Rightarrow> (TypedScheduler, unit) sr" where
  "admit_queue_result result = (case result of RuntimeCommitted turns _ \<Rightarrow> admit_turns turns | RuntimeBlocked \<Rightarrow> sret ())"

definition admit_select_result :: "QueueSelectResult \<Rightarrow> (TypedScheduler, unit) sr" where
  "admit_select_result result = (case result of SelectCommitted _ turns _ \<Rightarrow> admit_turns turns | SelectBlocked \<Rightarrow> sret ())"

definition scheduler_install_queue :: "TypedQueue \<Rightarrow> (TypedScheduler, unit) sr" where
  "scheduler_install_queue q = on_runtime (runtime_install_queue q)"

definition scheduler_install_execution :: "64 word \<Rightarrow> TypedExecution \<Rightarrow> (TypedScheduler, unit) sr" where
  "scheduler_install_execution i ex =
     sbind (on_runtime (runtime_install_execution i ex)) (\<lambda>_. enqueue_next i)"

definition from_async_shape :: "AsyncExecutionShape \<Rightarrow> AsyncBackendBinding \<Rightarrow> TypedExecution outcome" where
  "from_async_shape shape binding = rbind (into_typed_execution shape binding) execution_new"

definition install_program_execution ::
    "(bytes \<Rightarrow> bytes) \<Rightarrow> AsyncProgram \<Rightarrow> ExecutionShapeId \<Rightarrow> 64 word \<Rightarrow> AsyncBackendBinding \<Rightarrow> (TypedScheduler, unit) sr" where
  "install_program_execution blake3 program shape execution binding =
     sbind (slift (program_validate blake3 program)) (\<lambda>_.
     sbind (slift (ok_or (List.find (\<lambda>candidate. as_id candidate = shape) (ap_execution_shapes program))
        (Fail (''async program has no execution shape ExecutionShapeId('' @ show_nat (unat shape) @ '')'')))) (\<lambda>canonical.
     if bb_shape binding \<noteq> shape
     then serr (Fail ''async backend binding shape does not match installed program shape'')
     else sbind (sfor (\<lambda>queue. sbind sget (\<lambda>s.
         if \<not> has_queue (sc_runtime s) (qs_id queue) then scheduler_install_queue (queue_new queue) else sret ()))
         (as_queues canonical)) (\<lambda>_.
     sbind (slift (from_async_shape canonical binding)) (\<lambda>ex. scheduler_install_execution execution ex))))"

text \<open>A runtime call whose failure is recorded before it is returned.\<close>

definition admit_or_record :: "OperationSiteId \<Rightarrow> 64 word \<Rightarrow> (TypedQueueRuntime, 'a) sr \<Rightarrow> (TypedScheduler, 'a) sr" where
  "admit_or_record operation generation m s =
     (case on_runtime m s of
        (Inr x, s') \<Rightarrow> (Ok x, s')
      | (Inl (Fail e), s') \<Rightarrow>
          sbind (record_admission operation generation (AdmissionError e)) (\<lambda>_. serr (Fail e)) s'
      | (Inl Panic, s') \<Rightarrow> (Inl Panic, s'))"

definition scheduler_submit_send :: "64 word \<Rightarrow> 64 word \<Rightarrow> QueuePayload \<Rightarrow> (TypedScheduler, QueueRuntimeResult) sr" where
  "scheduler_submit_send execution generation value =
     sbind sget (\<lambda>s. sbind (slift (operation_id s execution)) (\<lambda>operation.
     sbind (admit_or_record operation generation (runtime_submit_send execution generation value)) (\<lambda>result.
     sbind (record_admission operation generation (queue_result result)) (\<lambda>_.
     sbind (admit_queue_result result) (\<lambda>_. sret result)))))"

definition scheduler_submit_receive :: "64 word \<Rightarrow> 64 word \<Rightarrow> (TypedScheduler, QueueRuntimeResult) sr" where
  "scheduler_submit_receive execution generation =
     sbind sget (\<lambda>s. sbind (slift (operation_id s execution)) (\<lambda>operation.
     sbind (admit_or_record operation generation (runtime_submit_receive execution generation)) (\<lambda>result.
     sbind (record_admission operation generation (queue_result result)) (\<lambda>_.
     sbind (admit_queue_result result) (\<lambda>_. sret result)))))"

definition scheduler_submit_select ::
    "64 word \<Rightarrow> 64 word \<Rightarrow> (32 word, QueuePayload) btmap \<Rightarrow> (TypedScheduler, QueueSelectResult) sr" where
  "scheduler_submit_select execution generation send_payloads =
     sbind sget (\<lambda>s. sbind (slift (operation_id s execution)) (\<lambda>operation.
     sbind (admit_or_record operation generation (runtime_submit_select execution generation send_payloads)) (\<lambda>result.
     sbind (record_admission operation generation (select_result result)) (\<lambda>_.
     sbind (admit_select_result result) (\<lambda>_. sret result)))))"

definition scheduler_close_queue :: "QueueShapeId \<Rightarrow> (TypedScheduler, QueueRuntimeResult) sr" where
  "scheduler_close_queue queue =
     sbind (on_runtime (runtime_close_queue queue)) (\<lambda>result.
     sbind (admit_queue_result result) (\<lambda>_. sret result))"

definition scheduler_submit_host :: "64 word \<Rightarrow> 64 word \<Rightarrow> 64 word \<Rightarrow> (TypedScheduler, HostSubmission) sr" where
  "scheduler_submit_host execution generation host =
     sbind sget (\<lambda>s. sbind (slift (operation_id s execution)) (\<lambda>operation.
     sbind (on_runtime (runtime_submit_host execution generation host)) (\<lambda>_.
     sbind (record_admission operation generation AdmissionBlocked) (\<lambda>_. sret HostBlocked))))"

definition scheduler_complete_host :: "64 word \<Rightarrow> 64 word \<Rightarrow> 'p \<Rightarrow> (TypedScheduler, 'p HostCompletion option) sr" where
  "scheduler_complete_host host generation value =
     sbind (on_runtime (runtime_complete_host host generation)) (\<lambda>completed.
     (case completed of
        None \<Rightarrow> sret None
      | Some (execution, operation, t) \<Rightarrow>
          sbind (record_admission operation generation AdmissionCommitted) (\<lambda>_.
          sbind (admit_turns [(execution, t)]) (\<lambda>_.
          sret (Some \<lparr>hc_turn = t, hc_delivery =
            \<lparr>hd_execution = execution, hd_operation = operation, hd_payload = value\<rparr>\<rparr>)))))"

definition waiting_id :: "TypedScheduler \<Rightarrow> 64 word \<Rightarrow> OperationSiteId option" where
  "waiting_id s execution =
     (case btm_get (rt_executions (sc_runtime s)) execution of
        None \<Rightarrow> None
      | Some ex \<Rightarrow> (case waiting_operation ex of Inr (operation, _) \<Rightarrow> Some operation | Inl _ \<Rightarrow> None))"

text \<open>What follows a cancellation that the runtime granted.\<close>

definition after_cancellation :: "OperationSiteId option \<Rightarrow> 64 word \<Rightarrow> 64 word \<Rightarrow> bool \<Rightarrow> (TypedScheduler, bool) sr" where
  "after_cancellation operation execution generation cancelled =
     (if cancelled then
        sbind (case operation of Some op \<Rightarrow> record_admission op generation AdmissionCancelled | None \<Rightarrow> sret ()) (\<lambda>_.
        sbind (enqueue_next execution) (\<lambda>_. sret cancelled))
      else sret cancelled)"

definition scheduler_request_host_cancellation :: "64 word \<Rightarrow> 64 word \<Rightarrow> (TypedScheduler, bool) sr" where
  "scheduler_request_host_cancellation execution generation =
     sbind sget (\<lambda>s.
     sbind (on_runtime (runtime_request_host_cancellation execution generation))
       (after_cancellation (waiting_id s execution) execution generation))"

definition scheduler_request_cancellation :: "64 word \<Rightarrow> 64 word \<Rightarrow> (TypedScheduler, bool) sr" where
  "scheduler_request_cancellation execution generation =
     sbind sget (\<lambda>s.
     sbind (on_runtime (runtime_request_cancellation execution generation))
       (after_cancellation (waiting_id s execution) execution generation))"

definition scheduler_wake :: "64 word \<Rightarrow> OperationSiteId \<Rightarrow> (TypedScheduler, unit) sr" where
  "scheduler_wake execution operation =
     sbind (on_runtime (wake_execution execution operation)) (\<lambda>_. enqueue_next execution)"

end
