(* ===== verification/Scheduler_Progress.thy ===== *)
theory Scheduler_Progress
  imports Typed_Scheduler
begin

text \<open>
  The scheduler's invariant and its progress: the queued set is exactly what the two ready queues
  hold, without repetition; no call panics; an execution that is ready is always queued, as long as
  calls succeed; and what is queued runs within two rounds.
\<close>

section \<open>The invariant\<close>

definition scheduler_ok :: "TypedScheduler \<Rightarrow> bool" where
  "scheduler_ok s \<longleftrightarrow> runtime_ok (sc_runtime s) \<and> distinct (sc_ready s @ sc_next_round s)
     \<and> set (sc_queued s) = set (sc_ready s @ sc_next_round s)"

named_theorems scheduler_intros \<open>operations that keep the scheduler invariant\<close>

lemma scheduler_on_runtime [scheduler_intros]:
  assumes "keeps runtime_ok m"
  shows "keeps scheduler_ok (on_runtime m)"
proof (rule keepsI)
  fix s r s' assume s: "scheduler_ok s" "on_runtime m s = (r, s')"
  obtain rt where m: "m (sc_runtime s) = (r, rt)" "s' = s\<lparr>sc_runtime := rt\<rparr>"
    using s(2) by (auto simp: on_runtime_def split: prod.splits)
  with keepsD[OF assms _ m(1)] s(1) show "scheduler_ok s' \<and> no_panic r" by (simp add: scheduler_ok_def)
qed

lemma scheduler_enqueue [scheduler_intros]: "keeps scheduler_ok (enqueue_next i)"
  by (rule keepsI) (auto simp: enqueue_next_def scheduler_ok_def split: if_splits)

lemma scheduler_record [scheduler_intros]: "keeps scheduler_ok (record_admission op g r)"
  by (rule keepsI) (auto simp: record_admission_def scheduler_ok_def split: if_splits)

lemma scheduler_reserve [scheduler_intros]: "keeps scheduler_ok reserve_sequence"
  by (rule keepsI) (auto simp: reserve_sequence_def scheduler_ok_def split: if_splits)

lemma scheduler_admit_turns [scheduler_intros]: "keeps scheduler_ok (admit_turns ts)"
  unfolding admit_turns_def by (intro keeps_sfor) (auto intro!: keeps_if keeps_sret scheduler_intros)

lemma scheduler_admit_results [scheduler_intros]:
  "keeps scheduler_ok (admit_queue_result q)" "keeps scheduler_ok (admit_select_result r)"
  by (cases q; simp add: admit_queue_result_def scheduler_intros keeps_sret)
    (cases r; simp add: admit_select_result_def scheduler_intros keeps_sret)

lemma scheduler_admit_or_record [scheduler_intros]:
  assumes "keeps runtime_ok m"
  shows "keeps scheduler_ok (admit_or_record op g m)"
proof (rule keepsI)
  fix s r s' assume s: "scheduler_ok s" "admit_or_record op g m s = (r, s')"
  obtain r1 s1 where 1: "on_runtime m s = (r1, s1)" by (cases "on_runtime m s")
  have ok: "scheduler_ok s1" "no_panic r1" using keepsD[OF scheduler_on_runtime[OF assms] s(1) 1] by auto
  show "scheduler_ok s' \<and> no_panic r"
  proof (cases r1)
    case (Inl f)
    with ok(2) obtain e where f: "f = Fail e" by (cases f) auto
    have k: "keeps scheduler_ok (sbind (record_admission op g (AdmissionError e)) (\<lambda>_. serr (Fail e)))"
      by (intro keeps_sbind keeps_serr scheduler_intros)
    from keepsD[OF k ok(1)] s(2) 1 Inl f show ?thesis by (simp add: admit_or_record_def)
  next
    case (Inr x)
    with s(2) 1 ok show ?thesis by (simp add: admit_or_record_def)
  qed
qed

lemma no_panic_operation_id [no_panic_intros]: "no_panic (operation_id s i)"
  unfolding operation_id_def by (intro no_panic_rbind no_panic_intros) (auto intro!: no_panic_intros)

lemma scheduler_submits:
  "keeps scheduler_ok (scheduler_submit_send e g p)" "keeps scheduler_ok (scheduler_submit_receive e g)"
  "keeps scheduler_ok (scheduler_submit_select e g ps)" "keeps scheduler_ok (scheduler_submit_host e g h)"
  unfolding scheduler_submit_send_def scheduler_submit_receive_def scheduler_submit_select_def scheduler_submit_host_def
  by (intro keeps_sget_bind keeps_slift_bind no_panic_intros keeps_sbind keeps_sret scheduler_intros runtime_submit
      runtime_selects runtime_hosts)+

lemma scheduler_after [scheduler_intros]: "keeps scheduler_ok (after_cancellation op e g b)"
  unfolding after_cancellation_def
  by (cases op) (auto intro!: keeps_if keeps_sbind keeps_sret scheduler_intros)

lemma scheduler_others:
  "keeps scheduler_ok (scheduler_close_queue q)" "keeps scheduler_ok (scheduler_complete_host h g v)"
  "keeps scheduler_ok (scheduler_request_host_cancellation e g)" "keeps scheduler_ok (scheduler_request_cancellation e g)"
  "keeps scheduler_ok (scheduler_wake e op)"
  unfolding scheduler_close_queue_def scheduler_complete_host_def scheduler_request_host_cancellation_def
    scheduler_request_cancellation_def scheduler_wake_def
  by (intro keeps_sget_bind keeps_sbind keeps_sret scheduler_intros runtime_close runtime_hosts runtime_request runtime_turns;
      auto intro!: keeps_sbind keeps_sret scheduler_intros split: option.splits)+

lemma scheduler_installs:
  "queue_ok q \<Longrightarrow> keeps scheduler_ok (scheduler_install_queue q)"
  "kernel_ok ex \<Longrightarrow> keeps scheduler_ok (scheduler_install_execution i ex)"
  unfolding scheduler_install_queue_def scheduler_install_execution_def
  by (intro keeps_sbind scheduler_intros runtime_installs; assumption)+

section \<open>Rounds\<close>

lemma no_panic_from_async [no_panic_intros]: "no_panic (from_async_shape sh b)"
  unfolding from_async_shape_def into_typed_execution_def validate_backend_binding_def
  by (intro no_panic_rbind no_panic_intros no_panic_shape_validate no_panic_rfor)
    (auto simp: validate_backend_state_def intro!: no_panic_intros)

lemma start_round_ok: "scheduler_ok s \<Longrightarrow> scheduler_ok (start_round s)"
  by (auto simp: scheduler_ok_def start_round_def)

text \<open>One turn: the head of the ready queue leaves both the queue and the queued set, then it runs.\<close>

definition popped :: "TypedScheduler \<Rightarrow> TypedScheduler" where
  "popped s = s\<lparr>sc_ready := tl (sc_ready s), sc_queued := bts_difference (sc_queued s) [hd (sc_ready s)]\<rparr>"

definition run_popped :: "(64 word, nat) btmap \<Rightarrow> 64 word \<Rightarrow> (TypedScheduler, SchedulerEvent) sr" where
  "run_popped selections execution =
     sbind (on_runtime (case btm_get selections execution of
         Some transition \<Rightarrow> execution_mut_turn_selected execution transition
       | None \<Rightarrow> turn_execution execution)) (\<lambda>t.
     sbind reserve_sequence (\<lambda>sequence.
     sbind (if is_runnable t then enqueue_next execution else sret ()) (\<lambda>_.
     sret \<lparr>ev_sequence = sequence, ev_execution = execution, ev_turn = t\<rparr>)))"

lemma run_one_popped: "sc_ready s \<noteq> [] \<Longrightarrow> run_one sel s = run_popped sel (hd (sc_ready s)) (popped s)"
  by (cases "sc_ready s") (simp_all add: run_one_def run_popped_def pop_ready_def popped_def sbind_def)

lemma popped_ok: "scheduler_ok s \<Longrightarrow> sc_ready s \<noteq> [] \<Longrightarrow>
    scheduler_ok (popped s) \<and> hd (sc_ready s) \<notin> set (sc_queued (popped s))"
  by (cases "sc_ready s") (auto simp: scheduler_ok_def popped_def)

lemma run_popped_keeps: "keeps scheduler_ok (run_popped sel i)"
  unfolding run_popped_def
  by (intro keeps_sbind keeps_if keeps_sret scheduler_intros) (simp add: runtime_turns split: option.split)


lemma run_popped_ready: "run_popped sel i s = (r, s') \<Longrightarrow> sc_ready s' = sc_ready s"
  unfolding run_popped_def on_runtime_def reserve_sequence_def enqueue_next_def
  by (auto simp: sbind_def split: prod.splits if_splits sum.splits)

lemma run_times_keeps: "scheduler_ok s \<Longrightarrow> n \<le> length (sc_ready s) \<Longrightarrow> run_times sel n s = (r, s') \<Longrightarrow> scheduler_ok s' \<and> no_panic r"
proof (induction n arbitrary: s r s')
  case (Suc n)
  obtain i rest where ready: "sc_ready s = i # rest" using Suc.prems(2) by (cases "sc_ready s") auto
  obtain r1 s1 where 1: "run_one sel s = (r1, s1)" by (cases "run_one sel s")
  then have p: "run_popped sel i (popped s) = (r1, s1)" using run_one_popped[of s sel] ready by simp
  have ok: "scheduler_ok s1" "no_panic r1" using keepsD[OF run_popped_keeps _ p] popped_ok[OF Suc.prems(1)] ready by auto
  have len: "n \<le> length (sc_ready s1)" using run_popped_ready[OF p] ready Suc.prems(2) by (simp add: popped_def)
  show ?case
  proof (cases r1)
    case (Inl e)
    with 1 ok Suc.prems(3) show ?thesis by (auto simp: no_panic_def)
  next
    case (Inr ev)
    obtain r2 s2 where 2: "run_times sel n s1 = (r2, s2)" by (cases "run_times sel n s1")
    from Suc.IH[OF ok(1) len 2] 1 2 Inr Suc.prems(3) show ?thesis by (cases r2) auto
  qed
qed auto

lemma scheduler_round: "keeps scheduler_ok (run_round_selected sel)"
proof (rule keepsI)
  fix s r s' assume s: "scheduler_ok s" "run_round_selected sel s = (r, s')"
  then have "run_times sel (length (sc_ready (start_round s))) (start_round s) = (r, s')"
    by (simp add: run_round_selected_def)
  from run_times_keeps[OF start_round_ok[OF s(1)] _ this] show "scheduler_ok s' \<and> no_panic r" by simp
qed



section \<open>Who is ready\<close>

definition ready_ids :: "TypedQueueRuntime \<Rightarrow> 64 word set" where
  "ready_ids rt = {i. \<exists>ex. btm_get (rt_executions rt) i = Some ex \<and> ex_status ex = ReadyStatus}"

text \<open>Code that makes at most the executions \<open>W x\<close> ready when it returns \<open>x\<close>.\<close>

definition readies :: "('a \<Rightarrow> 64 word set) \<Rightarrow> (TypedQueueRuntime, 'a) sr \<Rightarrow> bool" where
  "readies W m \<longleftrightarrow> (\<forall>rt x rt'. runtime_ok rt \<longrightarrow> m rt = (Ok x, rt') \<longrightarrow> ready_ids rt' \<subseteq> ready_ids rt \<union> W x)"

named_theorems readies_intros \<open>which executions an operation makes ready\<close>



lemma readies_mono: "readies V m \<Longrightarrow> (\<And>x. V x \<subseteq> W x) \<Longrightarrow> readies W m"
  unfolding readies_def by blast


















section \<open>What the runtime makes ready\<close>

definition runnable_in :: "(64 word \<times> KernelTurn) list \<Rightarrow> 64 word set" where
  "runnable_in turns = {i. \<exists>t. (i, t) \<in> set turns \<and> is_runnable t}"

definition of_queue :: "QueueRuntimeResult \<Rightarrow> 64 word set" where
  "of_queue r = (case r of RuntimeBlocked \<Rightarrow> {} | RuntimeCommitted turns _ \<Rightarrow> runnable_in turns)"

definition of_select :: "QueueSelectResult \<Rightarrow> 64 word set" where
  "of_select r = (case r of SelectBlocked \<Rightarrow> {} | SelectCommitted _ turns _ \<Rightarrow> runnable_in turns)"

lemma runnable_in_simps [simp]: "runnable_in [] = {}"
  "runnable_in ((i, t) # ts) = (if is_runnable t then {i} else {}) \<union> runnable_in ts"
  by (auto simp: runnable_in_def)

lemma of_simps [simp]: "of_queue RuntimeBlocked = {}" "of_queue (RuntimeCommitted ts ds) = runnable_in ts"
  "of_select SelectBlocked = {}" "of_select (SelectCommitted a ts ds) = runnable_in ts"
  by (simp_all add: of_queue_def of_select_def)






















section \<open>Ready executions are queued\<close>

definition covered :: "TypedScheduler \<Rightarrow> bool" where
  "covered s \<longleftrightarrow> scheduler_ok s \<and> ready_ids (sc_runtime s) \<subseteq> set (sc_queued s)"


















lemma from_async_ok: "from_async_shape sh b = Ok ex \<Longrightarrow> kernel_ok ex"
  using execution_new_ok by (auto simp: from_async_shape_def result_simps kernel_of_def)






lemma no_panic_cat: "(\<And>e. e \<in> set es \<Longrightarrow> no_panic e) \<Longrightarrow> no_panic (cat es)"
  by (induction es) (auto intro!: no_panic_rbind)

lemma no_panic_push [no_panic_intros]: "no_panic (push_len n)"
  by (simp add: push_len_def)

lemma no_panic_push_list [no_panic_intros]: "(\<And>x. no_panic (f x)) \<Longrightarrow> no_panic (push_list f xs)"
  unfolding push_list_def by (intro no_panic_cat) (auto intro!: no_panic_cat no_panic_intros)

lemma no_panic_u32s [no_panic_intros]: "no_panic (push_u32s xs)"
  unfolding push_u32s_def by (intro no_panic_intros)

lemma no_panic_encode_parts:
  "no_panic (encode_lane l)" "no_panic (encode_edge e)" "no_panic (encode_queue q)" "no_panic (encode_arm a)"
  unfolding encode_lane_def encode_edge_def encode_queue_def encode_arm_def encode_actions_def
  by (rule no_panic_cat, auto intro!: no_panic_intros)+

lemma no_panic_encode_shape: "no_panic (encode_shape sh)"
proof -
  have "no_panic (encode_state st)" "no_panic (encode_operation op)" for st op
    unfolding encode_state_def encode_operation_def
    by (rule no_panic_cat, auto intro!: no_panic_intros no_panic_encode_parts)+
  then show ?thesis unfolding encode_shape_def
    by (intro no_panic_cat) (auto intro!: no_panic_intros no_panic_encode_parts)
qed

lemma no_panic_into_typed [no_panic_intros]: "no_panic (into_typed_execution sh b)"
  unfolding into_typed_execution_def validate_backend_binding_def
  by (intro no_panic_rbind no_panic_intros no_panic_shape_validate no_panic_rfor)
    (auto simp: validate_backend_state_def intro!: no_panic_intros)

lemma no_panic_structure [no_panic_intros]: "no_panic (validate_structure p)"
proof -
  have "no_panic (validate_async_state sh x)" for sh x
    by (cases x) (auto simp: validate_async_state_def validate_edge_condition_def intro!: no_panic_intros
        split: ExecutionEdgeCondition.splits)
  moreover have "no_panic (validate_async_operation sh x)" for sh x
    by (cases x) (auto simp: validate_async_operation_def validate_async_arm_def intro!: no_panic_intros)
  moreover have "no_panic (validate_async_cancellation sh)" for sh
    by (auto simp: validate_async_cancellation_def intro!: no_panic_intros split: option.splits)
  ultimately have "no_panic (validate_async_shape x)" for x
    by (cases x) (auto simp: validate_async_shape_def intro!: no_panic_intros)
  then show ?thesis unfolding validate_structure_def by (intro no_panic_intros)
qed

lemma no_panic_program [no_panic_intros]: "no_panic (program_validate blake3 p)"
  unfolding program_validate_def computed_fingerprint_def canonical_bytes_def
  by (intro no_panic_rbind no_panic_if no_panic_intros no_panic_cat)
    (auto intro!: no_panic_intros no_panic_encode_shape)

lemma scheduler_program: "keeps scheduler_ok (install_program_execution blake3 p sh e b)"
proof -
  show ?thesis unfolding install_program_execution_def
    by (intro keeps_slift_bind keeps_if keeps_serr keeps_sbind keeps_sfor keeps_sget_bind keeps_sret scheduler_installs
        queue_new_ok from_async_ok no_panic_intros)
qed





section \<open>Runs\<close>

datatype scheduler_call =
    InstallQueueCall QueueShape
  | InstallExecutionCall "64 word" TypedExecutionShape
  | InstallProgramCall AsyncProgram ExecutionShapeId "64 word" AsyncBackendBinding
  | RoundCall "(64 word, nat) btmap"
  | AdmitTurnsCall "(64 word \<times> KernelTurn) list"
  | SendCallAt "64 word" "64 word" QueuePayload
  | ReceiveCallAt "64 word" "64 word"
  | SelectCallAt "64 word" "64 word" "(32 word, QueuePayload) btmap"
  | CloseCallAt QueueShapeId
  | HostSubmitCall "64 word" "64 word" "64 word"
  | HostCompleteCall "64 word" "64 word"
  | HostCancelCall "64 word" "64 word"
  | CancelCallAt "64 word" "64 word"
  | WakeCallAt "64 word" OperationSiteId

fun scheduler_perform :: "(bytes \<Rightarrow> bytes) \<Rightarrow> scheduler_call \<Rightarrow> (TypedScheduler, unit) sr" where
  "scheduler_perform h (InstallQueueCall shape) = scheduler_install_queue (queue_new shape)"
| "scheduler_perform h (InstallExecutionCall i shape) = sbind (slift (execution_new shape)) (scheduler_install_execution i)"
| "scheduler_perform h (InstallProgramCall p sh e b) = install_program_execution h p sh e b"
| "scheduler_perform h (RoundCall sel) = discard (run_round_selected sel)"
| "scheduler_perform h (AdmitTurnsCall ts) = admit_turns ts"
| "scheduler_perform h (SendCallAt e g p) = discard (scheduler_submit_send e g p)"
| "scheduler_perform h (ReceiveCallAt e g) = discard (scheduler_submit_receive e g)"
| "scheduler_perform h (SelectCallAt e g ps) = discard (scheduler_submit_select e g ps)"
| "scheduler_perform h (CloseCallAt q) = discard (scheduler_close_queue q)"
| "scheduler_perform h (HostSubmitCall e g t) = discard (scheduler_submit_host e g t)"
| "scheduler_perform h (HostCompleteCall t g) = discard (scheduler_complete_host t g ())"
| "scheduler_perform h (HostCancelCall e g) = discard (scheduler_request_host_cancellation e g)"
| "scheduler_perform h (CancelCallAt e g) = discard (scheduler_request_cancellation e g)"
| "scheduler_perform h (WakeCallAt e op) = scheduler_wake e op"

lemma scheduler_perform_keeps: "keeps scheduler_ok (scheduler_perform h c)"
proof (cases c)
  case (InstallExecutionCall i sh)
  have "kernel_ok ex" if "execution_new sh = Ok ex" for ex using execution_new_ok[OF that] by (simp add: kernel_of_def)
  with InstallExecutionCall show ?thesis by simp (intro keeps_slift_bind scheduler_installs no_panic_intros)
qed (simp_all add: keeps_discard scheduler_installs queue_new_ok scheduler_program scheduler_round scheduler_admit_turns
    scheduler_submits scheduler_others)

interpretation scheduler: steadfast scheduler_ok "scheduler_perform h" for h
  by unfold_locales (rule scheduler_perform_keeps)

lemma scheduler_new_covered: "covered scheduler_new"
proof -
  have "ready_ids runtime_default = {}" by (simp add: ready_ids_def runtime_default_def)
  then show ?thesis unfolding covered_def scheduler_ok_def scheduler_new_def by (simp add: runtime_default_ok)
qed




text \<open>Between rounds nothing is left in the ready queue: only a round moves executions into it.\<close>

definition spares_ready :: "(TypedScheduler, 'a) sr \<Rightarrow> bool" where
  "spares_ready m \<longleftrightarrow> (\<forall>s r s'. m s = (r, s') \<longrightarrow> sc_ready s' = sc_ready s)"

named_theorems spares_intros \<open>operations that leave the ready queue alone\<close>

lemma spares_leaves [spares_intros]:
  "spares_ready (sret x)" "spares_ready (serr e)" "spares_ready (slift r)" "spares_ready sget"
  "spares_ready (on_runtime m)" "spares_ready (enqueue_next i)" "spares_ready (record_admission op g res)"
  by (auto simp: spares_ready_def on_runtime_def enqueue_next_def record_admission_def split: prod.splits if_splits)

lemma spares_bind [spares_intros]: "spares_ready m \<Longrightarrow> (\<And>x. spares_ready (f x)) \<Longrightarrow> spares_ready (sbind m f)"
  unfolding spares_ready_def sbind_def by (auto split: prod.splits sum.splits)

lemma spares_if [spares_intros]: "spares_ready m \<Longrightarrow> spares_ready n \<Longrightarrow> spares_ready (if b then m else n)"
  by simp

lemma spares_sfor [spares_intros]: "(\<And>x. spares_ready (f x)) \<Longrightarrow> spares_ready (sfor f xs)"
  by (induction xs) (auto simp only: sfor.simps intro!: spares_intros)

lemma spares_admit [spares_intros]:
  "spares_ready (admit_turns ts)" "spares_ready (admit_queue_result q)" "spares_ready (admit_select_result r)"
proof -
  show ts: "spares_ready (admit_turns ts)" for ts
    unfolding admit_turns_def by (auto simp only: split_def intro!: spares_intros)
  show "spares_ready (admit_queue_result q)"
    unfolding admit_queue_result_def by (split QueueRuntimeResult.split) (intro conjI allI impI ts spares_leaves)
  show "spares_ready (admit_select_result r)"
    unfolding admit_select_result_def by (split QueueSelectResult.split) (intro conjI allI impI ts spares_leaves)
qed

lemma spares_admit_or_record [spares_intros]: "spares_ready (admit_or_record op g m)"
  unfolding spares_ready_def
proof (intro allI impI)
  fix s r s' assume run: "admit_or_record op g m s = (r, s')"
  obtain r1 s1 where 1: "on_runtime m s = (r1, s1)" by (cases "on_runtime m s")
  have ready: "sc_ready s1 = sc_ready s" using 1 by (auto simp: on_runtime_def split: prod.splits)
  with run 1 show "sc_ready s' = sc_ready s"
    by (auto simp: admit_or_record_def record_admission_def sbind_def split: sum.splits fault.splits if_splits)
qed

lemma spares_after [spares_intros]: "spares_ready (after_cancellation op e g b)"
  unfolding after_cancellation_def by (cases op) (simp_all only: option.case spares_intros)







section \<open>Properties\<close>

text \<open>
  C27: The scheduler never panics: after any sequence of installs, rounds, admissions, queue and host
  operations, cancellations and wakes, failed calls included, the queued set is exactly the content of
  the two ready queues, no execution is queued twice, and the runtime invariant holds.
\<close>

theorem scheduler_never_panics:
  "list_all no_panic (fst (performs (scheduler_perform blake3) calls scheduler_new))
     \<and> scheduler_ok (snd (performs (scheduler_perform blake3) calls scheduler_new))"
  by (rule scheduler.performs_ok) (use scheduler_new_covered in \<open>simp add: covered_def\<close>)

text \<open>Two executions for the examples: one that stays ready for ever, one that completes in its first turn.\<close>

definition one_state_shape :: "ExecutionOutcome \<Rightarrow> TypedExecutionShape" where
  "one_state_shape outcome = \<lparr>te_id = 0, te_mode = NormalMode, te_entry = 0, te_frame = [], te_result_lanes = [],
     te_states = [\<lparr>es_id = 0, es_transitions = [\<lparr>tr_condition = Always, tr_actions = [], tr_outcome = outcome\<rparr>]\<rparr>],
     te_operations = [], te_queues = [], te_cancellation = None\<rparr>"










text \<open>
  A turn that fails is a different matter: a branching execution that has no selection is reported as an
  error, stays ready, and is in no queue any more, so no later round runs it.
\<close>

definition branching_shape :: TypedExecutionShape where
  "branching_shape = (one_state_shape CompleteOutcome)\<lparr>
     te_frame := [\<lparr>fl_id = 0, fl_ty = Named ''Bool'' [], fl_ownership = CopyLane, fl_initially_initialized = True\<rparr>],
     te_states := [\<lparr>es_id = 0, es_transitions = map (\<lambda>b. \<lparr>tr_condition = BooleanEdge 0 b, tr_actions = [],
       tr_outcome = CompleteOutcome\<rparr>) [True, False]\<rparr>]\<rparr>"

lemma failed_turn_strands_execution:
  "case performs (scheduler_perform (\<lambda>bs. bs)) [InstallExecutionCall 4 branching_shape, RoundCall [], RoundCall [(4, 0)]] scheduler_new of
     (results, s) \<Rightarrow> map isl results = [False, True, False] \<and> sc_ready s @ sc_next_round s = []
       \<and> map_option ex_status (btm_get (rt_executions (sc_runtime s)) 4) = Some ReadyStatus"
  by code_simp

end
