(* ===== verification/Ip_Addr.thy ===== *)
theory Ip_Addr
  imports Witchy_Prelude
begin

text \<open>
  The part of \<open>std::net\<close> that the network policy calls: parsing and printing of IPv4 and IPv6
  addresses and printing of socket addresses. The parsers follow the standard library's recursive
  descent: a reader consumes a prefix of the text or fails without consuming anything. Addresses are
  words, most significant group first, as \<open>u32::from\<close> and \<open>u128::from\<close> read them. The lemmas give the
  round trip of printing and parsing for both families and the insensitivity of parsing to ASCII case.
\<close>

unbundle bit_operations_syntax

type_synonym Ipv4Addr = "32 word"
type_synonym Ipv6Addr = "128 word"

section \<open>Digits and numbers\<close>

text \<open>\<open>char::to_digit(16)\<close>; decimal digits are those below ten.\<close>

definition hex_value :: "char \<Rightarrow> nat option" where
  "hex_value c =
     (let n = ascii_code c in
      if 48 \<le> n \<and> n \<le> 57 then Some (n - 48)
      else if 97 \<le> n \<and> n \<le> 102 then Some (n - 87)
      else if 65 \<le> n \<and> n \<le> 70 then Some (n - 55)
      else None)"

definition to_digit :: "nat \<Rightarrow> char \<Rightarrow> nat option" where
  "to_digit radix c = (case hex_value c of Some d \<Rightarrow> if d < radix then Some d else None | None \<Rightarrow> None)"

definition is_digit :: "nat \<Rightarrow> char \<Rightarrow> bool" where
  "is_digit radix c \<longleftrightarrow> to_digit radix c \<noteq> None"

definition radix_value :: "nat \<Rightarrow> string \<Rightarrow> nat" where
  "radix_value radix = foldl (\<lambda>a c. a * radix + (case to_digit radix c of Some d \<Rightarrow> d | None \<Rightarrow> 0)) 0"

text \<open>
  \<open>Parser::read_number\<close>: all leading digits, at least one, at most \<open>max_digits\<close>, without overflow and,
  unless allowed, without a redundant leading zero.
\<close>

definition read_number :: "nat \<Rightarrow> nat \<Rightarrow> bool \<Rightarrow> nat \<Rightarrow> string \<Rightarrow> (nat \<times> string) option" where
  "read_number radix max_digits allow_zero_prefix bound s =
     (let ds = takeWhile (is_digit radix) s in
      if ds = [] \<or> max_digits < length ds \<or> bound \<le> radix_value radix ds
         \<or> (\<not> allow_zero_prefix \<and> hd ds = CHR ''0'' \<and> 1 < length ds)
      then None
      else Some (radix_value radix ds, dropWhile (is_digit radix) s))"

definition read_given_char :: "char \<Rightarrow> string \<Rightarrow> string option" where
  "read_given_char c s = (case s of [] \<Rightarrow> None | x # xs \<Rightarrow> if x = c then Some xs else None)"

definition read_separator :: "char \<Rightarrow> nat \<Rightarrow> (string \<Rightarrow> ('a \<times> string) option) \<Rightarrow> string \<Rightarrow> ('a \<times> string) option" where
  "read_separator sep i inner s =
     (if 0 < i then (case read_given_char sep s of None \<Rightarrow> None | Some r \<Rightarrow> inner r) else inner s)"

section \<open>IPv4\<close>

fun read_octets :: "nat \<Rightarrow> nat \<Rightarrow> string \<Rightarrow> (nat list \<times> string) option" where
  "read_octets i 0 s = Some ([], s)"
| "read_octets i (Suc n) s =
     (case read_separator CHR ''.'' i (read_number 10 3 False 256) s of
        None \<Rightarrow> None
      | Some (octet, r) \<Rightarrow> map_option (\<lambda>(os, r'). (octet # os, r')) (read_octets (Suc i) n r))"

definition read_ipv4_addr :: "string \<Rightarrow> (nat list \<times> string) option" where
  "read_ipv4_addr = read_octets 0 4"

definition be_value :: "nat \<Rightarrow> nat list \<Rightarrow> nat" where
  "be_value base = foldl (\<lambda>a d. a * base + d) 0"

fun be_digits :: "nat \<Rightarrow> nat \<Rightarrow> nat \<Rightarrow> nat list" where
  "be_digits base 0 x = []"
| "be_digits base (Suc k) x = be_digits base k (x div base) @ [x mod base]"

definition parse_ipv4 :: "string \<Rightarrow> Ipv4Addr option" where
  "parse_ipv4 s =
     (if 15 < length s then None
      else (case read_ipv4_addr s of Some (os, []) \<Rightarrow> Some (word_of_nat (be_value 256 os)) | _ \<Rightarrow> None))"

definition octets :: "Ipv4Addr \<Rightarrow> nat list" where
  "octets ip = be_digits 256 4 (unat ip)"

definition show_ipv4 :: "Ipv4Addr \<Rightarrow> string" where
  "show_ipv4 ip = join_with ''.'' (map show_nat (octets ip))"

section \<open>IPv6\<close>

text \<open>\<open>read_groups\<close> from its \<open>i\<close>-th slot on, with the number of slots left.\<close>

fun read_groups :: "nat \<Rightarrow> nat \<Rightarrow> string \<Rightarrow> nat list \<times> bool \<times> string" where
  "read_groups i 0 s = ([], False, s)"
| "read_groups i (Suc n) s =
     (case (if 0 < n then read_separator CHR '':'' i read_ipv4_addr s else None) of
        Some (os, r) \<Rightarrow> ([be_value 256 (take 2 os), be_value 256 (drop 2 os)], True, r)
      | None \<Rightarrow>
          (case read_separator CHR '':'' i (read_number 16 4 True 65536) s of
             None \<Rightarrow> ([], False, s)
           | Some (g, r) \<Rightarrow> (case read_groups (Suc i) n r of (gs, v4, r') \<Rightarrow> (g # gs, v4, r'))))"

definition read_ipv6_addr :: "string \<Rightarrow> (nat list \<times> string) option" where
  "read_ipv6_addr s =
     (case read_groups 0 8 s of (head, head_ipv4, r) \<Rightarrow>
        if length head = 8 then Some (head, r)
        else if head_ipv4 then None
        else (case read_given_char CHR '':'' r of None \<Rightarrow> None | Some r1 \<Rightarrow>
             (case read_given_char CHR '':'' r1 of None \<Rightarrow> None | Some r2 \<Rightarrow>
             (case read_groups 0 (8 - (length head + 1)) r2 of (tail, _, r3) \<Rightarrow>
                Some (head @ replicate (8 - length head - length tail) 0 @ tail, r3)))))"

definition parse_ipv6 :: "string \<Rightarrow> Ipv6Addr option" where
  "parse_ipv6 s = (case read_ipv6_addr s of Some (gs, []) \<Rightarrow> Some (word_of_nat (be_value 65536 gs)) | _ \<Rightarrow> None)"

definition segments :: "Ipv6Addr \<Rightarrow> nat list" where
  "segments ip = be_digits 65536 8 (unat ip)"

definition to_ipv4_mapped :: "Ipv6Addr \<Rightarrow> Ipv4Addr option" where
  "to_ipv4_mapped ip = (if drop_bit 32 ip = 65535 then Some (ucast ip) else None)"

definition hex_digit :: "nat \<Rightarrow> char" where
  "hex_digit n = char_of (if n < 10 then n + 48 else n + 87)"

fun show_hex :: "nat \<Rightarrow> string" where
  "show_hex n = (if n < 16 then [hex_digit n] else show_hex (n div 16) @ [hex_digit (n mod 16)])"

declare show_hex.simps [simp del]

definition fmt_groups :: "nat list \<Rightarrow> string" where
  "fmt_groups gs = join_with '':'' (map show_hex gs)"

text \<open>The first longest run of zero groups, as start and length: current run, longest run, position.\<close>

fun zero_run :: "nat list \<Rightarrow> nat \<Rightarrow> nat \<times> nat \<Rightarrow> nat \<times> nat \<Rightarrow> nat \<times> nat" where
  "zero_run [] i cur longest = longest"
| "zero_run (g # gs) i (start, len) longest =
     (if g = 0 then
        (let cur = (if len = 0 then i else start, len + 1)
         in zero_run gs (Suc i) cur (if snd longest < snd cur then cur else longest))
      else zero_run gs (Suc i) (0, 0) longest)"

definition show_ipv6 :: "Ipv6Addr \<Rightarrow> string" where
  "show_ipv6 ip =
     (case to_ipv4_mapped ip of
        Some v4 \<Rightarrow> ''::ffff:'' @ show_ipv4 v4
      | None \<Rightarrow> (case zero_run (segments ip) 0 (0, 0) (0, 0) of (start, len) \<Rightarrow>
          if 1 < len then fmt_groups (take start (segments ip)) @ ''::'' @ fmt_groups (drop (start + len) (segments ip))
          else fmt_groups (segments ip)))"

section \<open>Socket addresses\<close>

datatype IpAddr = V4 Ipv4Addr | V6 Ipv6Addr

text \<open>\<open>SocketAddr\<close>: the flow information of a version 6 address is not part of its printed form.\<close>

datatype SocketAddr =
    SocketV4 Ipv4Addr "16 word"
  | SocketV6 Ipv6Addr "16 word" (scope_id: "32 word")

fun socket_ip :: "SocketAddr \<Rightarrow> IpAddr" where
  "socket_ip (SocketV4 ip _) = V4 ip"
| "socket_ip (SocketV6 ip _ _) = V6 ip"

fun show_socket :: "SocketAddr \<Rightarrow> string" where
  "show_socket (SocketV4 ip port) = show_ipv4 ip @ '':'' @ show_nat (unat port)"
| "show_socket (SocketV6 ip port scope) =
     ''['' @ show_ipv6 ip @ (if scope = 0 then [] else ''%'' @ show_nat (unat scope)) @ '']:'' @ show_nat (unat port)"

section \<open>Digits\<close>

lemma be_value_snoc: "be_value base (ds @ [d]) = be_value base ds * base + d"
  by (simp add: be_value_def)

lemma be_digits_facts:
  assumes "0 < base"
  shows "length (be_digits base k x) = k" "d \<in> set (be_digits base k x) \<Longrightarrow> d < base"
    "be_value base (be_digits base k x) = x mod base ^ k"
proof -
  show "length (be_digits base k x) = k" by (induction k arbitrary: x) simp_all
  show "d \<in> set (be_digits base k x) \<Longrightarrow> d < base" using assms by (induction k arbitrary: x) auto
  show "be_value base (be_digits base k x) = x mod base ^ k"
  proof (induction k arbitrary: x)
    case (Suc k)
    then show ?case by (simp add: be_value_snoc mod_mult2_eq mult.commute)
  qed (simp add: be_value_def)
qed

lemma to_digit_facts:
  "is_digit radix c \<longleftrightarrow> (\<exists>d. hex_value c = Some d \<and> d < radix)"
  by (auto simp: is_digit_def to_digit_def split: option.splits if_splits)

lemma is_digit_ascii: "is_digit 10 c \<longleftrightarrow> is_ascii_digit c"
  by (auto simp: to_digit_facts hex_value_def is_ascii_digit_def Let_def split: if_splits)

lemma separators_no_digits [simp]:
  "\<not> is_digit r CHR '':''" "\<not> is_digit r CHR ''.''" "\<not> is_digit r CHR '']''" "\<not> is_digit r CHR ''/''" "\<not> is_digit r CHR ''[''"
  by (simp_all add: to_digit_facts hex_value_def ascii_code_def)

lemma hex_digit_facts:
  assumes "n < 16"
  shows "hex_value (hex_digit n) = Some n" "is_digit 16 (hex_digit n)" "to_digit 16 (hex_digit n) = Some n"
    "hex_digit n \<noteq> CHR ''.''"
proof -
  show h: "hex_value (hex_digit n) = Some n"
    using assms by (auto simp: hex_value_def hex_digit_def ascii_code_char_of Let_def)
  then show "is_digit 16 (hex_digit n)" "to_digit 16 (hex_digit n) = Some n"
    using assms by (simp_all add: to_digit_facts to_digit_def)
  show "hex_digit n \<noteq> CHR ''.''" using h by (auto simp: hex_value_def ascii_code_def)
qed

lemma radix_value_snoc: "radix_value r (ds @ [c]) = radix_value r ds * r + (case to_digit r c of Some d \<Rightarrow> d | None \<Rightarrow> 0)"
  by (simp add: radix_value_def)

lemma show_hex_facts: "show_hex n \<noteq> [] \<and> list_all (is_digit 16) (show_hex n) \<and> radix_value 16 (show_hex n) = n \<and> CHR ''.'' \<notin> set (show_hex n)"
proof (induction n rule: show_hex.induct)
  case (1 n)
  show ?case
  proof (cases "n < 16")
    case True
    then show ?thesis
      using radix_value_snoc[of 16 "[]"] by (simp add: show_hex.simps[of n] hex_digit_facts radix_value_def neq_commute)
  next
    case False
    with 1 show ?thesis by (simp add: show_hex.simps[of n] hex_digit_facts radix_value_snoc neq_commute)
  qed
qed

lemma show_hex_length: "n < 16 ^ Suc k \<Longrightarrow> length (show_hex n) \<le> Suc k"
proof (induction k arbitrary: n)
  case (Suc k)
  then show ?case using Suc.IH[of "n div 16"] by (simp add: show_hex.simps[of n] less_mult_imp_div_less)
qed (simp add: show_hex.simps)

lemma read_number_app:
  assumes "list_all (is_digit r) ds" "ds \<noteq> []" "rest = [] \<or> \<not> is_digit r (hd rest)"
    "length ds \<le> m" "radix_value r ds < b" "z \<or> hd ds = CHR ''0'' \<longrightarrow> z \<or> length ds = 1"
  shows "read_number r m z b (ds @ rest) = Some (radix_value r ds, rest)"
proof -
  have "takeWhile (is_digit r) rest = [] \<and> dropWhile (is_digit r) rest = rest" using assms(3) by (cases rest) auto
  then have "takeWhile (is_digit r) (ds @ rest) = ds" "dropWhile (is_digit r) (ds @ rest) = rest"
    using assms(1) by (simp_all add: list_all_iff)
  with assms show ?thesis by (auto simp: read_number_def Let_def)
qed

lemma read_number_none: "s = [] \<or> \<not> is_digit r (hd s) \<Longrightarrow> read_number r m z b s = None"
  by (cases s) (auto simp: read_number_def)

lemma read_hex_group: "g < 65536 \<Longrightarrow> rest = [] \<or> \<not> is_digit 16 (hd rest) \<Longrightarrow>
    read_number 16 4 True 65536 (show_hex g @ rest) = Some (g, rest)"
  using read_number_app[of 16 "show_hex g" rest 4 65536 True] show_hex_facts[of g] show_hex_length[of g 3] by simp

text \<open>Decimal numbers as \<open>Display\<close> writes them.\<close>

lemma show_nat_length: "n < 10 ^ Suc k \<Longrightarrow> length (show_nat n) \<le> Suc k"
proof (induction k arbitrary: n)
  case (Suc k)
  then show ?case using Suc.IH[of "n div 10"] by (simp add: show_nat.simps[of n] less_mult_imp_div_less)
qed (simp add: show_nat.simps)

lemma show_nat_first: "0 < n \<Longrightarrow> hd (show_nat n) \<noteq> CHR ''0''"
proof (induction n rule: show_nat.induct)
  case (1 n)
  have "digit_char n \<noteq> CHR ''0''" if "n < 10" using that 1(2) digit_char_facts(3)[OF that] by (auto simp: ascii_code_def)
  with 1 show_nat_digits[of "n div 10"] show ?case by (simp add: show_nat.simps[of n])
qed

lemma radix_value_show_nat: "radix_value 10 (show_nat n) = n"
proof (induction n rule: show_nat.induct)
  case (1 n)
  have d: "to_digit 10 (digit_char d) = Some d" if "d < 10" for d
    using that digit_char_facts(3)[OF that] by (simp add: to_digit_def hex_value_def)
  show ?case using 1 d radix_value_snoc[of 10 "[]"] by (simp add: show_nat.simps[of n] radix_value_snoc radix_value_def)
qed

lemma read_octet:
  assumes "n < 256" "rest = [] \<or> \<not> is_digit 10 (hd rest)"
  shows "read_number 10 3 False 256 (show_nat n @ rest) = Some (n, rest)"
proof -
  have "length (show_nat n) = 1" if "hd (show_nat n) = CHR ''0''"
    using that show_nat_first[of n] by (cases "n = 0") (simp_all add: show_nat.simps)
  moreover have "length (show_nat n) \<le> 3" using show_nat_length[of n 2] assms(1) by simp
  ultimately show ?thesis
    using read_number_app[of 10 "show_nat n" rest 3 256 False] show_nat_digits[of n] assms
    by (simp add: is_digit_ascii[abs_def] radix_value_show_nat)
qed

section \<open>IPv4 round trip\<close>

lemma octets_cases:
  obtains a b c d where "octets ip = [a, b, c, d]" "a < 256" "b < 256" "c < 256" "d < 256"
proof -
  have "length (octets ip) = 4" "\<And>d. d \<in> set (octets ip) \<Longrightarrow> d < 256"
    unfolding octets_def using be_digits_facts[of 256] by auto
  then show thesis using that by (auto simp: numeral_eq_Suc length_Suc_conv)
qed

lemma octets_value: "word_of_nat (be_value 256 (octets ip)) = ip"
proof -
  have "unat ip < 2 ^ 32" using unat_less_pow[of ip] by simp
  then show ?thesis unfolding octets_def by (simp add: be_digits_facts)
qed

lemma read_ipv4_addr_unfold: "read_ipv4_addr = read_octets 0 (Suc (Suc (Suc (Suc 0))))"
  by (simp add: read_ipv4_addr_def numeral_eq_Suc)

lemma read_show_ipv4:
  assumes "rest = [] \<or> \<not> is_digit 10 (hd rest)"
  shows "read_ipv4_addr (show_ipv4 ip @ rest) = Some (octets ip, rest)"
proof -
  obtain a b c d where o: "octets ip = [a, b, c, d]" "a < 256" "b < 256" "c < 256" "d < 256" by (rule octets_cases)
  show ?thesis using assms o
    by (simp add: read_ipv4_addr_unfold show_ipv4_def read_separator_def read_given_char_def read_octet)
qed

lemma parse_show_ipv4: "parse_ipv4 (show_ipv4 ip) = Some ip"
proof -
  obtain a b c d where o: "octets ip = [a, b, c, d]" "a < 256" "b < 256" "c < 256" "d < 256" by (rule octets_cases)
  have "length (show_ipv4 ip) \<le> 15"
    using show_nat_length[of a 2] show_nat_length[of b 2] show_nat_length[of c 2] show_nat_length[of d 2] o
    by (simp add: show_ipv4_def)
  then show ?thesis using read_show_ipv4[of "[]" ip] by (simp add: parse_ipv4_def octets_value)
qed

section \<open>IPv6 round trip\<close>

lemma read_number_rest: "read_number r m z b s = Some (n, t) \<Longrightarrow> set t \<subseteq> set s"
  by (auto simp: read_number_def Let_def split: if_splits dest: set_dropWhileD)

lemma read_ipv4_no_dot: "CHR ''.'' \<notin> set s \<Longrightarrow> read_ipv4_addr s = None"
  using read_number_rest[of 10 3 False 256 s]
  by (cases "read_number 10 3 False 256 s")
    (auto simp: read_ipv4_addr_unfold read_separator_def read_given_char_def split: list.splits)

text \<open>Groups as they are printed after \<open>i\<close> earlier ones.\<close>

definition group_text :: "nat \<Rightarrow> nat list \<Rightarrow> string" where
  "group_text i gs = (if 0 < i \<and> gs \<noteq> [] then '':'' else []) @ fmt_groups gs"

lemma group_text_simps: "group_text i [] = []"
    "group_text i (g # gs) = (if 0 < i then '':'' else []) @ show_hex g @ group_text (Suc i) gs"
  by (cases gs; simp add: group_text_def fmt_groups_def)+

lemma group_text_no_dot: "CHR ''.'' \<notin> set (group_text i gs)"
  using show_hex_facts by (induction gs arbitrary: i) (auto simp: group_text_simps)

lemma group_text_tail:
  "rest = [] \<or> (\<exists>t. rest = CHR '':'' # CHR '':'' # t) \<Longrightarrow> 0 < i \<Longrightarrow>
    group_text i gs @ rest = [] \<or> \<not> is_digit 16 (hd (group_text i gs @ rest))"
  by (cases gs) (auto simp: group_text_simps)

lemma read_separator_group: "read_separator CHR '':'' i inner (group_text i (g # gs) @ rest) =
    inner (show_hex g @ group_text (Suc i) gs @ rest)"
  by (simp add: group_text_simps read_separator_def read_given_char_def)

lemma read_groups_text:
  assumes "\<forall>g \<in> set gs. g < 65536" "length gs \<le> n" "CHR ''.'' \<notin> set rest"
    "rest = [] \<or> (\<exists>t. rest = CHR '':'' # CHR '':'' # t)"
  shows "read_groups i n (group_text i gs @ rest) = (gs, False, rest)"
  using assms(1,2)
proof (induction gs arbitrary: i n)
  case Nil
  have v4: "read_separator CHR '':'' i read_ipv4_addr rest = None"
    using assms(3,4) read_ipv4_no_dot by (auto simp: read_separator_def read_given_char_def split: option.splits list.splits)
  have "read_separator CHR '':'' i (read_number 16 4 True 65536) rest = None"
    using assms(4) by (auto simp: read_separator_def read_given_char_def read_number_none)
  with v4 show ?case by (cases n) (simp_all add: group_text_simps)
next
  case (Cons g gs)
  then obtain n' where n: "n = Suc n'" "length gs \<le> n'" by (cases n) auto
  let ?rest = "group_text (Suc i) gs @ rest"
  have nodot: "CHR ''.'' \<notin> set (show_hex g @ ?rest)" using show_hex_facts group_text_no_dot assms(3) by auto
  have hex: "read_number 16 4 True 65536 (show_hex g @ ?rest) = Some (g, ?rest)"
    using Cons.prems group_text_tail[OF assms(4)] by (intro read_hex_group) auto
  have "read_groups (Suc i) n' ?rest = (gs, False, rest)" using Cons n by simp
  with hex read_ipv4_no_dot[OF nodot] show ?case
    by (simp only: n(1) read_groups.simps read_separator_group option.case prod.case if_cancel)
qed

lemma read_groups_fmt:
  assumes "\<forall>g \<in> set gs. g < 65536" "length gs \<le> n" "CHR ''.'' \<notin> set rest"
    "rest = [] \<or> (\<exists>t. rest = CHR '':'' # CHR '':'' # t)"
  shows "read_groups 0 n (fmt_groups gs @ rest) = (gs, False, rest)"
  using read_groups_text[OF assms, of 0] by (simp add: group_text_def)

text \<open>A run of zeros: it lies within the groups and holds only zeros.\<close>

definition zeros_at :: "nat list \<Rightarrow> nat \<times> nat \<Rightarrow> bool" where
  "zeros_at xs run \<longleftrightarrow> fst run + snd run \<le> length xs \<and> take (snd run) (drop (fst run) xs) = replicate (snd run) 0"

lemma zeros_at_snoc: "zeros_at xs run \<Longrightarrow> zeros_at (xs @ [x]) run"
  by (auto simp: zeros_at_def)

lemma zero_run_zeros:
  "zeros_at pre longest \<Longrightarrow> zeros_at pre cur \<Longrightarrow> snd cur = 0 \<or> fst cur + snd cur = length pre \<Longrightarrow>
    zeros_at (pre @ gs) (zero_run gs (length pre) cur longest)"
proof (induction gs arbitrary: pre cur longest)
  case (Cons g gs)
  obtain start len where cur: "cur = (start, len)" by (cases cur)
  let ?next = "(if len = 0 then length pre else start, len + 1)"
  have grown: "zeros_at (pre @ [0]) ?next"
    using Cons.prems cur by (auto simp: zeros_at_def replicate_append_same)
  show ?case
  proof (cases "g = 0")
    case True
    have "zeros_at (pre @ [g]) (if snd longest < snd ?next then ?next else longest)"
      using grown zeros_at_snoc[OF Cons.prems(1)] True by auto
    from Cons.IH[OF this, of ?next] grown Cons.prems(3) True cur show ?thesis by (auto simp: Let_def)
  next
    case False
    have "zeros_at (pre @ [g]) (0, 0)" by (simp add: zeros_at_def)
    from Cons.IH[OF zeros_at_snoc[OF Cons.prems(1)] this] False cur show ?thesis by simp
  qed
qed simp

lemma segments_facts: "length (segments ip) = 8" "\<forall>g \<in> set (segments ip). g < 65536"
    "word_of_nat (be_value 65536 (segments ip)) = ip"
proof -
  show "length (segments ip) = 8" "\<forall>g \<in> set (segments ip). g < 65536"
    unfolding segments_def using be_digits_facts[of 65536] by auto
  have "unat ip < 2 ^ 128" using unat_less_pow[of ip] by simp
  then show "word_of_nat (be_value 65536 (segments ip)) = ip" unfolding segments_def by (simp add: be_digits_facts)
qed

lemma read_compressed:
  assumes gs: "\<forall>g \<in> set gs. g < 65536" "length gs = 8" "zeros_at gs (start, len)" "1 < len"
  shows "read_ipv6_addr (fmt_groups (take start gs) @ ''::'' @ fmt_groups (drop (start + len) gs)) = Some (gs, [])"
proof -
  let ?head = "take start gs" and ?tail = "drop (start + len) gs"
  have small: "\<forall>g \<in> set ?head. g < 65536" "\<forall>g \<in> set ?tail. g < 65536"
    using gs(1) by (auto dest: in_set_takeD in_set_dropD)
  have len: "start + len \<le> 8" "length ?head = start" "length ?tail = 8 - (start + len)" using gs by (auto simp: zeros_at_def)
  have nodot: "CHR ''.'' \<notin> set (fmt_groups ?tail)" using group_text_no_dot[of 0 ?tail] by (simp add: group_text_def)
  have 1: "read_groups 0 8 (fmt_groups ?head @ ''::'' @ fmt_groups ?tail) = (?head, False, ''::'' @ fmt_groups ?tail)"
    using small(1) len nodot by (intro read_groups_fmt) auto
  have 2: "read_groups 0 (8 - (start + 1)) (fmt_groups ?tail) = (?tail, False, [])"
    using read_groups_fmt[OF small(2), of "8 - (start + 1)" "[]"] len gs(4) by auto
  have split: "gs = ?head @ replicate len 0 @ ?tail"
  proof -
    have "gs = ?head @ take len (drop start gs) @ drop len (drop start gs)" by (simp only: append_take_drop_id)
    then show ?thesis using gs(3) by (simp only: zeros_at_def drop_drop add.commute fst_conv snd_conv)
  qed
  have "8 - start - length ?tail = len" "length ?head \<noteq> 8" using len gs(4) by auto
  then show ?thesis using 1 2 len(2) split[symmetric]
    by (simp add: read_ipv6_addr_def read_given_char_def del: length_take length_drop)
qed

lemma mapped_value:
  assumes "to_ipv4_mapped ip = Some v4"
  shows "word_of_nat (be_value 65536 ([0, 0, 0, 0, 0, 65535] @ [be_value 256 (take 2 (octets v4)), be_value 256 (drop 2 (octets v4))])) = ip"
proof -
  have ip: "drop_bit 32 ip = 65535" "v4 = ucast ip" using assms by (auto simp: to_ipv4_mapped_def split: if_splits)
  obtain a b c d where o: "octets v4 = [a, b, c, d]" by (rule octets_cases)
  have v: "be_value 256 (octets v4) = unat v4"
    using unat_less_pow[of v4] unfolding octets_def by (simp add: be_digits_facts)
  have "unat v4 = unat ip mod 2 ^ 32" using ip(2) by (simp add: unsigned_ucast_eq take_bit_eq_mod)
  moreover have "unat ip div 2 ^ 32 = 65535"
    using arg_cong[OF ip(1), of unat] unat_drop_bit_eq[of 32 ip] by (simp only: drop_bit_eq_div) simp
  ultimately have "unat ip = 65535 * 2 ^ 32 + unat v4" using div_mult_mod_eq[of "unat ip" "2 ^ 32"] by simp
  then have "be_value 65536 ([0, 0, 0, 0, 0, 65535] @ [be_value 256 (take 2 (octets v4)), be_value 256 (drop 2 (octets v4))]) = unat ip"
    using v by (simp add: o be_value_def)
  then show ?thesis by simp
qed

lemma read_mapped: "read_ipv6_addr (''::ffff:'' @ show_ipv4 v4) =
    Some ([0, 0, 0, 0, 0, 65535, be_value 256 (take 2 (octets v4)), be_value 256 (drop 2 (octets v4))], [])"
proof -
  let ?v4 = "show_ipv4 v4"
  have none: "read_ipv4_addr (c # s) = None" if "\<not> is_digit 10 c" for c s
    using that by (simp add: read_ipv4_addr_unfold read_separator_def read_number_none)
  have f: "\<not> is_digit 10 CHR ''f''" "list_all (is_digit 16) ''ffff''" "radix_value 16 ''ffff'' = 65535"
    by (simp_all add: to_digit_facts hex_value_def ascii_code_def radix_value_def to_digit_def)
  have ffff: "read_number 16 4 True 65536 (''ffff'' @ '':'' @ ?v4) = Some (65535, '':'' @ ?v4)"
    using read_number_app[OF f(2), of "'':'' @ ?v4" 4 65536 True] f(3) by simp
  have "read_groups (Suc 0) (Suc 5) ('':'' @ ?v4) = ([be_value 256 (take 2 (octets v4)), be_value 256 (drop 2 (octets v4))], True, [])"
    using read_show_ipv4[of "[]" v4] unfolding read_groups.simps by (simp add: read_separator_def read_given_char_def)
  then have "read_groups 0 (Suc 6) (''ffff:'' @ ?v4) = ([65535, be_value 256 (take 2 (octets v4)), be_value 256 (drop 2 (octets v4))], True, [])"
    using ffff none[OF f(1)] unfolding read_groups.simps(2)[of 0] by (simp add: read_separator_def)
  moreover have "read_groups 0 (Suc 7) (''::ffff:'' @ ?v4) = ([], False, ''::ffff:'' @ ?v4)"
    using none unfolding read_groups.simps by (simp add: read_separator_def read_number_none)
  moreover have "replicate 5 (0 :: nat) = [0, 0, 0, 0, 0]" by (simp add: numeral_eq_Suc)
  ultimately show ?thesis by (simp add: read_ipv6_addr_def read_given_char_def)
qed

lemma parse_show_ipv6: "parse_ipv6 (show_ipv6 ip) = Some ip"
proof (cases "to_ipv4_mapped ip")
  case (Some v4)
  with read_mapped[of v4] mapped_value[OF Some] show ?thesis by (simp add: show_ipv6_def parse_ipv6_def)
next
  case None
  obtain start len where run: "zero_run (segments ip) 0 (0, 0) (0, 0) = (start, len)" by (cases "zero_run (segments ip) 0 (0, 0) (0, 0)")
  have zeros: "zeros_at (segments ip) (start, len)"
    using zero_run_zeros[of "[]" "(0, 0)" "(0, 0)" "segments ip"] run by (simp add: zeros_at_def)
  show ?thesis
  proof (cases "1 < len")
    case True
    with read_compressed[OF segments_facts(2,1) zeros] None run show ?thesis
      by (simp add: show_ipv6_def parse_ipv6_def segments_facts)
  next
    case False
    have "read_groups 0 8 (fmt_groups (segments ip) @ []) = (segments ip, False, [])"
      by (rule read_groups_fmt) (simp_all add: segments_facts)
    with False None run show ?thesis by (simp add: show_ipv6_def parse_ipv6_def read_ipv6_addr_def segments_facts)
  qed
qed

section \<open>Case and characters\<close>

text \<open>Readers do not see the case of a letter.\<close>

definition case_blind :: "(string \<Rightarrow> ('a \<times> string) option) \<Rightarrow> bool" where
  "case_blind f \<longleftrightarrow> (\<forall>s. f (to_ascii_lowercase s) = map_option (\<lambda>(x, r). (x, to_ascii_lowercase r)) (f s))"

lemma case_blindD: "case_blind f \<Longrightarrow> f (to_ascii_lowercase s) = map_option (\<lambda>(x, r). (x, to_ascii_lowercase r)) (f s)"
  by (simp add: case_blind_def)

lemma hex_value_lower: "hex_value (ascii_lower_char c) = hex_value c"
  by (auto simp: hex_value_def ascii_lower_char_def ascii_code_char_of Let_def)

lemma digit_lower [simp]: "to_digit r (ascii_lower_char c) = to_digit r c" "is_digit r (ascii_lower_char c) = is_digit r c"
  by (simp_all add: to_digit_def is_digit_def hex_value_lower)

lemma lower_char_fixed [simp]:
  "ascii_lower_char c = CHR '':'' \<longleftrightarrow> c = CHR '':''" "ascii_lower_char c = CHR ''.'' \<longleftrightarrow> c = CHR ''.''"
  "ascii_lower_char c = CHR ''0'' \<longleftrightarrow> c = CHR ''0''" "ascii_lower_char c = CHR ''/'' \<longleftrightarrow> c = CHR ''/''"
  by (rule ascii_lower_char_eq_iff; simp add: ascii_code_def)+

lemma case_blind_number: "case_blind (read_number r m z b)"
proof -
  have "takeWhile (is_digit r) (to_ascii_lowercase s) = to_ascii_lowercase (takeWhile (is_digit r) s)"
    "dropWhile (is_digit r) (to_ascii_lowercase s) = to_ascii_lowercase (dropWhile (is_digit r) s)" for s
    by (induction s) simp_all
  moreover have "radix_value r (to_ascii_lowercase ds) = radix_value r ds" for ds
    by (induction ds rule: rev_induct) (simp_all add: radix_value_snoc radix_value_def)
  moreover have "hd (to_ascii_lowercase ds) = CHR ''0'' \<longleftrightarrow> hd ds = CHR ''0''" if "ds \<noteq> []" for ds
    using that by (cases ds) simp_all
  ultimately show ?thesis by (auto simp: case_blind_def read_number_def Let_def)
qed

lemma case_blind_given: "c = CHR '':'' \<or> c = CHR ''.'' \<Longrightarrow>
    read_given_char c (to_ascii_lowercase s) = map_option to_ascii_lowercase (read_given_char c s)"
  by (cases s) (auto simp: read_given_char_def)

lemma case_blind_separator: "case_blind f \<Longrightarrow> c = CHR '':'' \<or> c = CHR ''.'' \<Longrightarrow> case_blind (read_separator c i f)"
  by (auto simp: case_blind_def read_separator_def case_blind_given split: option.splits)

lemma case_blind_octets: "case_blind (read_octets i n)"
proof (induction n arbitrary: i)
  case (Suc n)
  have "case_blind (read_separator CHR ''.'' i (read_number 10 3 False 256))"
    by (rule case_blind_separator[OF case_blind_number]) simp
  then show ?case unfolding case_blind_def read_octets.simps
    by (auto simp: case_blindD[OF Suc.IH] option.map_comp comp_def split_def split: option.splits)
qed (simp add: case_blind_def)

lemma case_blind_ipv4: "case_blind read_ipv4_addr"
  unfolding read_ipv4_addr_def by (rule case_blind_octets)

lemma case_blind_groups:
  "read_groups i n (to_ascii_lowercase s) = (case read_groups i n s of (gs, b, r) \<Rightarrow> (gs, b, to_ascii_lowercase r))"
proof (induction n arbitrary: i s)
  case (Suc n)
  have v4: "read_separator CHR '':'' i read_ipv4_addr (to_ascii_lowercase s) =
      map_option (\<lambda>(x, r). (x, to_ascii_lowercase r)) (read_separator CHR '':'' i read_ipv4_addr s)"
    by (rule case_blindD[OF case_blind_separator[OF case_blind_ipv4]]) simp
  have hex: "read_separator CHR '':'' i (read_number 16 4 True 65536) (to_ascii_lowercase s) =
      map_option (\<lambda>(x, r). (x, to_ascii_lowercase r)) (read_separator CHR '':'' i (read_number 16 4 True 65536) s)"
    by (rule case_blindD[OF case_blind_separator[OF case_blind_number]]) simp
  show ?case using Suc.IH by (auto simp: v4 hex split: option.splits prod.splits)
qed simp

lemma parse_lower: "parse_ipv4 (to_ascii_lowercase s) = parse_ipv4 s" "parse_ipv6 (to_ascii_lowercase s) = parse_ipv6 s"
proof -
  show "parse_ipv4 (to_ascii_lowercase s) = parse_ipv4 s"
    by (auto simp: parse_ipv4_def case_blindD[OF case_blind_ipv4] split: option.splits prod.splits list.splits)
  have "case_blind read_ipv6_addr"
    by (auto simp: case_blind_def read_ipv6_addr_def case_blind_groups case_blind_given split: option.splits prod.splits)
  then show "parse_ipv6 (to_ascii_lowercase s) = parse_ipv6 s"
    by (auto simp: parse_ipv6_def case_blindD split: option.splits prod.splits list.splits)
qed

text \<open>Readers consume digits and separators only.\<close>

definition address_char :: "char \<Rightarrow> bool" where
  "address_char c \<longleftrightarrow> is_digit 16 c \<or> c = CHR '':'' \<or> c = CHR ''.''"

definition consumes :: "(char \<Rightarrow> bool) \<Rightarrow> (string \<Rightarrow> ('a \<times> string) option) \<Rightarrow> bool" where
  "consumes P f \<longleftrightarrow> (\<forall>s x r. f s = Some (x, r) \<longrightarrow> (\<exists>p. s = p @ r \<and> list_all P p))"

lemma consumesE: "consumes P f \<Longrightarrow> f s = Some (x, r) \<Longrightarrow> (\<And>p. s = p @ r \<Longrightarrow> list_all P p \<Longrightarrow> thesis) \<Longrightarrow> thesis"
  unfolding consumes_def by blast

lemma consumes_mono: "consumes P f \<Longrightarrow> (\<And>c. P c \<Longrightarrow> Q c) \<Longrightarrow> consumes Q f"
  unfolding consumes_def by (metis list.pred_mono_strong)

lemma consumes_number: "consumes (is_digit r) (read_number r m z b)"
  unfolding consumes_def
proof (intro allI impI)
  fix s n t assume "read_number r m z b s = Some (n, t)"
  then have "t = dropWhile (is_digit r) s" by (auto simp: read_number_def Let_def split: if_splits)
  then show "\<exists>p. s = p @ t \<and> list_all (is_digit r) p"
    by (intro exI[of _ "takeWhile (is_digit r) s"]) (auto simp: list_all_iff dest: set_takeWhileD)
qed

lemma consumes_separator:
  assumes "consumes P f" "P c"
  shows "consumes P (read_separator c i f)"
proof -
  have "\<exists>p. s = p @ r \<and> list_all P p" if run: "read_separator c i f s = Some (x, r)" for s x r
  proof (cases "0 < i")
    case True
    with run obtain t where t: "s = c # t" "f t = Some (x, r)"
      by (auto simp: read_separator_def read_given_char_def split: list.splits if_splits option.splits)
    from assms(1) t(2) obtain p where "t = p @ r" "list_all P p" by (rule consumesE)
    with t assms(2) show ?thesis by (intro exI[of _ "c # p"]) simp
  next
    case False
    with run assms(1) show ?thesis by (auto simp: consumes_def read_separator_def)
  qed
  then show ?thesis by (auto simp: consumes_def)
qed

lemma consumes_octets: "consumes (\<lambda>c. is_digit 10 c \<or> c = CHR ''.'') (read_octets i (Suc n))"
proof (induction n arbitrary: i)
  case 0
  have "consumes (\<lambda>c. is_digit 10 c \<or> c = CHR ''.'') (read_separator CHR ''.'' i (read_number 10 3 False 256))"
    by (intro consumes_separator consumes_mono[OF consumes_number]) auto
  then show ?case by (auto simp: consumes_def split: option.splits)
next
  case (Suc n)
  have sep: "consumes (\<lambda>c. is_digit 10 c \<or> c = CHR ''.'') (read_separator CHR ''.'' i (read_number 10 3 False 256))"
    by (intro consumes_separator consumes_mono[OF consumes_number]) auto
  show ?case unfolding consumes_def
  proof (intro allI impI)
    fix s x r assume "read_octets i (Suc (Suc n)) s = Some (x, r)"
    then obtain d t y where 1: "read_separator CHR ''.'' i (read_number 10 3 False 256) s = Some (d, t)"
        and 2: "read_octets (Suc i) (Suc n) t = Some (y, r)"
      unfolding read_octets.simps(2)[of i "Suc n"] by (auto split: option.splits)
    obtain p where "s = p @ t" "list_all (\<lambda>c. is_digit 10 c \<or> c = CHR ''.'') p" using sep 1 by (rule consumesE)
    moreover obtain q where "t = q @ r" "list_all (\<lambda>c. is_digit 10 c \<or> c = CHR ''.'') q"
      using Suc.IH[of "Suc i"] 2 by (rule consumesE)
    ultimately show "\<exists>p. s = p @ r \<and> list_all (\<lambda>c. is_digit 10 c \<or> c = CHR ''.'') p"
      by (intro exI[of _ "p @ q"]) simp
  qed
qed

lemma decimal_hex: "is_digit 10 c \<Longrightarrow> is_digit 16 c"
  by (auto simp: to_digit_facts)

lemma consumes_ipv4: "consumes (\<lambda>c. is_digit 10 c \<or> c = CHR ''.'') read_ipv4_addr"
  unfolding read_ipv4_addr_unfold by (rule consumes_octets)

lemma groups_consume: "\<exists>p. s = p @ snd (snd (read_groups i n s)) \<and> list_all address_char p"
proof (induction n arbitrary: i s)
  case (Suc n)
  have v4: "consumes address_char (read_separator CHR '':'' i read_ipv4_addr)"
    by (intro consumes_separator consumes_mono[OF consumes_ipv4]) (auto simp: address_char_def decimal_hex)
  have hex: "consumes address_char (read_separator CHR '':'' i (read_number 16 4 True 65536))"
    by (intro consumes_separator consumes_mono[OF consumes_number]) (auto simp: address_char_def)
  show ?case
  proof (cases "if 0 < n then read_separator CHR '':'' i read_ipv4_addr s else None")
    case (Some z)
    then obtain x r where "0 < n" "read_separator CHR '':'' i read_ipv4_addr s = Some (x, r)" by (cases z) (auto split: if_splits)
    with v4 show ?thesis by (auto elim: consumesE)
  next
    case None
    show ?thesis
    proof (cases "read_separator CHR '':'' i (read_number 16 4 True 65536) s")
      case (Some z)
      then obtain g r p where z: "z = (g, r)" "s = p @ r" "list_all address_char p" using hex by (cases z) (auto elim: consumesE)
      obtain q where "r = q @ snd (snd (read_groups (Suc i) n r))" "list_all address_char q" using Suc.IH by blast
      with None Some z show ?thesis by (intro exI[of _ "p @ q"]) (auto split: prod.splits)
    qed (use None in simp)
  qed
qed simp

lemma parse_ipv4_chars: "parse_ipv4 s = Some ip \<Longrightarrow> list_all (\<lambda>c. is_digit 10 c \<or> c = CHR ''.'') s"
  using consumes_ipv4 by (auto simp: parse_ipv4_def elim: consumesE split: if_splits option.splits prod.splits list.splits)

lemma parse_ipv6_chars: "parse_ipv6 s = Some ip \<Longrightarrow> list_all address_char s"
proof -
  assume "parse_ipv6 s = Some ip"
  then obtain gs where read: "read_ipv6_addr s = Some (gs, [])" by (auto simp: parse_ipv6_def split: option.splits prod.splits list.splits)
  obtain hd4 b r where h: "read_groups 0 8 s = (hd4, b, r)" by (cases "read_groups 0 8 s")
  obtain p where p: "s = p @ r" "list_all address_char p" using groups_consume[of s 0 8] h by auto
  show ?thesis
  proof (cases "length hd4 = 8")
    case True
    with read h p show ?thesis by (simp add: read_ipv6_addr_def)
  next
    case False
    with read h obtain r2 where r: "r = CHR '':'' # CHR '':'' # r2" "snd (snd (read_groups 0 (8 - (length hd4 + 1)) r2)) = []"
      by (auto simp: read_ipv6_addr_def read_given_char_def split: if_splits option.splits list.splits prod.splits)
    obtain q where "r2 = q @ []" "list_all address_char q" using groups_consume[of r2 0 "8 - (length hd4 + 1)"] r(2) by auto
    with p r(1) show ?thesis by (simp add: address_char_def)
  qed
qed

lemma read_groups_no_colon: "CHR '':'' \<notin> set r \<Longrightarrow> read_groups (Suc i) n r = ([], False, r)"
  by (cases n; cases r) (auto simp: read_separator_def read_given_char_def)

lemma parse_ipv6_needs_colon: "parse_ipv6 s = Some ip \<Longrightarrow> CHR '':'' \<in> set s"
proof (rule ccontr)
  assume p: "parse_ipv6 s = Some ip" and no: "CHR '':'' \<notin> set s"
  obtain hs b r where h: "read_groups 0 (Suc 7) s = (hs, b, r)" by (cases "read_groups 0 (Suc 7) s")
  have rest: "CHR '':'' \<notin> set r" using groups_consume[of s 0 "Suc 7"] h no by auto
  have quiet: "read_groups (Suc 0) 7 t = ([], False, t)" if "read_number 16 4 True 65536 s = Some (x, t)" for x t
    using read_number_rest[OF that] no by (intro read_groups_no_colon) auto
  have "b \<or> length hs \<le> 1" "length hs \<noteq> 8"
    using h unfolding read_groups.simps by (auto simp: read_separator_def quiet split: option.splits)
  with h rest have "read_ipv6_addr s = None"
    by (cases r) (auto simp: read_ipv6_addr_def read_given_char_def)
  with p show False by (simp add: parse_ipv6_def)
qed

end
