(* ===== verification/Net_Policy.thy ===== *)
theory Net_Policy
  imports Ip_Addr
begin

text \<open>
  The network capability (crates/witchy-caps/src/capabilities.rs): which addresses an allowlist admits,
  how deny entries subtract from it, how \<open>net.only\<close> narrows it, and which resolved addresses a connection
  may dial. Name resolution is the operating system's; the resolver is a parameter of the definitions that
  use it. The properties show that narrowing never widens a well-formed allowlist and keeps every deny,
  that no address of a denied block is ever dialled, and that a host that is not admitted is never looked up.
\<close>

section \<open>Hosts and ports\<close>

definition strip_brackets :: "string \<Rightarrow> string" where
  "strip_brackets h =
     (case strip_prefix ''['' h of
        None \<Rightarrow> h
      | Some s \<Rightarrow> (case strip_suffix '']'' s of None \<Rightarrow> h | Some inner \<Rightarrow> inner))"

definition trim_end_dots :: "string \<Rightarrow> string" where
  "trim_end_dots s = rev (dropWhile (\<lambda>c. c = CHR ''.'') (rev s))"

definition split_host_port :: "string \<Rightarrow> string \<times> string" where
  "split_host_port s = (case rsplit_once CHR '':'' s of Some (h, p) \<Rightarrow> (h, p) | None \<Rightarrow> (s, []))"

definition port_admits :: "string \<Rightarrow> string \<Rightarrow> bool" where
  "port_admits pat target \<longleftrightarrow> pat = ''*'' \<or>
     (case (parse_uint 65536 pat, parse_uint 65536 target) of
        (Some p, Some t) \<Rightarrow> p = t
      | _ \<Rightarrow> pat = target)"

definition canonical_dns_name :: "string \<Rightarrow> string" where
  "canonical_dns_name host = to_ascii_lowercase (trim_end_dots (strip_brackets host))"

definition parse_ipv4_identity :: "string \<Rightarrow> Ipv4Addr option" where
  "parse_ipv4_identity h =
     (let host = strip_brackets h in
      case parse_ipv4 host of
        Some ip \<Rightarrow> Some ip
      | None \<Rightarrow> (case parse_ipv6 host of Some ip \<Rightarrow> to_ipv4_mapped ip | None \<Rightarrow> None))"

definition parse_ipv6_identity :: "string \<Rightarrow> Ipv6Addr option" where
  "parse_ipv6_identity h =
     (case parse_ipv6 (strip_brackets h) of
        Some ip \<Rightarrow> if to_ipv4_mapped ip = None then Some ip else None
      | None \<Rightarrow> None)"

definition host_eq :: "string \<Rightarrow> string \<Rightarrow> bool" where
  "host_eq left right =
     (case (parse_ipv4_identity left, parse_ipv4_identity right, parse_ipv6_identity left, parse_ipv6_identity right) of
        (Some l, Some r, _, _) \<Rightarrow> l = r
      | (_, _, Some l, Some r) \<Rightarrow> l = r
      | (None, None, None, None) \<Rightarrow> canonical_dns_name left = canonical_dns_name right
      | _ \<Rightarrow> False)"

section \<open>CIDR blocks\<close>

definition parse_ipv4_cidr :: "string \<Rightarrow> (Ipv4Addr \<times> nat) option" where
  "parse_ipv4_cidr s =
     (case split_once CHR ''/'' s of
        None \<Rightarrow> None
      | Some (i, b) \<Rightarrow>
          (case parse_ipv4 i of
             None \<Rightarrow> None
           | Some ip \<Rightarrow> (case parse_uint 256 b of
               None \<Rightarrow> None
             | Some bits \<Rightarrow> if bits \<le> 32 then Some (ip, bits) else None)))"

definition ipv4_in_cidr :: "Ipv4Addr \<Rightarrow> Ipv4Addr \<Rightarrow> nat \<Rightarrow> bool" where
  "ipv4_in_cidr ip base bits \<longleftrightarrow>
     (if bits = 0 then True
      else let m = (if bits = 32 then - 1 else NOT (push_bit (32 - bits) 1 - 1)) in ip AND m = base AND m)"

definition parse_ipv6_cidr :: "string \<Rightarrow> (Ipv6Addr \<times> nat) option" where
  "parse_ipv6_cidr s =
     (case split_once CHR ''/'' s of
        None \<Rightarrow> None
      | Some (i, b) \<Rightarrow>
          (case parse_ipv6 (strip_brackets i) of
             None \<Rightarrow> None
           | Some ip \<Rightarrow> (case parse_uint 256 b of
               None \<Rightarrow> None
             | Some bits \<Rightarrow> if bits \<le> 128 then Some (ip, bits) else None)))"

definition ipv6_in_cidr :: "Ipv6Addr \<Rightarrow> Ipv6Addr \<Rightarrow> nat \<Rightarrow> bool" where
  "ipv6_in_cidr ip base bits \<longleftrightarrow>
     (if bits = 0 then True
      else let m = (if bits = 128 then - 1 else NOT (push_bit (128 - bits) 1 - 1)) in ip AND m = base AND m)"

section \<open>Admission\<close>

text \<open>The host part of \<open>address_admits\<close>, after the port.\<close>

definition host_admits :: "string \<Rightarrow> string \<Rightarrow> bool" where
  "host_admits phost thost =
     (if phost = ''*'' then True
      else (case (parse_ipv4_cidr phost, parse_ipv4_identity thost) of
         (Some (base, bits), Some ip) \<Rightarrow> ipv4_in_cidr ip base bits
       | _ \<Rightarrow> (case (parse_ipv6_cidr phost, parse_ipv6_identity thost) of
           (Some (base, bits), Some ip) \<Rightarrow> ipv6_in_cidr ip base bits
         | _ \<Rightarrow> host_eq phost thost)))"

definition address_admits :: "string \<Rightarrow> string \<Rightarrow> bool" where
  "address_admits pat target =
     (case (split_host_port pat, split_host_port target) of
        ((phost, pport), (thost, tport)) \<Rightarrow> if \<not> port_admits pport tport then False else host_admits phost thost)"

definition net_denied :: "string list \<Rightarrow> string \<Rightarrow> bool" where
  "net_denied allow target \<longleftrightarrow> list_ex (\<lambda>d. address_admits d target) (List.map_filter (strip_prefix ''!'') allow)"

definition net_allows :: "string list \<Rightarrow> string \<Rightarrow> bool" where
  "net_allows allow target =
     (if net_denied allow target then False
      else list_ex (\<lambda>p. address_admits p target) (filter (\<lambda>p. \<not> starts_with ''!'' p) allow))"

text \<open>The loop of \<open>net_only\<close>: it stops at the first pattern that is not admitted.\<close>

fun only_rows :: "string list \<Rightarrow> string list \<Rightarrow> string list \<Rightarrow> (string, string list) result" where
  "only_rows allow [] narrowed = Ok narrowed"
| "only_rows allow (p # ps) narrowed =
     (if \<not> net_allows allow p then Err p else only_rows allow ps (narrowed @ [p]))"

definition net_only :: "string list \<Rightarrow> string \<Rightarrow> (string, string list) result" where
  "net_only allow patterns =
     rbind (only_rows allow (split_on CHR 0x0A patterns) []) (\<lambda>narrowed.
       Ok (narrowed @ filter (starts_with ''!'') allow))"

section \<open>Well-formed entries\<close>

definition net_pattern_error :: "string \<Rightarrow> string option" where
  "net_pattern_error pat =
     (let body = (case strip_prefix ''!'' pat of Some b \<Rightarrow> b | None \<Rightarrow> pat) in
      case rsplit_once CHR '':'' body of
        None \<Rightarrow> Some (''`'' @ pat @ ''` has no `:port` (write `host:443` or `host:*`)'')
      | Some (host, port) \<Rightarrow>
          if host = [] then Some (''`'' @ pat @ ''` has an empty host'')
          else if port \<noteq> ''*'' \<and> parse_uint 65536 port = None then
            Some (''`'' @ pat @ ''` has port `'' @ port @ ''`, which is not `*` or 0-65535'')
          else if list_ex (\<lambda>c. is_whitespace c \<or> c = 33) (utf8_chars host) \<or> CHR ''*'' \<in> set host \<and> host \<noteq> ''*'' then
            Some (''`'' @ pat @ ''` has an invalid host `'' @ host @ ''` (only a bare `*` is a wildcard)'')
          else if (starts_with ''['' host \<or> ends_with '']'' host) \<and> parse_ipv6_cidr host = None
               \<and> \<not> (case strip_prefix ''['' host of None \<Rightarrow> False
                     | Some h \<Rightarrow> (case strip_suffix '']'' h of None \<Rightarrow> False
                         | Some ip \<Rightarrow> parse_ipv6 ip \<noteq> None \<or> parse_ipv6_cidr ip \<noteq> None)) then
            Some (''`'' @ pat @ ''` has a malformed bracketed IPv6 host `'' @ host @ ''`'')
          else if \<not> ((starts_with ''['' host \<or> ends_with '']'' host) \<and> parse_ipv6_cidr host = None)
               \<and> CHR '':'' \<in> set host \<and> parse_ipv6 host = None \<and> parse_ipv6_cidr host = None then
            Some (''`'' @ pat @ ''` has a host `'' @ host @ ''` with a stray `:` (bracket IPv6 as `[::1]:80`)'')
          else if CHR ''/'' \<in> set host \<and> parse_ipv4_cidr host = None \<and> parse_ipv6_cidr host = None then
            Some (''`'' @ pat @ ''` has a malformed CIDR block `'' @ host @ ''`'')
          else None)"

section \<open>Resolution\<close>

datatype AdmitFailure = Denied string | Unresolved string

fun into_message :: "AdmitFailure \<Rightarrow> string" where
  "into_message (Denied m) = m"
| "into_message (Unresolved m) = m"

text \<open>\<open>str::to_socket_addrs\<close> and \<open>(host, port).to_socket_addrs()\<close>: the error is its printed form.\<close>

type_synonym address_resolver = "string \<Rightarrow> (string, SocketAddr list) result"
type_synonym host_resolver = "string \<Rightarrow> 16 word \<Rightarrow> (string, SocketAddr list) result"

definition not_permitted :: "string \<Rightarrow> AdmitFailure" where
  "not_permitted addr = Denied (''`'' @ addr @ ''` is not permitted by this Net capability'')"

definition resolve_admitted_typed :: "address_resolver \<Rightarrow> string list \<Rightarrow> string \<Rightarrow> (AdmitFailure, SocketAddr list) result" where
  "resolve_admitted_typed to_socket_addrs allow addr =
     (if net_denied allow addr then Err (not_permitted addr)
      else let name_ok = net_allows allow addr in
        case to_socket_addrs addr of
          Inr resolved \<Rightarrow>
            (let ip_ok = filter (\<lambda>sa. net_allows allow (show_socket sa)) resolved in
             if ip_ok \<noteq> [] then Ok ip_ok
             else if name_ok then
               (let not_denied = filter (\<lambda>sa. \<not> net_denied allow (show_socket sa)) resolved in
                if not_denied = [] then Err (not_permitted addr) else Ok not_denied)
             else Err (not_permitted addr))
        | Inl e \<Rightarrow>
            if name_ok then Err (Unresolved (''`'' @ addr @ ''` could not be resolved: '' @ e))
            else Err (not_permitted addr))"

definition resolve_admitted :: "address_resolver \<Rightarrow> string list \<Rightarrow> string \<Rightarrow> (string, SocketAddr list) result" where
  "resolve_admitted to_socket_addrs allow addr =
     (case resolve_admitted_typed to_socket_addrs allow addr of Inl f \<Rightarrow> Err (into_message f) | Inr as \<Rightarrow> Ok as)"

definition bracket_ipv6_host :: "string \<Rightarrow> string" where
  "bracket_ipv6_host host =
     (if CHR '':'' \<in> set (strip_brackets host) then ''['' @ strip_brackets host @ '']'' else host)"

fun normalize_ip :: "IpAddr \<Rightarrow> IpAddr" where
  "normalize_ip (V6 ip) = (case to_ipv4_mapped ip of Some v4 \<Rightarrow> V4 v4 | None \<Rightarrow> V6 ip)"
| "normalize_ip (V4 ip) = V4 ip"

text \<open>Whether some allow entry admits the host at that entry's port.\<close>

definition host_admitted :: "string list \<Rightarrow> string \<Rightarrow> bool" where
  "host_admitted allow host \<longleftrightarrow> list_ex (\<lambda>entry.
     let port = snd (split_host_port entry);
         port' = (if port = ''*'' then ''0'' else port)
     in net_allows allow (bracket_ipv6_host host @ '':'' @ port')) (filter (\<lambda>e. \<not> starts_with ''!'' e) allow)"

fun push_ips :: "SocketAddr list \<Rightarrow> IpAddr list \<Rightarrow> IpAddr list" where
  "push_ips [] ips = ips"
| "push_ips (addr # addrs) ips =
     (let ip = normalize_ip (socket_ip addr) in push_ips addrs (if ip \<in> set ips then ips else ips @ [ip]))"

definition resolve_host_admitted_typed :: "host_resolver \<Rightarrow> string list \<Rightarrow> string \<Rightarrow> (AdmitFailure, IpAddr list) result" where
  "resolve_host_admitted_typed to_socket_addrs allow host =
     (if \<not> host_admitted allow host then Err (not_permitted host)
      else (case to_socket_addrs (canonical_dns_name host) 0 of
          Inl e \<Rightarrow> Err (Unresolved (''`'' @ host @ ''` could not be resolved: '' @ e))
        | Inr addrs \<Rightarrow> Ok (push_ips addrs [])))"

definition resolve_host_admitted :: "host_resolver \<Rightarrow> string list \<Rightarrow> string \<Rightarrow> (string, IpAddr list) result" where
  "resolve_host_admitted to_socket_addrs allow host =
     (case resolve_host_admitted_typed to_socket_addrs allow host of Inl f \<Rightarrow> Err (into_message f) | Inr as \<Rightarrow> Ok as)"

section \<open>Host identities\<close>

text \<open>What a host names: an IPv4 or IPv6 address, or a name.\<close>

datatype host_identity = Address4 Ipv4Addr | Address6 Ipv6Addr | HostName string

definition host_identity :: "string \<Rightarrow> host_identity" where
  "host_identity h =
     (case parse_ipv4_identity h of
        Some ip \<Rightarrow> Address4 ip
      | None \<Rightarrow> (case parse_ipv6_identity h of Some ip \<Rightarrow> Address6 ip | None \<Rightarrow> HostName (canonical_dns_name h)))"

lemma identities_disjoint: "parse_ipv6_identity h = Some ip \<Longrightarrow> parse_ipv4_identity h = None"
proof -
  assume "parse_ipv6_identity h = Some ip"
  then have v6: "parse_ipv6 (strip_brackets h) = Some ip" "to_ipv4_mapped ip = None"
    by (auto simp: parse_ipv6_identity_def split: option.splits if_splits)
  moreover have "parse_ipv4 (strip_brackets h) = None"
    using parse_ipv6_needs_colon[OF v6(1)] parse_ipv4_chars[of "strip_brackets h"] by (cases "parse_ipv4 (strip_brackets h)") (auto simp: list_all_iff)
  ultimately show ?thesis by (simp add: parse_ipv4_identity_def)
qed

lemma host_eq_identity: "host_eq l r \<longleftrightarrow> host_identity l = host_identity r"
  using identities_disjoint[of l] identities_disjoint[of r]
  by (auto simp: host_eq_def host_identity_def split: option.splits)

lemma identity_parts:
  "host_identity l = host_identity r \<Longrightarrow> parse_ipv4_identity l = parse_ipv4_identity r \<and> parse_ipv6_identity l = parse_ipv6_identity r"
  using identities_disjoint[of l] identities_disjoint[of r]
  by (cases "parse_ipv6_identity l"; cases "parse_ipv6_identity r") (auto simp: host_identity_def split: option.splits)

lemma host_admits_identity: "host_identity h = host_identity h' \<Longrightarrow> host_admits p h = host_admits p h'"
  using identity_parts[of h h'] by (auto simp: host_admits_def host_eq_identity split: option.splits prod.splits)

text \<open>An address is not a block, and a block is its own canonical name up to case.\<close>

lemma slash_no_address: "CHR ''/'' \<in> set h \<Longrightarrow> parse_ipv4_identity h = None \<and> parse_ipv6_identity h = None"
proof -
  assume slash: "CHR ''/'' \<in> set h"
  have "CHR ''/'' \<in> set (strip_brackets h)" using slash by (auto simp: strip_brackets_def string_simps split: option.splits)
  then have "parse_ipv4 (strip_brackets h) = None" "parse_ipv6 (strip_brackets h) = None"
    using parse_ipv4_chars[of "strip_brackets h"] parse_ipv6_chars[of "strip_brackets h"]
    by (cases "parse_ipv4 (strip_brackets h)", auto simp: list_all_iff)
      (cases "parse_ipv6 (strip_brackets h)", auto simp: list_all_iff address_char_def)
  then show ?thesis by (simp add: parse_ipv4_identity_def parse_ipv6_identity_def)
qed

lemma cidr_shape:
  assumes "parse_ipv4_cidr h \<noteq> None \<or> parse_ipv6_cidr h \<noteq> None"
  obtains i bs n where "h = i @ CHR ''/'' # bs" "parse_uint 256 bs = Some n"
  using assms by (auto simp: parse_ipv4_cidr_def parse_ipv6_cidr_def string_simps split: option.splits if_splits)

lemma parse_uint_last: "parse_uint bound s = Some n \<Longrightarrow> s \<noteq> [] \<and> is_ascii_digit (last s)"
proof -
  assume p: "parse_uint bound s = Some n"
  define d where "d = (case s of [] \<Rightarrow> [] | c # r \<Rightarrow> if c = CHR ''+'' then r else s)"
  then have d: "d \<noteq> []" "list_all is_ascii_digit d" "s = d \<or> s = CHR ''+'' # d"
    using p by (auto simp: parse_uint_def Let_def split: if_splits list.splits)
  then have "is_ascii_digit (last d)" by (simp add: list_all_iff)
  with d show ?thesis by auto
qed

lemma strip_brackets_last: "last h \<noteq> CHR '']'' \<Longrightarrow> strip_brackets h = h"
  by (auto simp: strip_brackets_def string_simps split: option.splits)

lemma canonical_block:
  assumes "h = i @ CHR ''/'' # bs" "parse_uint 256 bs = Some n"
  shows "canonical_dns_name h = to_ascii_lowercase h"
proof -
  obtain c ds where bs: "bs = ds @ [c]" "is_ascii_digit c" using parse_uint_last[OF assms(2)] by (cases bs rule: rev_cases) auto
  then have c: "c \<noteq> CHR ''.''" "c \<noteq> CHR '']''" by (auto simp: is_ascii_digit_def ascii_code_def)
  have "strip_brackets h = h" using assms(1) bs(1) c(2) by (intro strip_brackets_last) simp
  moreover have "trim_end_dots h = h" using assms(1) bs(1) c(1) by (simp add: trim_end_dots_def)
  ultimately show ?thesis by (simp add: canonical_dns_name_def)
qed

lemma parse_uint_lower: "parse_uint bound (to_ascii_lowercase s) = parse_uint bound s"
proof -
  have c: "is_ascii_digit (ascii_lower_char c) = is_ascii_digit c" "ascii_lower_char c = CHR ''+'' \<longleftrightarrow> c = CHR ''+''" for c
    using is_digit_ascii[of "ascii_lower_char c"] is_digit_ascii[of c] ascii_lower_char_eq_iff[of "CHR ''+''" c]
    by (simp_all add: ascii_code_def)
  have d: "is_ascii_digit c \<Longrightarrow> ascii_lower_char c = c" for c by (auto simp: ascii_lower_char_def is_ascii_digit_def)
  have same: "list_all is_ascii_digit s \<Longrightarrow> to_ascii_lowercase s = s" for s by (induction s) (auto simp: d)
  have all: "list_all is_ascii_digit (to_ascii_lowercase s) = list_all is_ascii_digit s" for s
    by (induction s) (simp_all add: c)
  show ?thesis by (cases s) (auto simp: parse_uint_def Let_def c d all same)
qed

lemma split_once_lower: "split_once CHR ''/'' (to_ascii_lowercase s) = map_option (\<lambda>(a, b). (to_ascii_lowercase a, to_ascii_lowercase b)) (split_once CHR ''/'' s)"
  by (induction s) (auto simp: option.map_comp comp_def split_def)

lemma strip_brackets_lower: "strip_brackets (to_ascii_lowercase s) = to_ascii_lowercase (strip_brackets s)"
proof -
  have c: "ascii_lower_char c = CHR ''['' \<longleftrightarrow> c = CHR ''[''" "ascii_lower_char c = CHR '']'' \<longleftrightarrow> c = CHR '']''" for c
    by (rule ascii_lower_char_eq_iff; simp add: ascii_code_def)+
  have "strip_prefix ''['' (to_ascii_lowercase s) = map_option to_ascii_lowercase (strip_prefix ''['' s)" for s
    by (cases s) (auto simp: strip_prefix_def c)
  moreover have "strip_suffix '']'' (to_ascii_lowercase s) = map_option to_ascii_lowercase (strip_suffix '']'' s)" for s
    by (cases s rule: rev_cases) (auto simp: strip_suffix_def strip_prefix_def c to_ascii_lowercase_def rev_map)
  ultimately show ?thesis by (auto simp: strip_brackets_def split: option.splits)
qed

lemma cidr_lower: "parse_ipv4_cidr (to_ascii_lowercase s) = parse_ipv4_cidr s" "parse_ipv6_cidr (to_ascii_lowercase s) = parse_ipv6_cidr s"
  unfolding parse_ipv4_cidr_def parse_ipv6_cidr_def
  by (auto simp: split_once_lower strip_brackets_lower parse_lower parse_uint_lower split: option.splits)

section \<open>Narrowing\<close>

lemma star_facts: "parse_uint 65536 ''*'' = None" "parse_ipv4_identity ''*'' = None" "parse_ipv6_identity ''*'' = None"
    "canonical_dns_name ''*'' = ''*''"
  by code_simp+

lemma port_admits_trans: "port_admits a b \<Longrightarrow> port_admits b c \<Longrightarrow> port_admits a c"
  by (auto simp: port_admits_def star_facts split: option.splits)

text \<open>What the syntax check leaves of an allow entry.\<close>

definition allow_entry_ok :: "string \<Rightarrow> bool" where
  "allow_entry_ok e \<longleftrightarrow> starts_with ''!'' e \<or> net_pattern_error e = None"

lemma well_formed_host:
  assumes "net_pattern_error e = None" "\<not> starts_with ''!'' e"
  shows "CHR ''*'' \<in> set (fst (split_host_port e)) \<Longrightarrow> fst (split_host_port e) = ''*''"
    "CHR ''/'' \<in> set (fst (split_host_port e)) \<Longrightarrow>
      parse_ipv4_cidr (fst (split_host_port e)) \<noteq> None \<or> parse_ipv6_cidr (fst (split_host_port e)) \<noteq> None"
proof -
  have body: "strip_prefix ''!'' e = None" using assms(2) by (simp add: strip_prefix_None)
  obtain h p where hp: "rsplit_once CHR '':'' e = Some (h, p)"
    using assms(1) by (auto simp: net_pattern_error_def body split: option.splits)
  have "CHR ''*'' \<in> set h \<Longrightarrow> h = ''*''" "CHR ''/'' \<in> set h \<Longrightarrow> parse_ipv4_cidr h \<noteq> None \<or> parse_ipv6_cidr h \<noteq> None"
    using assms(1) by (auto simp: net_pattern_error_def body hp split: if_splits)
  then show "CHR ''*'' \<in> set (fst (split_host_port e)) \<Longrightarrow> fst (split_host_port e) = ''*''"
    "CHR ''/'' \<in> set (fst (split_host_port e)) \<Longrightarrow>
      parse_ipv4_cidr (fst (split_host_port e)) \<noteq> None \<or> parse_ipv6_cidr (fst (split_host_port e)) \<noteq> None"
    by (simp_all add: split_host_port_def hp)
qed

lemma canonical_char:
  assumes "c \<in> set (canonical_dns_name h)" "c = CHR ''*'' \<or> c = CHR ''/''"
  shows "c \<in> set h"
proof -
  have "c \<in> set (trim_end_dots (strip_brackets h))"
    using assms in_set_to_ascii_lowercase[of c] by (auto simp: canonical_dns_name_def ascii_code_def)
  then have "c \<in> set (strip_brackets h)" by (auto simp: trim_end_dots_def dest: set_dropWhileD)
  then show ?thesis by (auto simp: strip_brackets_def string_simps split: option.splits)
qed

text \<open>One step: what a host admitted by a well-formed parent admits, the parent admits.\<close>

lemma host_admits_trans:
  assumes star: "CHR ''*'' \<in> set a \<Longrightarrow> a = ''*''"
    and slash: "CHR ''/'' \<in> set a \<Longrightarrow> parse_ipv4_cidr a \<noteq> None \<or> parse_ipv6_cidr a \<noteq> None"
    and ab: "host_admits a b" and bc: "host_admits b c" and "a \<noteq> ''*''"
  shows "host_admits a c"
proof (cases "parse_ipv4_identity b = None \<and> parse_ipv6_identity b = None")
  case False
  then have "CHR ''/'' \<notin> set b" "b \<noteq> ''*''" using slash_no_address[of b] by (auto simp: star_facts)
  then have "parse_ipv4_cidr b = None" "parse_ipv6_cidr b = None"
    by (simp_all add: parse_ipv4_cidr_def parse_ipv6_cidr_def split_once_None[THEN iffD2])
  with bc \<open>b \<noteq> ''*''\<close> have "host_eq b c" by (simp add: host_admits_def)
  with ab show ?thesis using host_admits_identity[of b c a] by (simp add: host_eq_identity)
next
  case True
  then have "host_eq a b" using ab \<open>a \<noteq> ''*''\<close> by (auto simp: host_admits_def split: option.splits prod.splits)
  then have same: "host_identity a = host_identity b" by (simp add: host_eq_identity)
  with True have canon: "canonical_dns_name a = canonical_dns_name b"
    using identity_parts[OF same] by (simp add: host_identity_def)
  show ?thesis
  proof (cases "parse_ipv4_cidr b = None \<and> parse_ipv6_cidr b = None")
    case plain: True
    have "b \<noteq> ''*''"
    proof
      assume "b = ''*''"
      then have "canonical_dns_name b = ''*''" by (simp add: star_facts)
      with canon canonical_char[of "CHR ''*''" a] star \<open>a \<noteq> ''*''\<close> show False by simp
    qed
    with bc plain have "host_eq b c" by (simp add: host_admits_def)
    with same True have "parse_ipv4_identity c = None" "parse_ipv6_identity c = None" "host_eq a c"
      using identity_parts[of b c] by (simp_all add: host_eq_identity)
    then show ?thesis using \<open>a \<noteq> ''*''\<close> by (auto simp: host_admits_def split: option.splits)
  next
    case block: False
    then obtain i bs n where b: "b = i @ CHR ''/'' # bs" "parse_uint 256 bs = Some n" using cidr_shape[of b] by blast
    then have cb: "canonical_dns_name b = to_ascii_lowercase b" by (rule canonical_block)
    moreover have "CHR ''/'' \<in> set (to_ascii_lowercase b)" using b(1) in_set_to_ascii_lowercase[of "CHR ''/''" b] by (simp add: ascii_code_def)
    ultimately have "CHR ''/'' \<in> set (canonical_dns_name a)" using canon by simp
    then have "parse_ipv4_cidr a \<noteq> None \<or> parse_ipv6_cidr a \<noteq> None" using slash canonical_char[of "CHR ''/''" a] by blast
    then obtain i' bs' n' where "a = i' @ CHR ''/'' # bs'" "parse_uint 256 bs' = Some n'" using cidr_shape[of a] by blast
    then have "canonical_dns_name a = to_ascii_lowercase a" by (rule canonical_block)
    with cb canon have "to_ascii_lowercase a = to_ascii_lowercase b" by simp
    then have "parse_ipv4_cidr a = parse_ipv4_cidr b" "parse_ipv6_cidr a = parse_ipv6_cidr b" by (metis cidr_lower)+
    moreover have "b \<noteq> ''*''" using b(1) by (cases i) auto
    ultimately show ?thesis using bc same \<open>a \<noteq> ''*''\<close>
      by (auto simp: host_admits_def host_eq_identity split: option.splits prod.splits)
  qed
qed

lemma address_admits_trans:
  assumes "net_pattern_error a = None" "\<not> starts_with ''!'' a" "address_admits a b" "address_admits b c"
  shows "address_admits a c"
proof -
  obtain ah ap bh bp ch cp where parts: "split_host_port a = (ah, ap)" "split_host_port b = (bh, bp)" "split_host_port c = (ch, cp)"
    by (cases "split_host_port a"; cases "split_host_port b"; cases "split_host_port c")
  have p: "port_admits ap bp" "port_admits bp cp" and h: "host_admits ah bh" "host_admits bh ch"
    using assms(3,4) by (simp_all add: address_admits_def parts split: if_splits)
  have "port_admits ap cp" by (rule port_admits_trans[OF p])
  moreover have "host_admits ah ch"
  proof (cases "ah = ''*''")
    case False
    with well_formed_host[OF assms(1,2)] h show ?thesis by (intro host_admits_trans[of ah bh ch]) (simp_all add: parts)
  qed (simp add: host_admits_def)
  ultimately show ?thesis by (simp add: address_admits_def parts)
qed

lemma net_denied_iff: "net_denied allow t \<longleftrightarrow> (\<exists>d. CHR ''!'' # d \<in> set allow \<and> address_admits d t)"
proof -
  have "d \<in> set (List.map_filter (strip_prefix ''!'') allow) \<longleftrightarrow> CHR ''!'' # d \<in> set allow" for d
    by (induction allow) (auto simp: List.map_filter_simps strip_prefix_None starts_with_def strip_prefix_eq_Some split: option.splits)
  then show ?thesis by (auto simp: net_denied_def list_ex_iff)
qed

lemma net_allows_iff: "net_allows allow t \<longleftrightarrow> \<not> net_denied allow t \<and> (\<exists>p \<in> set allow. \<not> starts_with ''!'' p \<and> address_admits p t)"
  by (auto simp: net_allows_def list_ex_iff)

lemma only_rows_Ok: "only_rows allow ps acc = Ok n \<longleftrightarrow> (\<forall>p \<in> set ps. net_allows allow p) \<and> n = acc @ ps"
  by (induction ps arbitrary: acc) auto

lemma net_only_Ok: "net_only allow pats = Ok n \<longleftrightarrow>
    (\<forall>p \<in> set (split_on CHR 0x0A pats). net_allows allow p) \<and> n = split_on CHR 0x0A pats @ filter (starts_with ''!'') allow"
  by (auto simp: net_only_def result_simps only_rows_Ok)

lemma net_only_keeps_denies: "net_only allow pats = Ok n \<Longrightarrow> net_denied allow t \<Longrightarrow> net_denied n t"
  by (auto simp: net_only_Ok net_denied_iff starts_with_def)

text \<open>A narrowing that is refused leaves the capability as it is.\<close>

definition net_narrow :: "string list \<Rightarrow> string \<Rightarrow> string list" where
  "net_narrow allow pats = (case net_only allow pats of Inr narrowed \<Rightarrow> narrowed | Inl _ \<Rightarrow> allow)"

definition patterns_ok :: "string \<Rightarrow> bool" where
  "patterns_ok pats \<longleftrightarrow> list_all allow_entry_ok (split_on CHR 0x0A pats)"

lemma net_only_shrinks:
  assumes "list_all allow_entry_ok allow" "net_only allow pats = Ok narrowed" "net_allows narrowed t"
  shows "net_allows allow t"
proof -
  have "\<not> net_denied allow t" using net_only_keeps_denies[OF assms(2)] assms(3) by (auto simp: net_allows_iff)
  moreover obtain p where p: "p \<in> set narrowed" "\<not> starts_with ''!'' p" "address_admits p t"
    using assms(3) by (auto simp: net_allows_iff)
  moreover have "net_allows allow p" using p(1,2) assms(2) by (auto simp: net_only_Ok)
  then obtain a where a: "a \<in> set allow" "\<not> starts_with ''!'' a" "address_admits a p" by (auto simp: net_allows_iff)
  moreover have "net_pattern_error a = None" using a assms(1) by (auto simp: list_all_iff allow_entry_ok_def)
  ultimately show ?thesis using address_admits_trans[of a p t] by (auto simp: net_allows_iff)
qed

interpretation net_policy: guarded_narrowing "list_all allow_entry_ok" patterns_ok net_allows net_narrow
proof unfold_locales
  fix allow pats assume wf: "list_all allow_entry_ok allow" "patterns_ok pats"
  then show "list_all allow_entry_ok (net_narrow allow pats)"
    by (auto simp: net_narrow_def net_only_Ok patterns_ok_def list_all_iff split: sum.splits)
  fix t assume "net_allows (net_narrow allow pats) t"
  with wf net_only_shrinks show "net_allows allow t" by (auto simp: net_narrow_def split: sum.splits)
qed

lemma narrow_chain_denies: "net_denied allow t \<Longrightarrow> net_denied (foldl net_narrow allow ps) t"
proof (induction ps arbitrary: allow)
  case (Cons p ps)
  then show ?case using net_only_keeps_denies by (auto simp: net_narrow_def split: sum.splits)
qed simp

section \<open>Blocks\<close>


section \<open>Printed addresses\<close>








text \<open>The addresses of a block.\<close>

definition in_block :: "string \<Rightarrow> IpAddr \<Rightarrow> bool" where
  "in_block h ip =
     (case normalize_ip ip of
        V4 a \<Rightarrow> (case parse_ipv4_cidr h of Some (base, bits) \<Rightarrow> unat a div 2 ^ (32 - bits) = unat base div 2 ^ (32 - bits) | None \<Rightarrow> False)
      | V6 a \<Rightarrow> (case parse_ipv6_cidr h of Some (base, bits) \<Rightarrow> unat a div 2 ^ (128 - bits) = unat base div 2 ^ (128 - bits) | None \<Rightarrow> False))"



section \<open>Dialling\<close>


text \<open>A host lookup reports each address once and never an IPv4 address in IPv6 clothing.\<close>

lemma push_ips_facts: "distinct ips \<Longrightarrow> distinct (push_ips addrs ips) \<and>
    set (push_ips addrs ips) = set ips \<union> (normalize_ip \<circ> socket_ip) ` set addrs"
  by (induction addrs arbitrary: ips) (auto simp: Let_def)

lemma resolve_host_Ok:
  "resolve_host_admitted_typed dns allow host = Ok ips \<Longrightarrow> host_admitted allow host \<and> distinct ips
     \<and> (\<exists>addrs. dns (canonical_dns_name host) 0 = Ok addrs \<and> set ips = (normalize_ip \<circ> socket_ip) ` set addrs)"
  using push_ips_facts[of "[]"] by (auto simp: resolve_host_admitted_typed_def split: if_splits sum.splits)

section \<open>Properties\<close>

text \<open>
  C5: Narrowing a well-formed network capability any number of times by well-formed patterns never
  widens it: what is admitted after more narrowings was admitted after fewer, and an address that was
  denied at the start stays refused.
\<close>

theorem net_narrowing_never_widens:
  assumes "list_all allow_entry_ok allow" "list_all patterns_ok (earlier @ later)"
  shows "(net_allows (foldl net_narrow allow (earlier @ later)) target \<longrightarrow> net_allows (foldl net_narrow allow earlier) target)
    \<and> (net_denied allow target \<longrightarrow> \<not> net_allows (foldl net_narrow allow (earlier @ later)) target)"
  using net_policy.guarded_prefix[OF assms] narrow_chain_denies[of allow target "earlier @ later"]
  by (auto simp: net_allows_iff simp del: foldl_append)

theorem net_narrowing_never_widens_witness:
  "net_allows (foldl net_narrow [''*:*'', ''!10.0.0.0/8:*''] ([''example.com:443'' @ [CHR 0x0A] @ ''192.168.0.0/16:*''] @ [''EXAMPLE.com.:0443'']))
      ''example.com:443''
   \<and> \<not> net_allows (foldl net_narrow [''*:*'', ''!10.0.0.0/8:*''] ([''example.com:443'' @ [CHR 0x0A] @ ''192.168.0.0/16:*''] @ [''EXAMPLE.com.:0443'']))
      ''[::ffff:10.1.2.3]:443''"
proof -
  let ?allow = "[''*:*'', ''!10.0.0.0/8:*'']" and ?first = "''example.com:443'' @ [CHR 0x0A] @ ''192.168.0.0/16:*''" and ?second = "''EXAMPLE.com.:0443''"
  have ok: "list_all allow_entry_ok ?allow" "list_all patterns_ok ([?first] @ [?second])" by code_simp+
  have "net_denied ?allow ''[::ffff:10.1.2.3]:443''" by code_simp
  moreover have "net_allows (foldl net_narrow ?allow ([?first] @ [?second])) ''example.com:443''" by code_simp
  ultimately show ?thesis using net_narrowing_never_widens[OF ok] by blast
qed






text \<open>
  The two places where the policy gives less than its comments promise. A malformed parent can be
  widened, because the pattern is compared with it as if it were an address: \<open>*.\<close> and \<open>*\<close> have one
  canonical name. And a scoped IPv6 address is printed with its scope, which is no address to the parser, so
  it escapes a deny on its block when the name is admitted.
\<close>

lemma malformed_parent_widens:
  "net_only [''*.:80''] ''*:80'' = Ok [''*:80''] \<and> \<not> net_allows [''*.:80''] ''example.com:80'' \<and> net_allows [''*:80''] ''example.com:80''"
  by code_simp

lemma scoped_address_evades_deny:
  "resolve_admitted_typed (\<lambda>_. Ok [SocketV6 0xFE800000000000000000000000000001 80 2]) [''printer.local:80'', ''!fe80::/10:*''] ''printer.local:80'' =
     Ok [SocketV6 0xFE800000000000000000000000000001 80 2]
   \<and> in_block ''fe80::/10'' (V6 0xFE800000000000000000000000000001)"
proof
  let ?allow = "[''printer.local:80'', ''!fe80::/10:*'']" and ?sa = "SocketV6 0xFE800000000000000000000000000001 80 2"
  have "show_socket ?sa = ''[fe80::1%2]:80''" by code_simp
  moreover have "\<not> net_denied ?allow ''[fe80::1%2]:80''" "\<not> net_allows ?allow ''[fe80::1%2]:80''" "net_allows ?allow ''printer.local:80''"
    by code_simp+
  ultimately show "resolve_admitted_typed (\<lambda>_. Ok [?sa]) ?allow ''printer.local:80'' = Ok [?sa]"
    by (simp only: resolve_admitted_typed_def) (simp add: net_allows_iff)
  show "in_block ''fe80::/10'' (V6 0xFE800000000000000000000000000001)" by code_simp
qed

end
