(* ===== verification/Host_Menu.thy ===== *)
theory Host_Menu
  imports Cap_Sets
begin

text \<open>
  Host menus (crates/witchy-caps/src/menu.rs): what one host can originate, what a program requires of it,
  the portability check and the grant plan that binds requirements to providers. The TOML reader is a
  third-party package: it is a parameter that yields the raw document. The properties show that a plan
  exists exactly when the menu covers the requirements, that it holds exactly what was requested, and that
  the planner never reaches its \<open>expect\<close>.
\<close>

section \<open>Menus and requirements\<close>

datatype MenuAxis = RuntimeAxis | BuildAxis

datatype Determinism = Deterministic | Nondeterministic

datatype HostFacility = Argv | Vm

fun facility_name :: "HostFacility \<Rightarrow> string" where
  "facility_name Argv = ''argv''"
| "facility_name Vm = ''vm''"

definition facility_from_name :: "string \<Rightarrow> HostFacility option" where
  "facility_from_name name =
     (if name = ''argv'' then Some Argv else if name = ''vm'' then Some Vm else None)"

interpretation facility: coding facility_name facility_from_name
proof unfold_locales
  fix f n
  show "facility_from_name (facility_name f) = Some f" by (cases f) (simp_all add: facility_from_name_def)
  show "facility_from_name n = Some f \<Longrightarrow> facility_name f = n" by (auto simp: facility_from_name_def split: if_splits)
qed

fun facility_index :: "HostFacility \<Rightarrow> nat" where
  "facility_index Argv = 0"
| "facility_index Vm = 1"

instantiation HostFacility :: linorder
begin

definition less_eq_HostFacility :: "HostFacility \<Rightarrow> HostFacility \<Rightarrow> bool" where
  "less_eq_HostFacility a b \<longleftrightarrow> facility_index a \<le> facility_index b"

definition less_HostFacility :: "HostFacility \<Rightarrow> HostFacility \<Rightarrow> bool" where
  "less_HostFacility a b \<longleftrightarrow> facility_index a < facility_index b"

instance
proof
  fix a b :: HostFacility
  show "a \<le> b \<Longrightarrow> b \<le> a \<Longrightarrow> a = b" by (cases a; cases b) (simp_all add: less_eq_HostFacility_def)
qed (auto simp: less_eq_HostFacility_def less_HostFacility_def)

end

record CapabilityRequirement =
  cr_kind :: CapabilityKind
  cr_rights :: "CapabilityRight list"

record HostRequirements =
  hr_capabilities :: "CapabilityRequirement list"
  hr_facilities :: "HostFacility list"

text \<open>\<open>'v\<close> is the type of a TOML value; settings are carried and never inspected.\<close>

record 'v HostGrant =
  hg_kind :: CapabilityKind
  hg_rights :: "CapabilityRight list"
  hg_provider :: string
  hg_determinism :: Determinism
  hg_settings :: "(string, 'v) btmap"

record 'v FacilityGrant =
  fg_facility :: HostFacility
  fg_provider :: string
  fg_determinism :: Determinism
  fg_settings :: "(string, 'v) btmap"

record EnforcementMenu =
  em_filesystem :: "string option"
  em_syscalls :: "string option"
  em_csp :: "string option"

record 'v HostMenu =
  hm_host :: string
  hm_axis :: MenuAxis
  hm_grants :: "'v HostGrant list"
  hm_facilities :: "'v FacilityGrant list"
  hm_enforcement :: EnforcementMenu

record 'v PlannedCapability =
  pc_requirement :: CapabilityRequirement
  pc_provider :: string
  pc_determinism :: Determinism
  pc_settings :: "(string, 'v) btmap"

record 'v PlannedFacility =
  pf_facility :: HostFacility
  pf_provider :: string
  pf_determinism :: Determinism
  pf_settings :: "(string, 'v) btmap"

record 'v GrantPlan =
  gp_host :: string
  gp_axis :: MenuAxis
  gp_capabilities :: "'v PlannedCapability list"
  gp_facilities :: "'v PlannedFacility list"

record PortabilityReport =
  missing_capabilities :: "CapabilityRequirement list"
  missing_rights :: "CapabilityRequirement list"
  missing_facilities :: "HostFacility list"

definition portable :: "PortabilityReport \<Rightarrow> bool" where
  "portable r \<longleftrightarrow> missing_capabilities r = [] \<and> missing_rights r = [] \<and> missing_facilities r = []"

record 'v RawGrant =
  rg_provider :: string
  rg_determinism :: Determinism
  rg_rights :: "string list"
  rg_settings :: "(string, 'v) btmap"

record 'v RawMenu =
  rm_host :: string
  rm_axis :: MenuAxis
  rm_grants :: "(string, 'v RawGrant) btmap"
  rm_facilities :: "(string, 'v RawGrant) btmap"
  rm_enforcement :: EnforcementMenu

section \<open>Rights\<close>

definition right_position :: "CapabilityKind \<Rightarrow> CapabilityRight \<Rightarrow> nat" where
  "right_position kind right = (case position (\<lambda>c. c = right) (kind_rights kind) of Some i \<Rightarrow> i | None \<Rightarrow> 2 ^ 64 - 1)"

definition order_rights :: "CapabilityKind \<Rightarrow> CapabilityRight list \<Rightarrow> CapabilityRight list" where
  "order_rights kind = sort_key (right_position kind)"

definition push_new :: "'a \<Rightarrow> 'a list \<Rightarrow> 'a list" where
  "push_new x xs = (if x \<in> set xs then xs else xs @ [x])"

fun parse_right_names :: "CapabilityKind \<Rightarrow> string list \<Rightarrow> CapabilityRight list \<Rightarrow> (string, CapabilityRight list) result" where
  "parse_right_names kind [] rights = Ok rights"
| "parse_right_names kind (name # names) rights =
     rbind (ok_or (kind_right kind name) (''unknown right `'' @ name @ ''` for capability `'' @ kind_name kind @ ''`'')) (\<lambda>right.
       if right \<in> set rights then Err (''duplicate right `'' @ name @ ''` for capability `'' @ kind_name kind @ ''`'')
       else parse_right_names kind names (rights @ [right]))"

definition parse_rights :: "CapabilityKind \<Rightarrow> string list \<Rightarrow> (string, CapabilityRight list) result" where
  "parse_rights kind names =
     (if kind_rights kind = [] \<and> names \<noteq> [] then Err (''right-free capability `'' @ kind_name kind @ ''` cannot declare rights'')
      else if kind_rights kind \<noteq> [] \<and> names = [] then
        Err (''host menu capability `'' @ kind_name kind @ ''` must explicitly declare its provided rights'')
      else rbind (parse_right_names kind names []) (\<lambda>rights. Ok (order_rights kind rights)))"

section \<open>Requirements\<close>

definition typed_right :: "CapabilityKind \<Rightarrow> string \<Rightarrow> CapabilityRight list \<Rightarrow> (string, CapabilityRight list) result" where
  "typed_right kind right rights =
     rbind (ok_or (kind_right kind right) (''unknown right `'' @ right @ ''` for capability `'' @ kind_name kind @ ''`''))
       (\<lambda>r. Ok (push_new r rights))"

fun typed_rights :: "CapabilityKind \<Rightarrow> string list \<Rightarrow> CapabilityRight list \<Rightarrow> (string, CapabilityRight list) result" where
  "typed_rights kind [] acc = Ok acc"
| "typed_rights kind (right # rights) acc = rbind (typed_right kind right acc) (typed_rights kind rights)"

definition requirement_of :: "string \<times> Rights \<Rightarrow> (string, CapabilityRequirement) result" where
  "requirement_of e =
     (case e of (name, rights) \<Rightarrow>
        rbind (ok_or (kind_from_name name) (''unknown capability `'' @ name @ ''` in host requirements'')) (\<lambda>kind.
        rbind (typed_rights kind rights []) (\<lambda>typed.
        Ok \<lparr>cr_kind = kind, cr_rights = order_rights kind typed\<rparr>)))"

definition from_cap_set :: "CapSet \<Rightarrow> (string, HostRequirements) result" where
  "from_cap_set capabilities =
     rbind (rtraverse requirement_of capabilities) (\<lambda>requirements.
       Ok \<lparr>hr_capabilities = requirements, hr_facilities = []\<rparr>)"

definition require_facility :: "HostFacility \<Rightarrow> HostRequirements \<Rightarrow> HostRequirements" where
  "require_facility facility r = r\<lparr>hr_facilities := push_new facility (hr_facilities r)\<rparr>"

definition merge_requirement ::
    "CapabilityRequirement \<Rightarrow> (CapabilityKind, CapabilityRight list) btmap \<Rightarrow> (CapabilityKind, CapabilityRight list) btmap" where
  "merge_requirement requirement = btm_entry (cr_kind requirement) [] (fold push_new (cr_rights requirement))"

definition normalized :: "HostRequirements \<Rightarrow> HostRequirements" where
  "normalized r =
     \<lparr>hr_capabilities = map (\<lambda>(kind, rights). \<lparr>cr_kind = kind, cr_rights = order_rights kind rights\<rparr>)
        (fold merge_requirement (hr_capabilities r) []),
      hr_facilities = remdups_adj (sort (hr_facilities r))\<rparr>"

section \<open>Reading a menu\<close>

fun axis_name :: "MenuAxis \<Rightarrow> string" where
  "axis_name RuntimeAxis = ''runtime''"
| "axis_name BuildAxis = ''build''"

fun expected_class :: "MenuAxis \<Rightarrow> CapabilityClass" where
  "expected_class RuntimeAxis = HostClass"
| "expected_class BuildAxis = BuildClass"

fun class_debug :: "CapabilityClass \<Rightarrow> string" where
  "class_debug HostClass = ''Host''"
| "class_debug DerivedClass = ''Derived''"
| "class_debug BuildClass = ''Build''"

definition parse_grant :: "MenuAxis \<Rightarrow> string \<times> 'v RawGrant \<Rightarrow> (string, 'v HostGrant) result" where
  "parse_grant axis e =
     (case e of (name, raw) \<Rightarrow>
        rbind (ok_or (kind_from_name name) (''host menu contains unknown capability `'' @ name @ ''`'')) (\<lambda>kind.
        if kind_class kind \<noteq> expected_class axis then
          Err (axis_name axis @ '' menu cannot grant `'' @ kind_name kind @ ''` ('' @ class_debug (kind_class kind) @ '' capability)'')
        else if trim_is_empty (rg_provider raw) then
          Err (''host menu capability `'' @ kind_name kind @ ''` has an empty provider'')
        else rbind (parse_rights kind (rg_rights raw)) (\<lambda>rights.
          Ok \<lparr>hg_kind = kind, hg_rights = rights, hg_provider = rg_provider raw,
              hg_determinism = rg_determinism raw, hg_settings = rg_settings raw\<rparr>)))"

definition parse_facility :: "MenuAxis \<Rightarrow> string \<times> 'v RawGrant \<Rightarrow> (string, 'v FacilityGrant) result" where
  "parse_facility axis e =
     (case e of (name, raw) \<Rightarrow>
        rbind (ok_or (facility_from_name name) (''host menu contains unknown facility `'' @ name @ ''`'')) (\<lambda>facility.
        if axis = BuildAxis then Err (''build menu cannot provide runtime facility `'' @ facility_name facility @ ''`'')
        else if rg_rights raw \<noteq> [] then Err (''host facility `'' @ facility_name facility @ ''` cannot declare capability rights'')
        else if trim_is_empty (rg_provider raw) then
          Err (''host menu facility `'' @ facility_name facility @ ''` has an empty provider'')
        else Ok \<lparr>fg_facility = facility, fg_provider = rg_provider raw,
                 fg_determinism = rg_determinism raw, fg_settings = rg_settings raw\<rparr>))"

definition nonempty_provider :: "string \<Rightarrow> string option \<Rightarrow> (string, string option) result" where
  "nonempty_provider layer provider =
     (case provider of
        Some p \<Rightarrow> if trim_is_empty p then Err (''host menu enforcement `'' @ layer @ ''` has an empty provider'') else Ok (Some p)
      | None \<Rightarrow> Ok None)"

definition menu_parse :: "(string \<Rightarrow> (string, 'v RawMenu) result) \<Rightarrow> string \<Rightarrow> (string, 'v HostMenu) result" where
  "menu_parse toml_from_str src =
     (case toml_from_str src of
        Inl e \<Rightarrow> Err (''host menu is not valid TOML: '' @ e)
      | Inr raw \<Rightarrow>
          if trim_is_empty (rm_host raw) then Err ''host menu has an empty `host` name''
          else rbind (rtraverse (parse_grant (rm_axis raw)) (rm_grants raw)) (\<lambda>grants.
               rbind (rtraverse (parse_facility (rm_axis raw)) (rm_facilities raw)) (\<lambda>facilities.
               rbind (nonempty_provider ''filesystem'' (em_filesystem (rm_enforcement raw))) (\<lambda>filesystem.
               rbind (nonempty_provider ''syscalls'' (em_syscalls (rm_enforcement raw))) (\<lambda>syscalls.
               rbind (nonempty_provider ''csp'' (em_csp (rm_enforcement raw))) (\<lambda>csp.
               Ok \<lparr>hm_host = rm_host raw, hm_axis = rm_axis raw, hm_grants = grants, hm_facilities = facilities,
                   hm_enforcement = \<lparr>em_filesystem = filesystem, em_syscalls = syscalls, em_csp = csp\<rparr>\<rparr>))))))"

section \<open>Checking and planning\<close>

definition find_grant :: "'v HostMenu \<Rightarrow> CapabilityKind \<Rightarrow> 'v HostGrant option" where
  "find_grant menu kind = List.find (\<lambda>g. hg_kind g = kind) (hm_grants menu)"

definition find_facility :: "'v HostMenu \<Rightarrow> HostFacility \<Rightarrow> 'v FacilityGrant option" where
  "find_facility menu facility = List.find (\<lambda>g. fg_facility g = facility) (hm_facilities menu)"

definition check_requirement :: "'v HostMenu \<Rightarrow> CapabilityRequirement \<Rightarrow> PortabilityReport \<Rightarrow> PortabilityReport" where
  "check_requirement menu requirement report =
     (case find_grant menu (cr_kind requirement) of
        None \<Rightarrow> report\<lparr>missing_capabilities := missing_capabilities report @ [requirement]\<rparr>
      | Some grant \<Rightarrow>
          (let missing = filter (\<lambda>r. r \<notin> set (hg_rights grant)) (cr_rights requirement) in
           if missing \<noteq> [] then report\<lparr>missing_rights := missing_rights report @ [\<lparr>cr_kind = cr_kind requirement, cr_rights = missing\<rparr>]\<rparr>
           else report))"

definition check_facility :: "'v HostMenu \<Rightarrow> HostFacility \<Rightarrow> PortabilityReport \<Rightarrow> PortabilityReport" where
  "check_facility menu facility report =
     (if \<not> list_ex (\<lambda>g. fg_facility g = facility) (hm_facilities menu)
      then report\<lparr>missing_facilities := missing_facilities report @ [facility]\<rparr> else report)"

definition menu_check :: "'v HostMenu \<Rightarrow> HostRequirements \<Rightarrow> PortabilityReport" where
  "menu_check menu requirements =
     fold (check_facility menu) (hr_facilities requirements)
       (fold (check_requirement menu) (hr_capabilities requirements)
         \<lparr>missing_capabilities = [], missing_rights = [], missing_facilities = []\<rparr>)"

text \<open>A plan fails with the report, or panics in an \<open>expect\<close>.\<close>

datatype plan_error = Unportable PortabilityReport | PlanPanic

definition plan_capability :: "'v HostMenu \<Rightarrow> CapabilityRequirement \<Rightarrow> (plan_error, 'v PlannedCapability) result" where
  "plan_capability menu requirement =
     rbind (ok_or (find_grant menu (cr_kind requirement)) PlanPanic) (\<lambda>grant.
       Ok \<lparr>pc_requirement = requirement, pc_provider = hg_provider grant,
           pc_determinism = hg_determinism grant, pc_settings = hg_settings grant\<rparr>)"

definition plan_facility :: "'v HostMenu \<Rightarrow> HostFacility \<Rightarrow> (plan_error, 'v PlannedFacility) result" where
  "plan_facility menu facility =
     rbind (ok_or (find_facility menu facility) PlanPanic) (\<lambda>grant.
       Ok \<lparr>pf_facility = facility, pf_provider = fg_provider grant,
           pf_determinism = fg_determinism grant, pf_settings = fg_settings grant\<rparr>)"

definition menu_plan :: "'v HostMenu \<Rightarrow> HostRequirements \<Rightarrow> (plan_error, 'v GrantPlan) result" where
  "menu_plan menu requirements =
     (let req = normalized requirements; report = menu_check menu req in
      if \<not> portable report then Err (Unportable report)
      else rbind (rtraverse (plan_capability menu) (hr_capabilities req)) (\<lambda>capabilities.
           rbind (rtraverse (plan_facility menu) (hr_facilities req)) (\<lambda>facilities.
           Ok \<lparr>gp_host = hm_host menu, gp_axis = hm_axis menu, gp_capabilities = capabilities, gp_facilities = facilities\<rparr>)))"

section \<open>Facts\<close>

text \<open>What a list of requirements asks for: kinds, and rights of kinds.\<close>

type_synonym kind_fact = "CapabilityKind \<times> CapabilityRight option"

definition kind_facts :: "CapabilityKind \<Rightarrow> CapabilityRight set \<Rightarrow> kind_fact set" where
  "kind_facts kind rights = insert (kind, None) ((\<lambda>r. (kind, Some r)) ` rights)"

definition requirement_facts :: "CapabilityRequirement list \<Rightarrow> kind_fact set" where
  "requirement_facts rs = (\<Union>r \<in> set rs. kind_facts (cr_kind r) (set (cr_rights r)))"

text \<open>What a menu offers: its first grant of each kind.\<close>

definition menu_facts :: "'v HostMenu \<Rightarrow> kind_fact set" where
  "menu_facts menu = {(k, x). \<exists>g. find_grant menu k = Some g \<and> (case x of None \<Rightarrow> True | Some r \<Rightarrow> r \<in> set (hg_rights g))}"

definition menu_covers :: "'v HostMenu \<Rightarrow> HostRequirements \<Rightarrow> bool" where
  "menu_covers menu r \<longleftrightarrow> requirement_facts (hr_capabilities r) \<subseteq> menu_facts menu
     \<and> set (hr_facilities r) \<subseteq> fg_facility ` set (hm_facilities menu)"

lemma requirement_facts_simps [simp]:
  "requirement_facts [] = {}" "requirement_facts (r # rs) = kind_facts (cr_kind r) (set (cr_rights r)) \<union> requirement_facts rs"
  by (simp_all add: requirement_facts_def)

lemma set_push_new [simp]: "set (push_new x xs) = insert x (set xs)"
  by (auto simp: push_new_def)

lemma set_fold_push [simp]: "set (fold push_new xs acc) = set xs \<union> set acc"
  by (induction xs arbitrary: acc) auto

lemma set_order_rights [simp]: "set (order_rights kind rs) = set rs"
  by (simp add: order_rights_def)

section \<open>Normal form\<close>

text \<open>The facts of the map that merging builds.\<close>

definition merged_facts :: "(CapabilityKind, CapabilityRight list) btmap \<Rightarrow> kind_fact set" where
  "merged_facts m = {(k, x). \<exists>rs. btm_get m k = Some rs \<and> (case x of None \<Rightarrow> True | Some r \<Rightarrow> r \<in> set rs)}"

lemma fact_ext: "(\<And>k. (k, None) \<in> A \<longleftrightarrow> (k, None) \<in> B) \<Longrightarrow> (\<And>k r. (k, Some r) \<in> A \<longleftrightarrow> (k, Some r) \<in> B) \<Longrightarrow> A = (B :: ('k \<times> 'r option) set)"
  by (metis not_None_eq subsetI subset_antisym surj_pair)

lemma fact_simps [simp]:
  "(k, None) \<in> merged_facts m \<longleftrightarrow> btm_get m k \<noteq> None" "(k, Some r) \<in> merged_facts m \<longleftrightarrow> (\<exists>rs. btm_get m k = Some rs \<and> r \<in> set rs)"
  "(k, None) \<in> kind_facts c R \<longleftrightarrow> k = c" "(k, Some r) \<in> kind_facts c R \<longleftrightarrow> k = c \<and> r \<in> R"
  "(k, None) \<in> menu_facts menu \<longleftrightarrow> find_grant menu k \<noteq> None"
  "(k, Some r) \<in> menu_facts menu \<longleftrightarrow> (\<exists>g. find_grant menu k = Some g \<and> r \<in> set (hg_rights g))"
  by (auto simp: merged_facts_def kind_facts_def menu_facts_def)

lemma merge_requirement_step:
  assumes "btm_ok m"
  shows "btm_ok (merge_requirement r m) \<and> merged_facts (merge_requirement r m) = merged_facts m \<union> kind_facts (cr_kind r) (set (cr_rights r))"
proof
  show "btm_ok (merge_requirement r m)" using assms by (simp add: merge_requirement_def btm_ok_entry)
  show "merged_facts (merge_requirement r m) = merged_facts m \<union> kind_facts (cr_kind r) (set (cr_rights r))"
    by (rule fact_ext; cases "btm_get m (cr_kind r)") (auto simp: merge_requirement_def btm_get_entry[OF assms])
qed

lemma merge_requirements:
  "btm_ok m \<Longrightarrow> btm_ok (fold merge_requirement rs m) \<and> merged_facts (fold merge_requirement rs m) = merged_facts m \<union> requirement_facts rs"
  by (induction rs arbitrary: m) (auto simp: merge_requirement_step)

lemma merged_requirement_facts:
  assumes "btm_ok m"
  shows "requirement_facts (map (\<lambda>(k, rs). \<lparr>cr_kind = k, cr_rights = order_rights k rs\<rparr>) m) = merged_facts m"
proof -
  have "requirement_facts (map (\<lambda>(k, rs). \<lparr>cr_kind = k, cr_rights = order_rights k rs\<rparr>) m) = (\<Union>(k, rs) \<in> set m. kind_facts k (set rs))"
    by (auto simp: requirement_facts_def)
  also have "\<dots> = merged_facts m"
    by (rule fact_ext) (force simp: btm.entries_get[OF assms, symmetric])+
  finally show ?thesis .
qed

lemma strict_remdups_adj: "sorted xs \<Longrightarrow> sorted_wrt (<) (remdups_adj (xs :: 'a::linorder list))"
proof (induction xs rule: remdups_adj.induct)
  case (3 x y xs)
  have "z \<in> set (remdups_adj (y # xs)) \<Longrightarrow> y \<le> z" for z using "3.prems" by auto
  with 3 show ?case by (auto simp: less_le) (metis order_antisym_conv)+
qed simp_all

lemma normalized_facts:
  "requirement_facts (hr_capabilities (normalized r)) = requirement_facts (hr_capabilities r)"
  "set (hr_facilities (normalized r)) = set (hr_facilities r)"
  "sorted_wrt (<) (map cr_kind (hr_capabilities (normalized r)))" "sorted_wrt (<) (hr_facilities (normalized r))"
proof -
  let ?m = "fold merge_requirement (hr_capabilities r) []"
  have m: "btm_ok ?m" "merged_facts ?m = requirement_facts (hr_capabilities r)"
    using merge_requirements[of "[]" "hr_capabilities r"] by (simp_all add: merged_facts_def)
  show "requirement_facts (hr_capabilities (normalized r)) = requirement_facts (hr_capabilities r)"
    using merged_requirement_facts[OF m(1)] m(2) by (simp add: normalized_def)
  show "set (hr_facilities (normalized r)) = set (hr_facilities r)" by (simp add: normalized_def)
  have "map cr_kind (hr_capabilities (normalized r)) = map fst ?m" by (simp add: normalized_def split_def comp_def)
  with m(1) show "sorted_wrt (<) (map cr_kind (hr_capabilities (normalized r)))" by simp
  show "sorted_wrt (<) (hr_facilities (normalized r))"
    by (simp add: normalized_def strict_remdups_adj)
qed

section \<open>The check\<close>

lemma kind_facts_subset: "kind_facts k R \<subseteq> menu_facts menu \<longleftrightarrow> (\<exists>g. find_grant menu k = Some g \<and> R \<subseteq> set (hg_rights g))"
  by (cases "find_grant menu k") (auto simp: kind_facts_def)

lemma portable_check_requirement:
  "portable (check_requirement menu r rep) \<longleftrightarrow> portable rep \<and> kind_facts (cr_kind r) (set (cr_rights r)) \<subseteq> menu_facts menu"
  unfolding kind_facts_subset
  by (auto simp: check_requirement_def portable_def Let_def filter_empty_conv split: option.splits)

lemma portable_check_facility:
  "portable (check_facility menu f rep) \<longleftrightarrow> portable rep \<and> f \<in> fg_facility ` set (hm_facilities menu)"
  by (auto simp: check_facility_def portable_def list_ex_iff)

lemma portable_fold_requirements:
  "portable (fold (check_requirement menu) rs rep) \<longleftrightarrow> portable rep \<and> requirement_facts rs \<subseteq> menu_facts menu"
  by (induction rs arbitrary: rep) (simp_all add: portable_check_requirement)

lemma portable_fold_facilities:
  "portable (fold (check_facility menu) fs rep) \<longleftrightarrow> portable rep \<and> set fs \<subseteq> fg_facility ` set (hm_facilities menu)"
  by (induction fs arbitrary: rep) (simp_all add: portable_check_facility)

lemma menu_check_portable: "portable (menu_check menu r) \<longleftrightarrow> menu_covers menu r"
  unfolding menu_check_def portable_fold_requirements portable_fold_facilities menu_covers_def by (simp add: portable_def)

section \<open>Requirements of a footprint\<close>

definition named_fact :: "kind_fact \<Rightarrow> cap_fact" where
  "named_fact f = (kind_name (fst f), map_option right_name (snd f))"

lemma typed_rights_Ok: "typed_rights kind names acc = Ok rs \<Longrightarrow> right_name ` set rs = right_name ` set acc \<union> set names"
proof (induction names arbitrary: acc)
  case (Cons n names)
  then obtain r where "kind_right kind n = Some r" "typed_rights kind names (push_new r acc) = Ok rs"
    by (auto simp: typed_right_def result_simps)
  with Cons.IH[of "push_new r acc"] show ?case by (auto simp: kind_right_Some_iff)
qed simp

lemma typed_rights_total: "(\<And>n. n \<in> set names \<Longrightarrow> \<exists>r. kind_right kind n = Some r) \<Longrightarrow> \<exists>rs. typed_rights kind names acc = Ok rs"
proof (induction names arbitrary: acc)
  case (Cons n names)
  then obtain r where "kind_right kind n = Some r" by auto
  with Cons show ?case by (simp add: typed_right_def)
qed simp

lemma requirement_of_Ok: "requirement_of (name, rights) = Ok r \<Longrightarrow>
    named_fact ` kind_facts (cr_kind r) (set (cr_rights r)) = rights_facts name (set rights)"
proof -
  assume "requirement_of (name, rights) = Ok r"
  then obtain kind typed where k: "kind_from_name name = Some kind" "typed_rights kind rights [] = Ok typed"
      "r = \<lparr>cr_kind = kind, cr_rights = order_rights kind typed\<rparr>"
    by (auto simp: requirement_of_def result_simps)
  have "kind_name kind = name" by (rule kind_from_name_sound[OF k(1)])
  then have "named_fact ` kind_facts kind (set typed) = insert (name, None) ((\<lambda>n. (name, Some n)) ` right_name ` set typed)"
    by (simp add: kind_facts_def named_fact_def image_image)
  with typed_rights_Ok[OF k(2)] k(3) show ?thesis by (simp add: rights_facts_def)
qed

text \<open>Requirements ask for exactly the facts of the capability set they come from.\<close>

lemma from_cap_set_facts: "from_cap_set cs = Ok r \<Longrightarrow> named_fact ` requirement_facts (hr_capabilities r) = cap_facts cs"
proof -
  assume "from_cap_set cs = Ok r"
  then have "list_all2 (\<lambda>e q. requirement_of e = Ok q) cs (hr_capabilities r)" by (auto simp: from_cap_set_def result_simps)
  then show ?thesis
  proof (induction rule: list_all2_induct)
    case (Cons e es q qs)
    then show ?case using requirement_of_Ok[of "fst e" "snd e" q] by (simp add: cap_facts_Cons image_Un)
  qed simp
qed

lemma from_cap_set_total:
  assumes "\<And>name rights. (name, rights) \<in> set cs \<Longrightarrow> \<exists>kind. kind_from_name name = Some kind \<and> (\<forall>n \<in> set rights. \<exists>r. kind_right kind n = Some r)"
  shows "\<exists>r. from_cap_set cs = Ok r"
proof -
  have "\<exists>q. requirement_of e = Ok q" if "e \<in> set cs" for e
  proof (cases e)
    case (Pair name rights)
    with that assms obtain kind where k: "kind_from_name name = Some kind" "\<forall>n \<in> set rights. \<exists>r. kind_right kind n = Some r" by blast
    with typed_rights_total[of rights kind "[]"] Pair show ?thesis by (auto simp: requirement_of_def)
  qed
  then obtain g where "\<And>e. e \<in> set cs \<Longrightarrow> requirement_of e = Ok (g e)" by metis
  then have "rtraverse requirement_of cs = Ok (map g cs)" by (induction cs) auto
  then show ?thesis by (simp add: from_cap_set_def)
qed

section \<open>Properties\<close>

lemma named_fact_inj: "inj named_fact"
  by (rule injI) (auto simp: named_fact_def kind_names.enc_inj right_name_inj prod_eq_iff
      intro: option.inj_map_strong[of _ _ right_name right_name])

lemma rtraverse_total: "(\<And>x. x \<in> set xs \<Longrightarrow> f x = Ok (g x)) \<Longrightarrow> rtraverse f xs = Ok (map g xs)"
  by (induction xs) auto

text \<open>
  A plan exists exactly when the menu covers the requirements, and then it holds what was required and
  nothing else: the same capabilities and rights, each kind once, and the same facilities. Otherwise the
  caller gets a report, and the planner never panics.
\<close>

theorem menu_plan_exact:
  "case menu_plan menu requirements of
     Inr plan \<Rightarrow> menu_covers menu requirements
       \<and> requirement_facts (map pc_requirement (gp_capabilities plan)) = requirement_facts (hr_capabilities requirements)
       \<and> distinct (map (\<lambda>c. cr_kind (pc_requirement c)) (gp_capabilities plan))
       \<and> set (map pf_facility (gp_facilities plan)) = set (hr_facilities requirements) \<and> distinct (map pf_facility (gp_facilities plan))
   | Inl (Unportable report) \<Rightarrow> \<not> menu_covers menu requirements \<and> \<not> portable report
   | Inl PlanPanic \<Rightarrow> False"
proof -
  let ?req = "normalized requirements"
  have covers: "menu_covers menu ?req \<longleftrightarrow> menu_covers menu requirements" by (simp add: menu_covers_def normalized_facts)
  show ?thesis
  proof (cases "portable (menu_check menu ?req)")
    case False
    then show ?thesis using covers by (simp add: menu_plan_def Let_def menu_check_portable)
  next
    case True
    then have c: "menu_covers menu ?req" by (simp add: menu_check_portable)
    let ?cap = "\<lambda>r. let g = the (find_grant menu (cr_kind r)) in
      \<lparr>pc_requirement = r, pc_provider = hg_provider g, pc_determinism = hg_determinism g, pc_settings = hg_settings g\<rparr>"
    let ?fac = "\<lambda>f. let g = the (find_facility menu f) in
      \<lparr>pf_facility = f, pf_provider = fg_provider g, pf_determinism = fg_determinism g, pf_settings = fg_settings g\<rparr>"
    have "(cr_kind r, None) \<in> menu_facts menu" if "r \<in> set (hr_capabilities ?req)" for r
      using c that by (auto simp: menu_covers_def requirement_facts_def kind_facts_def)
    then have caps: "rtraverse (plan_capability menu) (hr_capabilities ?req) = Ok (map ?cap (hr_capabilities ?req))"
      by (intro rtraverse_total) (fastforce simp: plan_capability_def menu_facts_def)
    have "\<exists>g. find_facility menu f = Some g" if "f \<in> set (hr_facilities ?req)" for f
    proof -
      from that c obtain g where "g \<in> set (hm_facilities menu)" "fg_facility g = f" by (auto simp: menu_covers_def)
      then show ?thesis by (cases "find_facility menu f") (auto simp: find_facility_def find_None)
    qed
    then have facs: "rtraverse (plan_facility menu) (hr_facilities ?req) = Ok (map ?fac (hr_facilities ?req))"
      by (intro rtraverse_total) (fastforce simp: plan_facility_def)
    have "distinct (map cr_kind (hr_capabilities ?req))" "distinct (hr_facilities ?req)"
      using normalized_facts(3,4)[of requirements] by (simp_all add: strict_sorted_iff)
    then show ?thesis using True c covers caps facs
      by (simp add: menu_plan_def Let_def comp_def normalized_facts)
  qed
qed

end
