(* ===== verification/Grant_Docs.thy ===== *)
theory Grant_Docs
  imports Cap_Sets Net_Policy State_Result
begin

text \<open>
  Grant documents (crates/witchy-caps/src/grants.rs), the process environment they draw secrets from
  (crates/witchy-cap-model/src/process_env.rs) and the secret rules of capabilities.rs. A document is
  validated, confers a capability set, is compared with the footprint of the program, and its secrets are
  read from environment variables that are removed in the same step. The TOML reader is a parameter.
  The properties show what the comparison decides, that after launch no secret's variable is left for an
  \<open>Env\<close> holder to read, and that a validated document confers exactly the rights it names.
\<close>

section \<open>Documents\<close>

record FileGrant =
  fg_path :: string
  fg_rights :: "string list"

record DirGrant =
  dg_root :: string
  dg_rights :: "string list"

record ExecGrantDetail =
  eg_programs :: "string list"
  eg_child_paths :: "string list"

datatype ExecGrant = Programs "string list" | Detailed ExecGrantDetail

fun exec_programs :: "ExecGrant \<Rightarrow> string list" where
  "exec_programs (Programs ps) = ps"
| "exec_programs (Detailed d) = eg_programs d"

fun exec_child_paths :: "ExecGrant \<Rightarrow> string list" where
  "exec_child_paths (Programs _) = []"
| "exec_child_paths (Detailed d) = eg_child_paths d"

record SecretGrant =
  sg_from :: string
  sg_sealed :: bool

record 'v UserCapGrant =
  ug_cap_type :: string
  ug_fields :: "(string, 'v) btmap"

record 'v GrantDoc =
  gd_files :: "(string, FileGrant) btmap"
  gd_dirs :: "(string, DirGrant) btmap"
  gd_net :: "(string, string list) btmap"
  gd_fetch :: "(string, string list) btmap"
  gd_env :: "(string, string list) btmap"
  gd_exec :: "(string, ExecGrant) btmap"
  gd_secrets :: "(string, SecretGrant) btmap"
  gd_user_caps :: "(string, 'v UserCapGrant) btmap"

section \<open>Validation\<close>

definition secret_provider_variable :: "string \<Rightarrow> string option" where
  "secret_provider_variable from = (case strip_prefix ''env:'' from of Some v \<Rightarrow> if v \<noteq> [] then Some v else None | None \<Rightarrow> None)"

definition non_empty :: "string \<Rightarrow> string \<Rightarrow> string \<Rightarrow> (string, unit) result" where
  "non_empty label field value = (if value = [] then Err (''grant `'' @ label @ ''` has an empty '' @ field) else Ok ())"

text \<open>\<open>check_rights\<close> from its \<open>i\<close>-th right on.\<close>

fun check_rights_from :: "string \<Rightarrow> CapabilityKind \<Rightarrow> string list \<Rightarrow> string list \<Rightarrow> (string, unit) result" where
  "check_rights_from label kind before [] = Ok ()"
| "check_rights_from label kind before (right # rights) =
     (if kind_right kind right = None then
        Err (''grant `'' @ label @ ''` names unknown right `'' @ right @ ''` (expected one of ''
          @ join_with '', '' (map right_name (kind_rights kind)) @ '')'')
      else if right \<in> set before then Err (''grant `'' @ label @ ''` names right `'' @ right @ ''` twice'')
      else check_rights_from label kind (before @ [right]) rights)"

definition check_rights :: "string \<Rightarrow> CapabilityKind \<Rightarrow> string list \<Rightarrow> (string, unit) result" where
  "check_rights label kind rights = check_rights_from label kind [] rights"

definition check_env_name :: "string \<Rightarrow> string \<Rightarrow> (string, unit) result" where
  "check_env_name name variable =
     (if variable = [] \<or> CHR ''='' \<in> set variable \<or> CHR 0x00 \<in> set variable then
        Err (''grant `[env].'' @ name @ ''` names `'' @ variable @ ''`, which is not an environment variable name'')
      else Ok ())"

definition check_net_pattern :: "string \<Rightarrow> string \<Rightarrow> (string, unit) result" where
  "check_net_pattern name p =
     (case net_pattern_error p of Some e \<Rightarrow> Err (''grant `[net].'' @ name @ ''`: '' @ e) | None \<Rightarrow> Ok ())"

definition check_secret :: "string \<times> SecretGrant \<Rightarrow> (string, unit) result" where
  "check_secret e =
     (case e of (name, secret) \<Rightarrow>
        if secret_provider_variable (sg_from secret) = None then
          Err (''grant `[secrets].'' @ name @ ''` has provider `'' @ sg_from secret @ ''`; expected `env:VAR`'')
        else Ok ())"

definition doc_validate :: "'v GrantDoc \<Rightarrow> (string, unit) result" where
  "doc_validate d =
     rbind (rfor (\<lambda>(name, file). rbind (non_empty (''[files].'' @ name) ''path'' (fg_path file)) (\<lambda>_.
        check_rights (''[files].'' @ name) File (fg_rights file))) (gd_files d)) (\<lambda>_.
     rbind (rfor (\<lambda>(name, dir). rbind (non_empty (''[dirs].'' @ name) ''root'' (dg_root dir)) (\<lambda>_.
        check_rights (''[dirs].'' @ name) Dir (dg_rights dir))) (gd_dirs d)) (\<lambda>_.
     rbind (rfor (\<lambda>(name, patterns). rfor (check_net_pattern name) patterns) (gd_net d)) (\<lambda>_.
     rbind (rfor (\<lambda>(name, origins). rfor (non_empty (''[fetch].'' @ name) ''origin'') origins) (gd_fetch d)) (\<lambda>_.
     rbind (rfor (\<lambda>(name, variables). rfor (check_env_name name) variables) (gd_env d)) (\<lambda>_.
     rbind (rfor (\<lambda>(name, exec). rbind (rfor (non_empty (''[exec].'' @ name) ''program'') (exec_programs exec)) (\<lambda>_.
        rfor (non_empty (''[exec].'' @ name) ''child-path'') (exec_child_paths exec))) (gd_exec d)) (\<lambda>_.
     rbind (rfor check_secret (gd_secrets d)) (\<lambda>_.
     rfor (\<lambda>(name, cap). non_empty (''[user_caps].'' @ name) ''type'' (ug_cap_type cap)) (gd_user_caps d))))))))"

definition doc_parse :: "(string \<Rightarrow> (string, 'v GrantDoc) result) \<Rightarrow> string \<Rightarrow> (string, 'v GrantDoc) result" where
  "doc_parse toml_from_str src =
     (case toml_from_str src of
        Inl e \<Rightarrow> Err (''grant document is not valid TOML: '' @ e)
      | Inr doc \<Rightarrow> rbind (doc_validate doc) (\<lambda>_. Ok doc))"

section \<open>The conferred capability set\<close>

definition collect_rights :: "CapabilityKind \<Rightarrow> string list \<Rightarrow> Rights" where
  "collect_rights kind rights = bts_of (map right_name (List.map_filter (kind_right kind) rights))"

definition insert_if :: "bool \<Rightarrow> string \<Rightarrow> Rights \<Rightarrow> CapSet \<Rightarrow> CapSet" where
  "insert_if b cap rights cs = (if b then btm_insert cap rights cs else cs)"

definition doc_cap_set :: "'v GrantDoc \<Rightarrow> CapSet" where
  "doc_cap_set d =
     insert_if (gd_secrets d \<noteq> []) ''SecretStore'' []
     (insert_if (gd_exec d \<noteq> []) ''Exec'' []
     (insert_if (gd_env d \<noteq> []) ''Env'' []
     (insert_if (gd_fetch d \<noteq> []) ''Fetch'' []
     (insert_if (gd_net d \<noteq> []) ''Net'' (bts_of [''Connect'', ''Listen'', ''Tcp'', ''Udp'', ''Uds''])
     (insert_if (gd_dirs d \<noteq> []) ''Dir'' (collect_rights Dir (concat (map (\<lambda>e. dg_rights (snd e)) (gd_dirs d))))
     (insert_if (gd_files d \<noteq> []) ''File'' (collect_rights File (concat (map (\<lambda>e. fg_rights (snd e)) (gd_files d)))) []))))))"

section \<open>Cross-check\<close>




definition GRANTABLE :: "string list" where
  "GRANTABLE = [''Dir'', ''File'', ''Net'', ''Fetch'', ''Env'', ''Exec'', ''Secret'', ''SecretStore'']"



section \<open>The process environment\<close>

text \<open>
  The environment table holds raw bytes; \<open>std::env::var\<close> reads a variable only when its value is UTF-8.
  The thread probe reports a count or nothing; it is consulted in debug builds.
\<close>

record process =
  pr_env :: "(string, string) btmap"
  pr_threads :: "nat option"
  pr_debug :: bool

datatype ThreadCheck = Enforce | WaiveForTest

definition env_var :: "process \<Rightarrow> string \<Rightarrow> string option" where
  "env_var p name =
     (case btm_get (pr_env p) name of
        Some v \<Rightarrow> if utf8_decode (map ascii_code v) \<noteq> None then Some v else None
      | None \<Rightarrow> None)"

definition assert_single_threaded :: "(process, unit) sr" where
  "assert_single_threaded p =
     (if pr_debug p \<and> (case pr_threads p of Some n \<Rightarrow> 1 < n | None \<Rightarrow> False) then (Err Panic, p) else (Ok (), p))"

text \<open>\<open>std::env::remove_var\<close> panics on a key that no variable can have.\<close>

definition std_remove_var :: "string \<Rightarrow> (process, unit) sr" where
  "std_remove_var name p =
     (if name = [] \<or> CHR ''='' \<in> set name \<or> CHR 0x00 \<in> set name then (Err Panic, p)
      else (Ok (), p\<lparr>pr_env := btm_remove name (pr_env p)\<rparr>))"

definition remove_var_checked :: "string \<Rightarrow> ThreadCheck \<Rightarrow> (process, bool) sr" where
  "remove_var_checked name check =
     sbind (if check = Enforce then assert_single_threaded else sret ()) (\<lambda>_.
     sbind sget (\<lambda>p. sbind (std_remove_var name) (\<lambda>_. sret (env_var p name \<noteq> None))))"

definition remove_var :: "string \<Rightarrow> (process, bool) sr" where
  "remove_var name = remove_var_checked name Enforce"

text \<open>\<open>std::env::set_var\<close> also panics on a value that holds a NUL.\<close>

definition std_set_var :: "string \<Rightarrow> string \<Rightarrow> (process, unit) sr" where
  "std_set_var name v p =
     (if name = [] \<or> CHR ''='' \<in> set name \<or> CHR 0x00 \<in> set name \<or> CHR 0x00 \<in> set v then (Err Panic, p)
      else (Ok (), p\<lparr>pr_env := btm_insert name v (pr_env p)\<rparr>))"

definition set_var :: "string \<Rightarrow> string \<Rightarrow> (process, unit) sr" where
  "set_var name v = sbind assert_single_threaded (\<lambda>_. std_set_var name v)"

definition set_var_for_test :: "string \<Rightarrow> string \<Rightarrow> (process, unit) sr" where
  "set_var_for_test name v = std_set_var name v"

definition remove_var_for_test :: "string \<Rightarrow> (process, bool) sr" where
  "remove_var_for_test name = sbind sget (\<lambda>p. sbind (std_remove_var name) (\<lambda>_. sret (env_var p name \<noteq> None)))"

section \<open>Secrets\<close>

definition resolve_secret_provider :: "process \<Rightarrow> string \<Rightarrow> (string, string) result" where
  "resolve_secret_provider p from =
     (case strip_prefix ''env:'' from of
        Some variable \<Rightarrow>
          if variable = [] then Err ''secret resolver `env:` has an empty variable name''
          else ok_or (env_var p variable) (''secret resolver `env:'' @ variable @ ''`: $'' @ variable @ '' is not set'')
      | None \<Rightarrow> Err (''unsupported secret resolver `'' @ from @ ''` (expected `env:VAR`)''))"

text \<open>The first loop: the values by name and the first failure.\<close>

fun resolve_rows :: "process \<Rightarrow> (string \<times> string) list \<Rightarrow> (string, string) btmap \<Rightarrow> string option \<Rightarrow> (string, string) btmap \<times> string option" where
  "resolve_rows p [] resolved failure = (resolved, failure)"
| "resolve_rows p ((name, from) # rows) resolved failure =
     (case resolve_secret_provider p from of
        Inr bytes \<Rightarrow> resolve_rows p rows (btm_insert name bytes resolved) failure
      | Inl e \<Rightarrow> resolve_rows p rows resolved (case failure of None \<Rightarrow> Some e | Some f \<Rightarrow> Some f))"

definition consumed_variables :: "(string \<times> string) list \<Rightarrow> string btset" where
  "consumed_variables secrets = bts_of (List.map_filter (\<lambda>e. secret_provider_variable (snd e)) secrets)"

definition resolve_and_consume_secret_env_checked ::
    "(string \<times> string) list \<Rightarrow> ThreadCheck \<Rightarrow> (process, (string, string) btmap) sr" where
  "resolve_and_consume_secret_env_checked secrets check =
     sbind sget (\<lambda>p. case resolve_rows p secrets [] None of (resolved, failure) \<Rightarrow>
     sbind (sfor (\<lambda>variable. discard (remove_var_checked variable check)) (consumed_variables secrets)) (\<lambda>_.
     (case failure of Some e \<Rightarrow> serr (Fail e) | None \<Rightarrow> sret resolved)))"

definition resolve_and_consume_secret_env :: "(string \<times> string) list \<Rightarrow> (process, (string, string) btmap) sr" where
  "resolve_and_consume_secret_env secrets = resolve_and_consume_secret_env_checked secrets Enforce"

definition overlap_row :: "(string, string list) btmap \<Rightarrow> string \<times> string \<Rightarrow> (string, unit) result" where
  "overlap_row env_allow e =
     (case e of (secret, from) \<Rightarrow>
        (case secret_provider_variable from of
           None \<Rightarrow> Ok ()
         | Some variable \<Rightarrow> rfor (\<lambda>(binding, names).
             if list_ex (\<lambda>n. n = variable) names then
               Err (''secret `'' @ secret @ ''` reads `'' @ from @ ''`, but `[env].'' @ binding @ ''` also allowlists `''
                 @ variable @ ''` '' @ [CHR 0xE2, CHR 0x80, CHR 0x94] @ '' a secret'' @ [CHR 0x27]
                 @ ''s variable cannot also be readable as ordinary configuration. Remove it from `[env]`, or grant the value only as a secret.'')
             else Ok ()) env_allow))"

definition reject_secret_env_overlap :: "(string \<times> string) list \<Rightarrow> (string, string list) btmap \<Rightarrow> (string, unit) result" where
  "reject_secret_env_overlap secrets env_allow = rfor (overlap_row env_allow) secrets"

section \<open>Reveal rules\<close>

definition secret_reveal_suffix :: "bool \<Rightarrow> string" where
  "secret_reveal_suffix sealed = (if sealed then '' (sealed)'' else '' (revealable)'')"

definition secret_is_signing_key :: "8 word list option \<Rightarrow> 8 word list \<Rightarrow> bool" where
  "secret_is_signing_key signing_key secret =
     (case signing_key of
        Some seed \<Rightarrow> length seed = length secret \<and> fold (\<lambda>(a, b) diff. diff OR (a XOR b)) (zip seed secret) 0 = 0
      | None \<Rightarrow> False)"

definition unmintable_main_cap :: "Param list \<Rightarrow> bool \<Rightarrow> string option" where
  "unmintable_main_cap main_params has_signing_key =
     (let binds_secret = list_ex (\<lambda>p. case p_ty p of Some (Named n _) \<Rightarrow> n = ''Secret'' | _ \<Rightarrow> False) main_params in
      if binds_secret \<and> \<not> has_signing_key then
        Some ''`main` requires a `Secret`, but the host granted none (provide `--signing-key <hex-seed-file>`)''
      else None)"

section \<open>What validation leaves\<close>

lemma check_rights_from_Ok: "check_rights_from label kind before rights = Ok () \<longleftrightarrow>
    (\<forall>r \<in> set rights. kind_right kind r \<noteq> None) \<and> distinct rights \<and> set rights \<inter> set before = {}"
  by (induction rights arbitrary: before) auto

lemma check_rights_Ok: "check_rights label kind rights = Ok () \<longleftrightarrow> (\<forall>r \<in> set rights. kind_right kind r \<noteq> None) \<and> distinct rights"
  by (simp add: check_rights_def check_rights_from_Ok)

lemma collect_rights_exact: "(\<And>r. r \<in> set rights \<Longrightarrow> kind_right kind r \<noteq> None) \<Longrightarrow> set (collect_rights kind rights) = set rights"
proof -
  assume known: "\<And>r. r \<in> set rights \<Longrightarrow> kind_right kind r \<noteq> None"
  have "set (List.map_filter (kind_right kind) rights) = {r. \<exists>n \<in> set rights. kind_right kind n = Some r}"
    by (force simp: List.map_filter_def)
  then have "set (collect_rights kind rights) = {right_name r |r. \<exists>n \<in> set rights. kind_right kind n = Some r}"
    by (auto simp: collect_rights_def)
  also have "\<dots> = set rights" using known by (force simp: kind_right_Some_iff)
  finally show ?thesis .
qed

lemma doc_validate_Ok:
  assumes "doc_validate d = Ok ()"
  shows "(name, file) \<in> set (gd_files d) \<Longrightarrow> fg_path file \<noteq> [] \<and> (\<forall>r \<in> set (fg_rights file). kind_right File r \<noteq> None) \<and> distinct (fg_rights file)"
    "(name, dir) \<in> set (gd_dirs d) \<Longrightarrow> dg_root dir \<noteq> [] \<and> (\<forall>r \<in> set (dg_rights dir). kind_right Dir r \<noteq> None) \<and> distinct (dg_rights dir)"
    "(name, patterns) \<in> set (gd_net d) \<Longrightarrow> p \<in> set patterns \<Longrightarrow> net_pattern_error p = None"
    "(name, variables) \<in> set (gd_env d) \<Longrightarrow> v \<in> set variables \<Longrightarrow> v \<noteq> [] \<and> CHR ''='' \<notin> set v \<and> CHR 0x00 \<notin> set v"
    "(name, secret) \<in> set (gd_secrets d) \<Longrightarrow> secret_provider_variable (sg_from secret) \<noteq> None"
  using assms
  by (force simp: doc_validate_def result_simps non_empty_def check_rights_Ok check_net_pattern_def check_env_name_def check_secret_def
      split: option.splits if_splits)+

section \<open>What the cross-check decides\<close>

text \<open>The facts the comparison looks at: grantable capabilities, and \<open>Net\<close> without its rights.\<close>

definition compared :: "cap_fact \<Rightarrow> bool" where
  "compared f \<longleftrightarrow> fst f \<in> set GRANTABLE \<and> (fst f = ''Net'' \<longrightarrow> snd f = None)"

text \<open>What a document confers, read off its sections; of \<open>Net\<close> only presence, because the document has addresses and not verbs.\<close>

definition doc_confers :: "'v GrantDoc \<Rightarrow> cap_fact \<Rightarrow> bool" where
  "doc_confers d f \<longleftrightarrow>
     (case f of (cap, right) \<Rightarrow>
        if cap = ''File'' then gd_files d \<noteq> [] \<and> (case right of None \<Rightarrow> True | Some r \<Rightarrow> \<exists>e \<in> set (gd_files d). r \<in> set (fg_rights (snd e)))
        else if cap = ''Dir'' then gd_dirs d \<noteq> [] \<and> (case right of None \<Rightarrow> True | Some r \<Rightarrow> \<exists>e \<in> set (gd_dirs d). r \<in> set (dg_rights (snd e)))
        else if cap = ''Net'' then gd_net d \<noteq> []
        else right = None \<and> (cap = ''Fetch'' \<and> gd_fetch d \<noteq> [] \<or> cap = ''Env'' \<and> gd_env d \<noteq> []
          \<or> cap = ''Exec'' \<and> gd_exec d \<noteq> [] \<or> cap = ''SecretStore'' \<and> gd_secrets d \<noteq> []))"

lemma insert_if_ok: "btm_ok cs \<Longrightarrow> btm_ok (insert_if b cap rights cs)"
  by (simp add: insert_if_def btm_ok_insert)

lemma insert_if_get: "btm_ok cs \<Longrightarrow> btm_get (insert_if b cap rights cs) = (if b then (btm_get cs)(cap \<mapsto> rights) else btm_get cs)"
  by (simp add: insert_if_def btm_get_insert)

lemma insert_if_capset: "capset_ok cs \<Longrightarrow> bts_ok rights \<Longrightarrow> capset_ok (insert_if b cap rights cs)"
proof (rule capset_okI)
  assume cs: "capset_ok cs" and rights: "bts_ok rights"
  then have ok: "btm_ok cs" by (simp add: capset_ok_def)
  then show "btm_ok (insert_if b cap rights cs)" by (rule insert_if_ok)
  fix c rs
  assume "btm_get (insert_if b cap rights cs) c = Some rs"
  with rights capset_ok_get[OF cs, of c rs] show "bts_ok rs" by (auto simp: insert_if_get[OF ok] split: if_splits)
qed

lemma doc_cap_set_ok: "capset_ok (doc_cap_set d)"
  unfolding doc_cap_set_def collect_rights_def by (intro insert_if_capset) simp_all

lemma doc_cap_set_get:
  "btm_get (doc_cap_set d) cap =
     (if cap = ''File'' \<and> gd_files d \<noteq> [] then Some (collect_rights File (concat (map (\<lambda>e. fg_rights (snd e)) (gd_files d))))
      else if cap = ''Dir'' \<and> gd_dirs d \<noteq> [] then Some (collect_rights Dir (concat (map (\<lambda>e. dg_rights (snd e)) (gd_dirs d))))
      else if cap = ''Net'' \<and> gd_net d \<noteq> [] then Some (bts_of [''Connect'', ''Listen'', ''Tcp'', ''Udp'', ''Uds''])
      else if cap = ''Fetch'' \<and> gd_fetch d \<noteq> [] \<or> cap = ''Env'' \<and> gd_env d \<noteq> []
        \<or> cap = ''Exec'' \<and> gd_exec d \<noteq> [] \<or> cap = ''SecretStore'' \<and> gd_secrets d \<noteq> [] then Some [] else None)"
  by (simp add: doc_cap_set_def insert_if_get insert_if_ok)

lemma doc_cap_facts:
  assumes "doc_validate d = Ok ()" "compared f"
  shows "f \<in> cap_facts (doc_cap_set d) \<longleftrightarrow> doc_confers d f"
proof -
  have ok: "btm_ok (doc_cap_set d)" using doc_cap_set_ok[of d] by (simp add: capset_ok_def)
  have files: "set (collect_rights File (concat (map (\<lambda>e. fg_rights (snd e)) (gd_files d)))) = (\<Union>e \<in> set (gd_files d). set (fg_rights (snd e)))"
    by (subst collect_rights_exact) (use doc_validate_Ok(1)[OF assms(1)] in fastforce, simp)
  have dirs: "set (collect_rights Dir (concat (map (\<lambda>e. dg_rights (snd e)) (gd_dirs d)))) = (\<Union>e \<in> set (gd_dirs d). set (dg_rights (snd e)))"
    by (subst collect_rights_exact) (use doc_validate_Ok(2)[OF assms(1)] in fastforce, simp)
  obtain cap right where f: "f = (cap, right)" by fastforce
  show ?thesis
  proof (cases right)
    case None
    then show ?thesis by (auto simp: f cap_facts_None doc_cap_set_get doc_confers_def)
  next
    case (Some r)
    then have "cap \<noteq> ''Net''" using assms(2) by (simp add: f compared_def)
    with Some show ?thesis by (auto simp: f cap_facts_Some[OF ok] doc_cap_set_get doc_confers_def files dirs)
  qed
qed








section \<open>What resolution leaves\<close>

lemma strip_variables:
  assumes "sfor (\<lambda>v. discard (remove_var_checked v check)) vs p = (r, p')" "r \<noteq> Err Panic"
  shows "r = Ok () \<and> btm_get (pr_env p') = (\<lambda>n. if n \<in> set vs then None else btm_get (pr_env p) n)"
  using assms
proof (induction vs arbitrary: p)
  case (Cons v vs)
  have step: "discard (remove_var_checked v check) p = (Err Panic, q) \<or>
      discard (remove_var_checked v check) p = (Ok (), p\<lparr>pr_env := btm_remove v (pr_env p)\<rparr>)" if "discard (remove_var_checked v check) p = (x, q)" for x q
    using that by (auto simp: discard_def remove_var_checked_def assert_single_threaded_def std_remove_var_def sbind_def split: if_splits)
  obtain x q where 1: "discard (remove_var_checked v check) p = (x, q)" by (cases "discard (remove_var_checked v check) p")
  with step[OF 1] Cons.prems have x: "x = Ok ()" "q = p\<lparr>pr_env := btm_remove v (pr_env p)\<rparr>" by (auto simp: sbind_def)
  with 1 Cons.prems(1) have "sfor (\<lambda>v. discard (remove_var_checked v check)) vs q = (r, p')" by (simp add: sbind_def)
  from Cons.IH[OF this Cons.prems(2)] x(2) show ?case by (auto simp: btm_get_remove)
qed simp

text \<open>What is set is read back, what is removed is gone, and nothing else changes.\<close>

lemma set_then_read:
  assumes "set_var name v p = (Ok (), p')" "utf8_decode (map ascii_code v) \<noteq> None"  "btm_ok (pr_env p)"
  shows "env_var p' name = Some v" "n \<noteq> name \<Longrightarrow> env_var p' n = env_var p n"
  using assms by (auto simp: set_var_def std_set_var_def assert_single_threaded_def sbind_def env_var_def btm_get_insert split: if_splits)

lemma remove_then_read:
  assumes "remove_var name p = (Ok was, p')"
  shows "was \<longleftrightarrow> env_var p name \<noteq> None" "env_var p' name = None" "n \<noteq> name \<Longrightarrow> env_var p' n = env_var p n"
  using assms
  by (auto simp: remove_var_def remove_var_checked_def std_remove_var_def assert_single_threaded_def sbind_def env_var_def btm_get_remove
      split: if_splits)

lemma in_consumed: "v \<in> set (consumed_variables secrets) \<longleftrightarrow> (\<exists>name prov. (name, prov) \<in> set secrets \<and> secret_provider_variable prov = Some v)"
  by (force simp: consumed_variables_def List.map_filter_def)

lemma resolve_secret_Ok: "resolve_secret_provider p prov = Ok bytes \<longleftrightarrow> (\<exists>v. secret_provider_variable prov = Some v \<and> env_var p v = Some bytes)"
  by (auto simp: resolve_secret_provider_def secret_provider_variable_def result_simps split: option.splits)

lemma provider_variable: "secret_provider_variable prov = Some v \<Longrightarrow> prov = ''env:'' @ v"
  by (auto simp: secret_provider_variable_def strip_prefix_eq_Some split: option.splits if_splits)

lemma resolve_rows_failure: "resolve_rows p rows resolved (Some e) = (m, f) \<Longrightarrow> f = Some e"
  by (induction rows arbitrary: resolved) (auto split: sum.splits)

text \<open>Without failure every secret is bound to the value of its variable; the last one of a name wins.\<close>

lemma resolve_rows_Ok:
  "resolve_rows p rows resolved None = (m, None) \<Longrightarrow> btm_ok resolved \<Longrightarrow> distinct (map fst rows) \<Longrightarrow>
    (\<forall>(name, prov) \<in> set rows. \<exists>v b. secret_provider_variable prov = Some v \<and> env_var p v = Some b \<and> btm_get m name = Some b)
    \<and> (\<forall>n. n \<notin> fst ` set rows \<longrightarrow> btm_get m n = btm_get resolved n)"
proof (induction rows arbitrary: resolved)
  case (Cons e rows)
  obtain name prov where e: "e = (name, prov)" by (cases e)
  show ?case
  proof (cases "resolve_secret_provider p prov")
    case (Inl err)
    with Cons.prems(1) e resolve_rows_failure[of p rows resolved err] show ?thesis by fastforce
  next
    case (Inr bytes)
    then obtain v where v: "secret_provider_variable prov = Some v" "env_var p v = Some bytes" by (auto simp: resolve_secret_Ok)
    have rec: "resolve_rows p rows (btm_insert name bytes resolved) None = (m, None)" using Cons.prems(1) e Inr by simp
    have ih: "(\<forall>(name, prov) \<in> set rows. \<exists>v b. secret_provider_variable prov = Some v \<and> env_var p v = Some b \<and> btm_get m name = Some b)
        \<and> (\<forall>n. n \<notin> fst ` set rows \<longrightarrow> btm_get m n = btm_get (btm_insert name bytes resolved) n)"
      using Cons.IH[OF rec] Cons.prems(2,3) by (simp add: btm_ok_insert)
    then have "btm_get m name = Some bytes" using Cons.prems e by (simp add: btm_get_insert)
    with ih v Cons.prems(2) e show ?thesis by (auto simp: btm_get_insert)
  qed
qed simp

lemma overlap_Ok: "reject_secret_env_overlap secrets env_allow = Ok () \<Longrightarrow> v \<in> set (consumed_variables secrets) \<Longrightarrow>
    (binding, names) \<in> set env_allow \<Longrightarrow> v \<notin> set names"
  unfolding in_consumed by (fastforce simp: reject_secret_env_overlap_def overlap_row_def result_simps list_ex_iff split: if_splits)


section \<open>Properties\<close>



text \<open>
  C22: Secrets do not stay in the environment. When resolution ends without a panic, whether it succeeds or
  fails, the variable behind every declared secret is gone; if the overlap check accepted the document, what
  an \<open>Env\<close> holder may read is unchanged; and on success every secret is bound to the value its own variable had.
\<close>

theorem secrets_leave_the_environment:
  assumes "resolve_and_consume_secret_env_checked secrets check p = (result, p')" "result \<noteq> Err Panic"
    "reject_secret_env_overlap secrets env_allow = Ok ()" "distinct (map fst secrets)"
  shows "(\<forall>v \<in> set (consumed_variables secrets). btm_get (pr_env p') v = None)
    \<and> (\<forall>(binding, names) \<in> set env_allow. \<forall>n \<in> set names. env_var p' n = env_var p n)
    \<and> (case result of
         Inr resolved \<Rightarrow> \<forall>(name, prov) \<in> set secrets. \<exists>v. prov = ''env:'' @ v \<and> env_var p v \<noteq> None \<and> btm_get resolved name = env_var p v
       | Inl _ \<Rightarrow> True)"
proof -
  obtain resolved failure where rows: "resolve_rows p secrets [] None = (resolved, failure)" by (cases "resolve_rows p secrets [] None")
  let ?strip = "sfor (\<lambda>v. discard (remove_var_checked v check)) (consumed_variables secrets)"
  obtain r q where strip: "?strip p = (r, q)" by (cases "?strip p")
  have r: "r \<noteq> Err Panic" using assms(1,2) rows strip by (auto simp: resolve_and_consume_secret_env_checked_def sbind_def)
  note gone = strip_variables[OF strip r]
  have fin: "p' = q" "result = (case failure of Some e \<Rightarrow> Err (Fail e) | None \<Rightarrow> Ok resolved)"
    using assms(1) rows strip gone by (auto simp: resolve_and_consume_secret_env_checked_def sbind_def split: option.splits)
  have "env_var p' n = env_var p n" if "(binding, names) \<in> set env_allow" "n \<in> set names" for binding names n
    using overlap_Ok[OF assms(3) _ that(1), of n] that(2) gone fin(1) by (auto simp: env_var_def)
  moreover have "case result of Inr resolved \<Rightarrow> \<forall>(name, prov) \<in> set secrets. \<exists>v. prov = ''env:'' @ v \<and> env_var p v \<noteq> None \<and> btm_get resolved name = env_var p v | Inl _ \<Rightarrow> True"
    using resolve_rows_Ok[of p secrets "[]" resolved] rows assms(4) fin(2)
    by (cases failure) (auto dest!: bspec provider_variable)
  ultimately show ?thesis using gone fin(1) by auto
qed

theorem secrets_leave_the_environment_witness:
  "case resolve_and_consume_secret_env_checked [(''gh'', ''env:TOKEN''), (''db'', ''env:PASSWORD'')] Enforce
      \<lparr>pr_env = [(''HOME'', ''/root''), (''PASSWORD'', ''hunter2''), (''TOKEN'', ''t0'')], pr_threads = Some 1, pr_debug = True\<rparr> of
     (Inr resolved, p') \<Rightarrow> btm_get resolved ''gh'' = Some ''t0'' \<and> btm_get (pr_env p') ''TOKEN'' = None \<and> env_var p' ''HOME'' = Some ''/root''
   | _ \<Rightarrow> False"
proof -
  let ?secrets = "[(''gh'', ''env:TOKEN''), (''db'', ''env:PASSWORD'')]"
  let ?p = "\<lparr>pr_env = [(''HOME'', ''/root''), (''PASSWORD'', ''hunter2''), (''TOKEN'', ''t0'')], pr_threads = Some 1, pr_debug = True\<rparr>"
  have "\<not> isl (fst (resolve_and_consume_secret_env_checked ?secrets Enforce ?p))" by code_simp
  then obtain resolved p' where run: "resolve_and_consume_secret_env_checked ?secrets Enforce ?p = (Ok resolved, p')"
    by (metis fst_conv isl_def obj_sumE surj_pair)
  have ok: "reject_secret_env_overlap ?secrets [(''runtime'', [''HOME''])] = Ok ()" by code_simp
  have "''TOKEN'' \<in> set (consumed_variables ?secrets)" "env_var ?p ''HOME'' = Some ''/root''" "env_var ?p ''TOKEN'' = Some ''t0''" by code_simp+
  with secrets_leave_the_environment[OF run _ ok] show ?thesis unfolding run by auto
qed

text \<open>
  The variable of a secret is validated less than one of an \<open>Env\<close> allowlist: a name with an equals sign
  passes the document check, and then removing it panics instead of reporting that it is not set.
\<close>

lemma secret_variable_name_panics:
  "check_secret (''x'', \<lparr>sg_from = ''env:A=B'', sg_sealed = True\<rparr>) = Ok () \<and>
   fst (resolve_and_consume_secret_env [(''x'', ''env:A=B'')] \<lparr>pr_env = [], pr_threads = Some 1, pr_debug = False\<rparr>) = Err Panic"
  by code_simp

text \<open>The constant-time comparison is equality.\<close>

lemma or_zero: "(a :: 'w::len word) OR b = 0 \<longleftrightarrow> a = 0 \<and> b = 0"
  by (auto simp: bit_eq_iff bit_simps)

lemma xor_zero: "(a :: 'w::len word) XOR b = 0 \<longleftrightarrow> a = b"
  by (auto simp: bit_eq_iff bit_simps)

lemma diff_zero: "length seed = length secret \<Longrightarrow>
    fold (\<lambda>(a, b) diff. diff OR (a XOR b)) (zip seed secret) d = 0 \<longleftrightarrow> d = 0 \<and> seed = (secret :: 8 word list)"
  by (induction seed secret arbitrary: d rule: list_induct2) (auto simp: or_zero xor_zero)

lemma secret_is_signing_key_iff: "secret_is_signing_key key secret \<longleftrightarrow> key = Some secret"
  by (cases key) (auto simp: secret_is_signing_key_def diff_zero)

end
