(* ===== verification/Lexer.thy ===== *)
theory Lexer
  imports Witchy_Prelude
begin

text \<open>
  The lexer (crates/witchy-syntax/src/lexer.rs): characters, tokens, the state, trivia, numbers, names and the
  source of interpolation holes. Source text is a list of Unicode scalar values, as \<open>src.chars()\<close> gives it;
  the state is the character vector with a position, the line and column counters and the comments seen so
  far. The counters are natural numbers here; the theory Tokenize bounds them by the length of the text.
\<close>

section \<open>Characters\<close>

definition ucs :: "string \<Rightarrow> nat list" where
  "ucs = map ascii_code"

definition ch_digit :: "nat \<Rightarrow> bool" where
  "ch_digit c \<longleftrightarrow> 48 \<le> c \<and> c \<le> 57"

definition ch_alphabetic :: "nat \<Rightarrow> bool" where
  "ch_alphabetic c \<longleftrightarrow> 65 \<le> c \<and> c \<le> 90 \<or> 97 \<le> c \<and> c \<le> 122"

definition ch_ident :: "nat \<Rightarrow> bool" where
  "ch_ident c \<longleftrightarrow> ch_alphabetic c \<or> ch_digit c \<or> c = 95"

text \<open>\<open>char::to_digit\<close>.\<close>

definition ch_to_digit :: "nat \<Rightarrow> nat \<Rightarrow> nat option" where
  "ch_to_digit radix c =
     (let d = (if ch_digit c then Some (c - 48)
               else if 97 \<le> c \<and> c \<le> 122 then Some (c - 87)
               else if 65 \<le> c \<and> c \<le> 90 then Some (c - 55) else None)
      in case d of Some v \<Rightarrow> if v < radix then Some v else None | None \<Rightarrow> None)"

text \<open>\<open>str::parse\<close> and \<open>from_str_radix\<close> on digits, for the values below a bound.\<close>

definition radix_number :: "nat \<Rightarrow> nat list \<Rightarrow> nat" where
  "radix_number radix = foldl (\<lambda>a c. radix * a + (case ch_to_digit radix c of Some d \<Rightarrow> d | None \<Rightarrow> 0)) 0"

definition parse_radix :: "nat \<Rightarrow> nat \<Rightarrow> nat list \<Rightarrow> int option" where
  "parse_radix radix bound s =
     (if s \<noteq> [] \<and> list_all (\<lambda>c. ch_to_digit radix c \<noteq> None) s \<and> radix_number radix s < bound
      then Some (int (radix_number radix s)) else None)"

definition trim_end :: "nat list \<Rightarrow> nat list" where
  "trim_end s = rev (dropWhile is_whitespace (rev s))"

section \<open>Doubles\<close>

text \<open>
  \<open>parse::<f64>\<close> on \<open>digits.digits\<close>: the nearest double, ties to the even mantissa, as its bit pattern. With
  \<open>e\<close> the exponent of the last mantissa bit, the pattern of mantissa \<open>q\<close> is \<open>(e + 1074) * 2 ^ 52 + q\<close>, for
  subnormals and for a mantissa that rounds up to the next power of two as well.
\<close>

fun bit_length :: "nat \<Rightarrow> nat" where
  "bit_length n = (if n = 0 then 0 else Suc (bit_length (n div 2)))"

declare bit_length.simps [simp del]

definition f64_of_ratio :: "nat \<Rightarrow> nat \<Rightarrow> 64 word" where
  "f64_of_ratio n d =
     (if n = 0 then 0
      else let k = int (bit_length n) - int (bit_length d);
               m = (if d * 2 ^ nat k \<le> n * 2 ^ nat (- k) then k else k - 1);
               e = max (- 1074) (m - 52);
               num = n * 2 ^ nat (- e); den = d * 2 ^ nat e;
               q = num div den; r = num mod den;
               q' = (if den < 2 * r \<or> den = 2 * r \<and> odd q then q + 1 else q)
           in word_of_nat (min (nat (e + 1074) * 2 ^ 52 + q') (2047 * 2 ^ 52)))"

definition parse_f64 :: "nat list \<Rightarrow> 64 word option" where
  "parse_f64 s =
     (let a = takeWhile (\<lambda>c. c \<noteq> 46) s; b = drop (Suc (length a)) s
      in if a \<noteq> [] \<and> b \<noteq> [] \<and> list_all ch_digit a \<and> list_all ch_digit b
         then Some (f64_of_ratio (radix_number 10 (a @ b)) (10 ^ length b)) else None)"

section \<open>Tokens\<close>

datatype (plugins only: code) Tok =
    TInt int | TFloat "64 word" | TDuration int | TStr "nat list" | TIdent "nat list" | TLifetime "nat list"
  | TTagLit "nat list" "nat list list" "nat list list" "(nat \<times> nat) list"
  | TFn | TGen | TYield | TAsync | TAwait | TLet | TVar | TMatch | TPub | TIf | TElse | TTrue | TFalse
  | TType | TOwn | TMove | TImport | TWhile | TFor | TIn | TReturn | TBreak | TContinue | TTrait | TImpl
  | TWhere | TAs | TRegion | TComptime | TCapability
  | TLParen | TRParen | TInterpRBrace | TQuoteHoleStart | TLBrace | TRBrace | TDotLBrace | TDotLBracket
  | TLBracket | TRBracket | TComma | TColon | TDot | TDotDot | TDotDotEq | TUnderscore | TAt
  | TEq | TEqEq | TNotEq | TLt | TGt | TLtEq | TGtEq | TPlus | TMinus | TStar | TSlash | TPercent | TBar
  | TPlusEq | TMinusEq | TStarEq | TSlashEq | TPercentEq | TAmp | TCaret | TTilde | TShl | TShr
  | TLArrow | TRArrow | TAndAnd | TOrOr | TBang | TQuestion | TQuestionQuestion
  | TEof

record Token =
  tk_kind :: Tok
  tk_line :: nat
  tk_col :: nat
  tk_end_line :: nat
  tk_end_col :: nat

definition token_point :: "Tok \<Rightarrow> nat \<Rightarrow> nat \<Rightarrow> Token" where
  "token_point kind line col = \<lparr>tk_kind = kind, tk_line = line, tk_col = col, tk_end_line = line, tk_end_col = col\<rparr>"

record LexError =
  le_message :: "nat list"
  le_line :: nat
  le_col :: nat

text \<open>\<open>impl Display for LexError\<close>.\<close>

definition lex_error_display :: "LexError \<Rightarrow> nat list" where
  "lex_error_display e =
     ucs ''lex error at '' @ ucs (show_nat (le_line e)) @ ucs '':'' @ ucs (show_nat (le_col e)) @ ucs '': '' @ le_message e"

text \<open>A run fails with an error, panics in an \<open>expect\<close>, or exceeds the depth given to the inner lexer.\<close>

datatype lex_fault = LexFail LexError | LexPanic | LexDepth

definition rebase_inner_position :: "nat \<Rightarrow> nat \<Rightarrow> nat \<Rightarrow> nat \<Rightarrow> nat \<times> nat" where
  "rebase_inner_position start_line start_col inner_line inner_col =
     (if inner_line = 1 then (start_line, start_col + (inner_col - 1)) else (start_line + inner_line - 1, inner_col))"

section \<open>The state\<close>

record Lexer =
  lx_chars :: "nat list"
  lx_pos :: nat
  lx_line :: nat
  lx_col :: nat
  lx_comments :: "(nat \<times> nat \<times> nat list) list"
  lx_trailing_comments :: "(nat \<times> nat \<times> nat list) list"

type_synonym 'a lexed = "(lex_fault, 'a) result \<times> Lexer"

definition Lexer_new :: "nat list \<Rightarrow> Lexer" where
  "Lexer_new src = \<lparr>lx_chars = src, lx_pos = 0, lx_line = 1, lx_col = 1, lx_comments = [], lx_trailing_comments = []\<rparr>"

definition char_at :: "Lexer \<Rightarrow> nat \<Rightarrow> nat option" where
  "char_at L i = (if i < length (lx_chars L) then Some (lx_chars L ! i) else None)"

definition lx_peek :: "Lexer \<Rightarrow> nat option" where
  "lx_peek L = char_at L (lx_pos L)"

definition lx_peek2 :: "Lexer \<Rightarrow> nat option" where
  "lx_peek2 L = char_at L (lx_pos L + 1)"

fun line_start_before :: "nat list \<Rightarrow> nat \<Rightarrow> bool" where
  "line_start_before chars 0 \<longleftrightarrow> True"
| "line_start_before chars (Suc i) \<longleftrightarrow>
     (if chars ! i = 10 then True else if is_whitespace (chars ! i) then line_start_before chars i else False)"

definition at_line_start :: "Lexer \<Rightarrow> bool" where
  "at_line_start L \<longleftrightarrow> line_start_before (lx_chars L) (lx_pos L)"

fun content_in :: "nat list \<Rightarrow> bool" where
  "content_in [] \<longleftrightarrow> False"
| "content_in (c # cs) \<longleftrightarrow> (if c = 10 then False else if is_whitespace c then content_in cs else True)"

definition line_has_content :: "Lexer \<Rightarrow> bool" where
  "line_has_content L \<longleftrightarrow> content_in (drop (lx_pos L) (lx_chars L))"

definition bump :: "Lexer \<Rightarrow> nat option \<times> Lexer" where
  "bump L =
     (case lx_peek L of
        None \<Rightarrow> (None, L)
      | Some c \<Rightarrow> (Some c,
          if c = 10 then L\<lparr>lx_pos := lx_pos L + 1, lx_line := lx_line L + 1, lx_col := 1\<rparr>
          else L\<lparr>lx_pos := lx_pos L + 1, lx_col := lx_col L + 1\<rparr>))"

definition lx_skip :: "Lexer \<Rightarrow> Lexer" where
  "lx_skip L = snd (bump L)"

definition lex_err :: "Lexer \<Rightarrow> nat list \<Rightarrow> lex_fault" where
  "lex_err L message = LexFail \<lparr>le_message = message, le_line = lx_line L, le_col = lx_col L\<rparr>"

definition remaining :: "Lexer \<Rightarrow> nat" where
  "remaining L = length (lx_chars L) - lx_pos L"

lemma bump_simps:
  "bump L = (Some c, L') \<Longrightarrow> remaining L = Suc (remaining L') \<and> lx_chars L' = lx_chars L"
  "bump L = (None, L') \<Longrightarrow> L' = L"
  by (auto simp: bump_def lx_peek_def char_at_def remaining_def split: if_splits)

lemmas bump_rev = bump_simps(1)[OF sym] bump_simps(2)[OF sym]

lemma remaining_skip [simp]: "remaining (lx_skip L) = remaining L - 1"
  by (auto simp: lx_skip_def bump_def lx_peek_def char_at_def remaining_def split: option.splits)

lemma peek_remaining: "lx_peek L \<noteq> None \<longleftrightarrow> 0 < remaining L"
  by (auto simp: lx_peek_def char_at_def remaining_def)

lemma peek_skip: "lx_peek L = Some c \<Longrightarrow> remaining (lx_skip L) < remaining L"
  using peek_remaining[of L] by simp

section \<open>Runs of characters\<close>

text \<open>The loops that read while a test holds, keeping some of the characters.\<close>

function scan_run :: "(nat \<Rightarrow> bool) \<Rightarrow> (nat \<Rightarrow> bool) \<Rightarrow> Lexer \<Rightarrow> nat list \<times> Lexer" where
  "scan_run accept keep L =
     (case lx_peek L of
        Some c \<Rightarrow>
          if accept c then (case scan_run accept keep (lx_skip L) of (text, L') \<Rightarrow> (if keep c then c # text else text, L'))
          else ([], L)
      | None \<Rightarrow> ([], L))"
  by pat_completeness auto
termination
  by (relation "measure (\<lambda>(_, _, L). remaining L)") (auto dest: peek_skip)

declare scan_run.simps [simp del]

lemma scan_run_remaining: "scan_run accept keep L = (run, L') \<Longrightarrow> remaining L' \<le> remaining L"
proof (induction accept keep L arbitrary: run rule: scan_run.induct)
  case (1 accept keep L)
  show ?case
    using "1.prems" "1.IH" unfolding scan_run.simps[of accept keep L]
    by (fastforce split: option.splits if_splits prod.splits)
qed

section \<open>Trivia\<close>

definition record_comment :: "bool \<Rightarrow> nat \<Rightarrow> nat \<Rightarrow> nat \<Rightarrow> Lexer \<Rightarrow> Lexer" where
  "record_comment own_line line col start L =
     (let text = trim_end (take (lx_pos L - start) (drop start (lx_chars L))) in
      if own_line then L\<lparr>lx_comments := lx_comments L @ [(line, col, text)]\<rparr>
      else L\<lparr>lx_trailing_comments := lx_trailing_comments L @ [(line, col, text)]\<rparr>)"

function block_comment :: "nat \<Rightarrow> Lexer \<Rightarrow> Lexer" where
  "block_comment depth L =
     (if depth = 0 then L
      else if lx_peek L = Some 47 \<and> lx_peek2 L = Some 42 then block_comment (depth + 1) (lx_skip (lx_skip L))
      else if lx_peek L = Some 42 \<and> lx_peek2 L = Some 47 then block_comment (depth - 1) (lx_skip (lx_skip L))
      else if lx_peek L \<noteq> None then block_comment depth (lx_skip L)
      else L)"
  by pat_completeness auto
termination
  by (relation "measure (\<lambda>(_, L). remaining L)") (auto simp: peek_remaining[symmetric])

declare block_comment.simps [simp del]

definition tab_message :: "nat list" where
  "tab_message = ucs ''tab in leading indentation '' @ [8212] @ ucs '' witchy'' @ [39]
     @ ucs ''s layout counts a tab as one column, making tab/space indentation visually ambiguous; indent with spaces''"

lemma record_comment_remaining [simp]: "remaining (record_comment own_line line col start L) = remaining L"
  by (simp add: record_comment_def remaining_def Let_def)

lemma block_comment_remaining: "remaining (block_comment depth L) \<le> remaining L"
proof (induction depth L rule: block_comment.induct)
  case (1 depth L)
  then show ?case by (subst block_comment.simps) (auto simp del: One_nat_def)
qed

function skip_trivia :: "Lexer \<Rightarrow> unit lexed" where
  "skip_trivia L =
     (case lx_peek L of
        None \<Rightarrow> (Ok (), L)
      | Some c \<Rightarrow>
          if c = 9 \<and> at_line_start L \<and> line_has_content L then (Err (lex_err L tab_message), L)
          else if is_whitespace c then skip_trivia (lx_skip L)
          else if c = 47 \<and> lx_peek2 L = Some 47 then
            skip_trivia (record_comment (at_line_start L) (lx_line L) (lx_col L) (lx_pos L)
              (snd (scan_run (\<lambda>c. c \<noteq> 10) (\<lambda>c. True) L)))
          else if c = 47 \<and> lx_peek2 L = Some 42 then
            skip_trivia (record_comment (at_line_start L) (lx_line L) (lx_col L) (lx_pos L)
              (block_comment 1 (lx_skip (lx_skip L))))
          else (Ok (), L))"
  by pat_completeness auto
termination
proof (relation "measure remaining", goal_cases)
  case (3 L c)
  have "remaining (snd (scan_run (\<lambda>c. c \<noteq> 10) (\<lambda>c. True) L)) < remaining L"
  proof -
    have "snd (scan_run (\<lambda>c. c \<noteq> 10) (\<lambda>c. True) L) = snd (scan_run (\<lambda>c. c \<noteq> 10) (\<lambda>c. True) (lx_skip L))"
      using 3 by (subst scan_run.simps) (simp split: prod.splits)
    moreover have "remaining (snd (scan_run (\<lambda>c. c \<noteq> 10) (\<lambda>c. True) (lx_skip L))) \<le> remaining (lx_skip L)"
      by (metis prod.collapse scan_run_remaining)
    ultimately show ?thesis using peek_skip[OF 3(1)] by simp
  qed
  then show ?case by simp
next
  case (4 L c)
  then show ?case using block_comment_remaining[of 1 "lx_skip (lx_skip L)"] peek_skip[OF 4(1)] by simp
qed (auto dest: peek_skip)

declare skip_trivia.simps [simp del]

section \<open>Numbers and names\<close>

definition integer_index :: "Lexer \<Rightarrow> Tok lexed" where
  "integer_index L =
     (case scan_run ch_digit (\<lambda>c. True) L of (text, L') \<Rightarrow>
        (case parse_radix 10 (2 ^ 63) text of
           Some v \<Rightarrow> (Ok (TInt v), L')
         | None \<Rightarrow> (Err (lex_err L' (ucs ''invalid tuple index `'' @ text @ ucs ''`'')), L')))"

definition radix_int :: "nat \<Rightarrow> string \<Rightarrow> Lexer \<Rightarrow> Tok lexed" where
  "radix_int radix name L =
     (case scan_run (\<lambda>c. c = 95 \<or> ch_to_digit radix c \<noteq> None) (\<lambda>c. c \<noteq> 95) L of (text, L') \<Rightarrow>
        if text = [] then (Err (lex_err L' (ucs name @ ucs '' literal has no digits'')), L')
        else (case parse_radix radix (2 ^ 63) text of
           Some v \<Rightarrow> (Ok (TInt v), L')
         | None \<Rightarrow> (Err (lex_err L' (ucs ''invalid '' @ ucs name @ ucs '' integer literal `'' @ text @ ucs ''`'')), L')))"

definition unit_ms :: "nat list \<Rightarrow> int option" where
  "unit_ms suffix =
     (if suffix = ucs ''ms'' then Some 1 else if suffix = ucs ''s'' then Some 1000
      else if suffix = ucs ''m'' then Some 60000
      else if suffix = ucs ''h'' \<or> suffix = ucs ''hr'' then Some 3600000
      else if suffix = ucs ''d'' then Some 86400000 else if suffix = ucs ''w'' then Some 604800000 else None)"

text \<open>\<open>i64::checked_mul\<close>, and \<open>parse::<i64>\<close> with the fallback to \<open>u64\<close> that wraps.\<close>

definition checked_mul :: "int \<Rightarrow> int \<Rightarrow> int option" where
  "checked_mul a b = (if - (2 ^ 63) \<le> a * b \<and> a * b < 2 ^ 63 then Some (a * b) else None)"

definition parse_wrapping :: "nat list \<Rightarrow> int option" where
  "parse_wrapping text =
     (case parse_radix 10 (2 ^ 63) text of
        Some v \<Rightarrow> Some v
      | None \<Rightarrow> map_option (\<lambda>w. if w < 2 ^ 63 then w else w - 2 ^ 64) (parse_radix 10 (2 ^ 64) text))"

definition decimal_number :: "nat list \<Rightarrow> Lexer \<Rightarrow> Tok lexed" where
  "decimal_number text L =
     (case parse_wrapping text of
        None \<Rightarrow> (Err (lex_err L (ucs ''invalid integer literal `'' @ text @ ucs ''`'')), L)
      | Some v \<Rightarrow>
          (let suffix = takeWhile ch_alphabetic (drop (lx_pos L) (lx_chars L)) in
           case unit_ms suffix of
             None \<Rightarrow> (Ok (TInt v), L)
           | Some unit \<Rightarrow>
               (let L' = (lx_skip ^^ length suffix) L in
                case checked_mul v unit of
                  Some ms \<Rightarrow> (Ok (TDuration ms), L')
                | None \<Rightarrow> (Err (lex_err L' (ucs ''duration literal `'' @ text @ suffix @ ucs ''` overflows'')), L'))))"

definition number :: "Lexer \<Rightarrow> Tok lexed" where
  "number L =
     (if lx_peek L = Some 48 \<and> lx_peek2 L \<in> {Some 120, Some 88} then radix_int 16 ''hexadecimal'' (lx_skip (lx_skip L))
      else if lx_peek L = Some 48 \<and> lx_peek2 L \<in> {Some 98, Some 66} then radix_int 2 ''binary'' (lx_skip (lx_skip L))
      else (case scan_run (\<lambda>c. ch_digit c \<or> c = 95) (\<lambda>c. c \<noteq> 95) L of (text, L1) \<Rightarrow>
        if lx_peek L1 = Some 46 \<and> (case lx_peek2 L1 of Some c \<Rightarrow> ch_digit c | None \<Rightarrow> False) then
          (case scan_run ch_digit (\<lambda>c. True) (lx_skip L1) of (frac, L2) \<Rightarrow>
             (case parse_f64 (text @ 46 # frac) of
                Some x \<Rightarrow> (Ok (TFloat x), L2)
              | None \<Rightarrow> (Err (lex_err L2 (ucs ''invalid float literal `'' @ text @ 46 # frac @ ucs ''`'')), L2)))
        else decimal_number text L1))"

definition lifetime :: "Lexer \<Rightarrow> Tok \<times> Lexer" where
  "lifetime L = (case scan_run ch_ident (\<lambda>c. True) (lx_skip L) of (name, L') \<Rightarrow> (TLifetime name, L'))"

definition KEYWORDS :: "(string \<times> Tok) list" where
  "KEYWORDS =
     [(''fn'', TFn), (''gen'', TGen), (''yield'', TYield), (''async'', TAsync), (''await'', TAwait), (''let'', TLet),
      (''var'', TVar), (''match'', TMatch), (''pub'', TPub), (''if'', TIf), (''else'', TElse), (''true'', TTrue),
      (''false'', TFalse), (''type'', TType), (''own'', TOwn), (''move'', TMove), (''import'', TImport),
      (''while'', TWhile), (''for'', TFor), (''in'', TIn), (''return'', TReturn), (''break'', TBreak),
      (''continue'', TContinue), (''trait'', TTrait), (''impl'', TImpl), (''where'', TWhere), (''as'', TAs),
      (''region'', TRegion), (''comptime'', TComptime), (''capability'', TCapability), (''_'', TUnderscore)]"

definition keyword_token :: "nat list \<Rightarrow> Tok" where
  "keyword_token text =
     (case map_of (map (\<lambda>(s, t). (ucs s, t)) KEYWORDS) text of Some t \<Rightarrow> t | None \<Rightarrow> TIdent text)"

definition ident_or_keyword :: "Lexer \<Rightarrow> Tok \<times> Lexer" where
  "ident_or_keyword L = (case scan_run ch_ident (\<lambda>c. True) L of (text, L') \<Rightarrow> (keyword_token text, L'))"

section \<open>Interpolation holes\<close>

record InterpSource =
  is_src :: "nat list"
  is_start_line :: nat
  is_start_col :: nat
  is_close_line :: nat
  is_close_col :: nat

text \<open>A nested string literal inside a hole, and one whose quotes carry the escaping of the enclosing string.\<close>

function nested_string :: "nat list \<Rightarrow> Lexer \<Rightarrow> nat list lexed" where
  "nested_string src L =
     (case bump L of
        (None, L1) \<Rightarrow> (Err (lex_err L1 (ucs ''unterminated string in interpolation'')), L1)
      | (Some c, L1) \<Rightarrow>
          if c = 92 then
            (case bump L1 of
               (Some d, L2) \<Rightarrow> nested_string (src @ [92, d]) L2
             | (None, L2) \<Rightarrow> nested_string (src @ [92]) L2)
          else if c = 34 then (Ok (src @ [34]), L1)
          else nested_string (src @ [c]) L1)"
  by pat_completeness auto
termination
  by (relation "measure (\<lambda>(_, L). remaining L)") (auto dest!: bump_rev)

function escaped_string :: "nat list \<Rightarrow> Lexer \<Rightarrow> nat list lexed" where
  "escaped_string src L =
     (case bump L of
        (None, L1) \<Rightarrow> (Err (lex_err L1 (ucs ''unterminated string in interpolation'')), L1)
      | (Some c, L1) \<Rightarrow>
          if c = 92 then
            (case bump L1 of
               (Some d, L2) \<Rightarrow> if d = 34 then (Ok (src @ [34]), L2) else escaped_string (src @ [92, d]) L2
             | (None, L2) \<Rightarrow> (Err (lex_err L2 (ucs ''unterminated string in interpolation'')), L2))
          else escaped_string (src @ [c]) L1)"
  by pat_completeness auto
termination
  by (relation "measure (\<lambda>(_, L). remaining L)") (auto dest!: bump_rev)

declare nested_string.simps [simp del] escaped_string.simps [simp del]

lemma nested_string_remaining:
  "nested_string src L = (Ok src', L') \<Longrightarrow> remaining L' \<le> remaining L \<and> length src' + remaining L' \<le> length src + remaining L"
proof (induction src L rule: nested_string.induct)
  case (1 src L)
  show ?case
    using "1.prems" "1.IH" unfolding nested_string.simps[of src L]
    by (fastforce split: prod.splits option.splits if_splits dest!: bump_simps)
qed

lemma escaped_string_remaining:
  "escaped_string src L = (Ok src', L') \<Longrightarrow> remaining L' \<le> remaining L \<and> length src' + remaining L' \<le> length src + remaining L"
proof (induction src L rule: escaped_string.induct)
  case (1 src L)
  show ?case
    using "1.prems" "1.IH" unfolding escaped_string.simps[of src L]
    by (fastforce split: prod.splits option.splits if_splits dest!: bump_simps)
qed

function hole_source :: "nat \<Rightarrow> nat list \<Rightarrow> Lexer \<Rightarrow> (nat list \<times> nat \<times> nat) lexed" where
  "hole_source depth src L =
     (case bump L of
        (None, L1) \<Rightarrow> (Err (lex_err L1 (ucs ''unterminated `${` interpolation'')), L1)
      | (Some c, L1) \<Rightarrow>
          if c = 123 then hole_source (depth + 1) (src @ [123]) L1
          else if c = 125 then
            (if depth - 1 = 0 then (Ok (src, lx_line L, lx_col L), L1) else hole_source (depth - 1) (src @ [125]) L1)
          else if c = 34 then
            (case nested_string (src @ [34]) L1 of
               (Inl e, L2) \<Rightarrow> (Err e, L2)
             | (Inr src', L2) \<Rightarrow> hole_source depth src' L2)
          else if c = 92 \<and> lx_peek L1 = Some 34 then
            (case escaped_string (src @ [34]) (lx_skip L1) of
               (Inl e, L2) \<Rightarrow> (Err e, L2)
             | (Inr src', L2) \<Rightarrow> hole_source depth src' L2)
          else hole_source depth (src @ [c]) L1)"
  by pat_completeness auto
termination
  by (relation "measure (\<lambda>(_, _, L). remaining L)")
    (auto dest!: bump_rev nested_string_remaining[OF sym] escaped_string_remaining[OF sym])

declare hole_source.simps [simp del]

definition interp_source :: "Lexer \<Rightarrow> InterpSource lexed" where
  "interp_source L =
     (case hole_source 1 [] L of
        (Inl e, L') \<Rightarrow> (Err e, L')
      | (Inr (src, close_line, close_col), L') \<Rightarrow>
          (Ok \<lparr>is_src = src, is_start_line = lx_line L, is_start_col = lx_col L,
               is_close_line = close_line, is_close_col = close_col\<rparr>, L'))"

lemma hole_source_remaining:
  "hole_source depth src L = (Ok (src', p), L') \<Longrightarrow> remaining L' < remaining L \<and> length src' + remaining L' < length src + remaining L"
proof (induction depth src L rule: hole_source.induct)
  case (1 depth src L)
  show ?case
    using "1.prems" "1.IH" unfolding hole_source.simps[of depth src L]
    by (fastforce split: prod.splits option.splits sum.splits if_splits
        dest!: bump_simps nested_string_remaining escaped_string_remaining)
qed

lemma interp_source_remaining:
  "interp_source L = (Ok sp, L') \<Longrightarrow> remaining L' < remaining L \<and> length (is_src sp) + remaining L' < remaining L"
  by (auto simp: interp_source_def split: prod.splits sum.splits dest!: hole_source_remaining)

end
