(* ===== verification/Lexer_Steps.thy ===== *)
theory Lexer_Steps
  imports Lexer
begin

text \<open>
  The second half of the scanner of crates/witchy-syntax/src/lexer.rs: strings with interpolation, tagged
  literals, operators, and one turn of the token loop. A string with holes lexes the source of each hole with
  a fresh lexer; that inner lexer is an argument here, and the theory Tokenize ties the knot.
\<close>

section \<open>Strings\<close>

definition escape_value :: "nat \<Rightarrow> nat option" where
  "escape_value esc =
     (if esc = 110 then Some 10 else if esc = 116 then Some 9 else if esc = 114 then Some 13 else if esc = 48 then Some 0
      else if esc = 92 then Some 92 else if esc = 34 then Some 34 else if esc = 36 then Some 36 else None)"

text \<open>The character after a backslash; \<open>what\<close> names the literal in the message.\<close>

definition read_escape :: "string \<Rightarrow> Lexer \<Rightarrow> nat lexed" where
  "read_escape what L =
     (case bump L of
        (None, L') \<Rightarrow> (Err (lex_err L' (ucs ''unterminated escape in '' @ ucs what)), L')
      | (Some esc, L') \<Rightarrow>
          (case escape_value esc of
             Some c \<Rightarrow> (Ok c, L')
           | None \<Rightarrow> (Err (lex_err L' (ucs ''unknown escape `'' @ [92, esc] @ ucs ''`'')), L')))"

lemma read_escape_remaining: "read_escape what L = (Ok c, L') \<Longrightarrow> remaining L' < remaining L"
  by (auto simp: read_escape_def split: prod.splits option.splits dest!: bump_simps)

definition GENERATED_RENDER :: "nat list" where
  "GENERATED_RENDER = ucs ''@render''"

definition rebase_token :: "InterpSource \<Rightarrow> Token \<Rightarrow> Token" where
  "rebase_token sp t =
     (let start = rebase_inner_position (is_start_line sp) (is_start_col sp) (tk_line t) (tk_col t);
          stop = rebase_inner_position (is_start_line sp) (is_start_col sp) (tk_end_line t) (tk_end_col t)
      in \<lparr>tk_kind = tk_kind t, tk_line = fst start, tk_col = snd start, tk_end_line = fst stop, tk_end_col = snd stop\<rparr>)"

definition rebase_fault :: "InterpSource \<Rightarrow> lex_fault \<Rightarrow> lex_fault" where
  "rebase_fault sp e =
     (case e of
        LexFail err \<Rightarrow>
          (case rebase_inner_position (is_start_line sp) (is_start_col sp) (le_line err) (le_col err) of
             (line, col) \<Rightarrow> LexFail \<lparr>le_message = le_message err, le_line = line, le_col = col\<rparr>)
      | _ \<Rightarrow> e)"

text \<open>One hole: the tokens that precede it, then those of its source up to the end marker, then its close.\<close>

definition emit_interpolation ::
    "(nat list \<Rightarrow> (lex_fault, Token list) result) \<Rightarrow> Token list \<Rightarrow> nat list \<Rightarrow> bool \<Rightarrow> nat \<Rightarrow> nat \<Rightarrow> Lexer \<Rightarrow> Token list lexed" where
  "emit_interpolation inner out text interpolated literal_line literal_col L =
     (let segment = (if interpolated then (lx_line L, lx_col L) else (literal_line, literal_col));
          opening = (if interpolated then token_point TPlus (lx_line L) (lx_col L) else token_point TLParen literal_line literal_col);
          literal = token_point (TStr text) (fst segment) (snd segment)
      in case interp_source L of
           (Inl e, L') \<Rightarrow> (Err e, L')
         | (Inr sp, L') \<Rightarrow>
             (case inner (is_src sp) of
                Inl e \<Rightarrow> (Err (rebase_fault sp e), L')
              | Inr expr_toks \<Rightarrow>
                  (Ok (out @ [opening, literal,
                       token_point TPlus (is_start_line sp) (is_start_col sp),
                       token_point (TIdent GENERATED_RENDER) (is_start_line sp) (is_start_col sp),
                       token_point TLParen (is_start_line sp) (is_start_col sp)]
                     @ map (rebase_token sp) (takeWhile (\<lambda>t. tk_kind t \<noteq> TEof) expr_toks)
                     @ [\<lparr>tk_kind = TInterpRBrace, tk_line = is_close_line sp, tk_col = is_close_col sp,
                         tk_end_line = is_close_line sp, tk_end_col = min (is_close_col sp + 1) (2 ^ 32 - 1)\<rparr>]), L')))"

lemma emit_interpolation_remaining:
  "emit_interpolation inner out str interpolated line col L = (Ok out', L') \<Longrightarrow> remaining L' < remaining L"
  by (auto simp: emit_interpolation_def Let_def split: prod.splits sum.splits dest!: interp_source_remaining)

text \<open>One turn of a loop: it ends with a result, or goes on in a new state.\<close>

datatype ('s, 'r) turn = Stop 'r | Go 's

type_synonym string_state = "nat list \<times> Token list \<times> bool \<times> Lexer"

text \<open>The state of the string loop: the literal text since the last hole, the tokens so far, whether there was a hole.\<close>

definition after_hole :: "Token list lexed \<Rightarrow> (string_state, Token list lexed) turn" where
  "after_hole r = (case r of (Inl e, L) \<Rightarrow> Stop (Err e, L) | (Inr out, L) \<Rightarrow> Go ([], out, True, L))"

definition string_turn ::
    "(nat list \<Rightarrow> (lex_fault, Token list) result) \<Rightarrow> bool \<Rightarrow> nat \<Rightarrow> nat \<Rightarrow> string_state \<Rightarrow> (string_state, Token list lexed) turn" where
  "string_turn inner fstring line col s =
     (case s of (text, out, interpolated, L) \<Rightarrow>
        (case bump L of
           (None, L1) \<Rightarrow> Stop (Err (lex_err L1 (ucs ''unterminated string literal'')), L1)
         | (Some c, L1) \<Rightarrow>
             if c = 34 then
               Stop (Ok (if interpolated then out @ [token_point TPlus line col, token_point (TStr text) line col, token_point TRParen line col]
                         else [token_point (TStr text) line col]), L1)
             else if c = 92 then
               (case read_escape ''string literal'' L1 of
                  (Inl e, L2) \<Rightarrow> Stop (Err e, L2)
                | (Inr d, L2) \<Rightarrow> Go (text @ [d], out, interpolated, L2))
             else if c = 123 \<and> fstring then
               (if lx_peek L1 = Some 123 then Go (text @ [123], out, interpolated, lx_skip L1)
                else after_hole (emit_interpolation inner out text interpolated line col L1))
             else if c = 125 \<and> fstring then
               Go (text @ [125], out, interpolated, if lx_peek L1 = Some 125 then lx_skip L1 else L1)
             else if c = 36 \<and> \<not> fstring \<and> lx_peek L1 = Some 123 then
               after_hole (emit_interpolation inner out text interpolated line col (lx_skip L1))
             else Go (text @ [c], out, interpolated, L1)))"

definition string_rest :: "string_state \<Rightarrow> nat" where
  "string_rest s = remaining (snd (snd (snd s)))"

lemma after_hole_Go: "after_hole r = Go s \<longleftrightarrow> (\<exists>out L. r = (Ok out, L) \<and> s = ([], out, True, L))"
  by (auto simp: after_hole_def split: prod.splits sum.splits)

lemma string_turn_remaining: "string_turn inner fs line col s = Go s' \<Longrightarrow> string_rest s' < string_rest s"
  by (auto simp: string_turn_def string_rest_def after_hole_Go split: prod.splits option.splits sum.splits if_splits
      dest!: bump_simps read_escape_remaining emit_interpolation_remaining)

function string_loop ::
    "(nat list \<Rightarrow> (lex_fault, Token list) result) \<Rightarrow> bool \<Rightarrow> nat \<Rightarrow> nat \<Rightarrow> string_state \<Rightarrow> Token list lexed" where
  "string_loop inner fstring line col s =
     (case string_turn inner fstring line col s of Stop r \<Rightarrow> r | Go s' \<Rightarrow> string_loop inner fstring line col s')"
  by pat_completeness auto
termination
  by (relation "measure (\<lambda>(_, _, _, _, s). string_rest s)") (auto dest: string_turn_remaining)

declare string_loop.simps [simp del]

definition lex_string :: "(nat list \<Rightarrow> (lex_fault, Token list) result) \<Rightarrow> bool \<Rightarrow> nat \<Rightarrow> nat \<Rightarrow> Lexer \<Rightarrow> Token list lexed" where
  "lex_string inner fstring literal_line literal_col L =
     string_loop inner fstring literal_line literal_col ([], [], False, lx_skip L)"

type_synonym tag_parts = "nat list list \<times> nat list list \<times> (nat \<times> nat) list"
type_synonym tag_state = "tag_parts \<times> nat list \<times> Lexer"

definition tag_turn :: "tag_state \<Rightarrow> (tag_state, tag_parts lexed) turn" where
  "tag_turn s =
     (case s of ((parts, holes, hole_spans), text, L) \<Rightarrow>
        (case bump L of
           (None, L1) \<Rightarrow> Stop (Err (lex_err L1 (ucs ''unterminated tagged literal'')), L1)
         | (Some c, L1) \<Rightarrow>
             if c = 34 then Stop (Ok (parts @ [text], holes, hole_spans), L1)
             else if c = 92 then
               (case read_escape ''tagged literal'' L1 of
                  (Inl e, L2) \<Rightarrow> Stop (Err e, L2)
                | (Inr d, L2) \<Rightarrow> Go ((parts, holes, hole_spans), text @ [d], L2))
             else if c = 36 \<and> lx_peek L1 = Some 123 then
               (case interp_source (lx_skip L1) of
                  (Inl e, L2) \<Rightarrow> Stop (Err e, L2)
                | (Inr sp, L2) \<Rightarrow>
                    Go ((parts @ [text], holes @ [is_src sp], hole_spans @ [(is_start_line sp, is_start_col sp)]), [], L2))
             else Go ((parts, holes, hole_spans), text @ [c], L1)))"

definition tag_rest :: "tag_state \<Rightarrow> nat" where
  "tag_rest s = remaining (snd (snd s))"

lemma tag_turn_remaining: "tag_turn s = Go s' \<Longrightarrow> tag_rest s' < tag_rest s"
  by (auto simp: tag_turn_def tag_rest_def split: prod.splits option.splits sum.splits if_splits
      dest!: bump_simps read_escape_remaining interp_source_remaining)

function tag_loop :: "tag_state \<Rightarrow> tag_parts lexed" where
  "tag_loop s = (case tag_turn s of Stop r \<Rightarrow> r | Go s' \<Rightarrow> tag_loop s')"
  by pat_completeness auto
termination
  by (relation "measure tag_rest") (auto dest: tag_turn_remaining)

declare tag_loop.simps [simp del]

definition tag_literal :: "Lexer \<Rightarrow> tag_parts lexed" where
  "tag_literal L = tag_loop (([], [], []), [], lx_skip L)"

section \<open>Operators\<close>

definition two_char_tokens :: "(string \<times> Tok) list" where
  "two_char_tokens =
     [(''=='', TEqEq), (''!='', TNotEq), (''<='', TLtEq), (''>='', TGtEq), (''<-'', TLArrow), (''<<'', TShl), (''>>'', TShr),
      (''->'', TRArrow), (''+='', TPlusEq), (''-='', TMinusEq), (''*='', TStarEq), (''/='', TSlashEq), (''%='', TPercentEq),
      (''&&'', TAndAnd), (''||'', TOrOr), (''??'', TQuestionQuestion), (''${'', TQuoteHoleStart), (''.{'', TDotLBrace), (''.['', TDotLBracket)]"

definition one_char_tokens :: "(string \<times> Tok) list" where
  "one_char_tokens =
     [(''|'', TBar), (''&'', TAmp), (''^'', TCaret), (''~'', TTilde), (''!'', TBang), (''='', TEq), (''<'', TLt), (''>'', TGt),
      (''+'', TPlus), (''-'', TMinus), (''*'', TStar), (''/'', TSlash), (''%'', TPercent), (''?'', TQuestion), (''@'', TAt),
      (''('', TLParen), ('')'', TRParen), (''}'', TRBrace), (''['', TLBracket), ('']'', TRBracket), ('','', TComma), ('':'', TColon),
      (''.'', TDot)]"

definition token_of :: "(string \<times> Tok) list \<Rightarrow> nat list \<Rightarrow> Tok option" where
  "token_of table s = map_of (map (\<lambda>(t, tok). (ucs t, tok)) table) s"

definition pipe_message :: "nat list" where
  "pipe_message = ucs ''`|>` is not a witchy operator '' @ [8212] @ ucs '' write `f(value, ...)` or `value.f(...)`''"

definition brace_message :: "nat list" where
  "brace_message = ucs ''braces are not part of witchy syntax '' @ [8212] @ ucs '' use indentation (`:` and an indented block)''"

definition operator :: "Lexer \<Rightarrow> Tok lexed" where
  "operator L =
     (case bump L of
        (None, L1) \<Rightarrow> (Err LexPanic, L1)
      | (Some c, L1) \<Rightarrow>
          (case (case lx_peek L1 of Some d \<Rightarrow> token_of two_char_tokens [c, d] | None \<Rightarrow> None) of
             Some tok \<Rightarrow> (Ok tok, lx_skip L1)
           | None \<Rightarrow>
               if c = 124 \<and> lx_peek L1 = Some 62 then (Err (lex_err L1 pipe_message), L1)
               else if c = 123 then (Err (lex_err L1 brace_message), L1)
               else if c = 46 \<and> lx_peek L1 = Some 46 then
                 (let L2 = lx_skip L1 in if lx_peek L2 = Some 61 then (Ok TDotDotEq, lx_skip L2) else (Ok TDotDot, L2))
               else (case token_of one_char_tokens [c] of
                  Some tok \<Rightarrow> (Ok tok, L1)
                | None \<Rightarrow> (Err (lex_err L1 (ucs ''unexpected character `'' @ [c] @ ucs ''`'')), L1))))"

section \<open>The token loop\<close>

definition close_last :: "Lexer \<Rightarrow> Token list \<Rightarrow> Token list" where
  "close_last L tokens =
     (if tokens = [] then [] else butlast tokens @ [(last tokens)\<lparr>tk_end_line := lx_line L, tk_end_col := lx_col L\<rparr>])"

text \<open>The token that starts with \<open>c\<close>, when it is not a string.\<close>

definition scan_token :: "Token list \<Rightarrow> nat \<Rightarrow> Lexer \<Rightarrow> Tok lexed" where
  "scan_token out c L =
     (if ch_digit c \<and> out \<noteq> [] \<and> tk_kind (last out) = TDot then integer_index L
      else if ch_digit c then number L
      else if ch_alphabetic c \<or> c = 95 then (case ident_or_keyword L of (t, L') \<Rightarrow> (Ok t, L'))
      else if c = 39 \<and> (case lx_peek2 L of Some d \<Rightarrow> ch_alphabetic d \<or> d = 95 | None \<Rightarrow> False) then
        (case lifetime L of (t, L') \<Rightarrow> (Ok t, L'))
      else operator L)"

text \<open>
  One turn of the loop once trivia is skipped: the tokens so far with those that start here. \<open>before\<close> is the
  position before the trivia, so that a quote there is adjacent to the name in front of it.
\<close>

definition ident_of :: "Tok \<Rightarrow> nat list option" where
  "ident_of t = (case t of TIdent s \<Rightarrow> Some s | _ \<Rightarrow> None)"

definition lex_step ::
    "(nat list \<Rightarrow> (lex_fault, Token list) result) \<Rightarrow> Token list \<Rightarrow> nat \<Rightarrow> nat \<Rightarrow> Lexer \<Rightarrow> Token list lexed" where
  "lex_step inner out before c L =
     (let line = lx_line L; col = lx_col L in
      if c = 34 \<and> lx_pos L = before \<and> out \<noteq> [] \<and> ident_of (tk_kind (last out)) \<noteq> None then
        (case tag_literal L of
           (Inl e, L') \<Rightarrow> (Err e, L')
         | (Inr (parts, holes, hole_spans), L') \<Rightarrow>
             (Ok (butlast out @ [\<lparr>tk_kind = TTagLit (the (ident_of (tk_kind (last out)))) parts holes hole_spans,
                tk_line = tk_line (last out), tk_col = tk_col (last out), tk_end_line = lx_line L', tk_end_col = lx_col L'\<rparr>]), L'))
      else if c = 34 then
        (case lex_string inner False line col L of (Inl e, L') \<Rightarrow> (Err e, L') | (Inr ts, L') \<Rightarrow> (Ok (out @ close_last L' ts), L'))
      else if c = 102 \<and> lx_peek2 L = Some 34 then
        (case lex_string inner True line col (lx_skip L) of (Inl e, L') \<Rightarrow> (Err e, L') | (Inr ts, L') \<Rightarrow> (Ok (out @ close_last L' ts), L'))
      else
        (case scan_token out c L of
           (Inl e, L') \<Rightarrow> (Err e, L')
         | (Inr kind, L') \<Rightarrow>
             (Ok (out @ [\<lparr>tk_kind = kind, tk_line = line, tk_col = col, tk_end_line = lx_line L', tk_end_col = lx_col L'\<rparr>]), L')))"

end
