(* ===== verification/Tokenize.thy ===== *)
theory Tokenize
  imports Lexer_Steps
begin

text \<open>
  The token loop of crates/witchy-syntax/src/lexer.rs, the entry points built on it, and what holds of every
  run: each turn consumes input, the inner lexer of an interpolation only ever sees shorter text, so the
  nesting depth given to it is never exhausted, and no run panics.
\<close>

section \<open>Every turn consumes input\<close>

named_theorems consumption

lemma scan_run_progress:
  "lx_peek L = Some c \<Longrightarrow> accept c \<Longrightarrow> scan_run accept keep L = (run, L') \<Longrightarrow> remaining L' < remaining L"
  using peek_skip[of L c] unfolding scan_run.simps[of accept keep L]
  by (auto split: prod.splits dest!: scan_run_remaining)

lemma skip_trivia_remaining: "skip_trivia L = (r, L') \<Longrightarrow> remaining L' \<le> remaining L"
proof (induction L rule: skip_trivia.induct)
  case (1 L)
  let ?line = "snd (scan_run (\<lambda>c. c \<noteq> 10) (\<lambda>c. True) L)" and ?block = "block_comment 1 (lx_skip (lx_skip L))"
  have "remaining ?line \<le> remaining L" by (metis prod.collapse scan_run_remaining)
  moreover have "remaining ?block \<le> remaining L" using block_comment_remaining[of 1 "lx_skip (lx_skip L)"] by simp
  moreover have "remaining (lx_skip L) \<le> remaining L" by simp
  ultimately have steps: "remaining L' \<le> remaining (lx_skip L) \<Longrightarrow> remaining L' \<le> remaining L"
    "remaining L' \<le> remaining (record_comment a b c d ?line) \<Longrightarrow> remaining L' \<le> remaining L"
    "remaining L' \<le> remaining (record_comment a b c d ?block) \<Longrightarrow> remaining L' \<le> remaining L" for a b c d by auto
  show ?case
  proof (cases "lx_peek L")
    case (Some c)
    then show ?thesis
      using "1.prems" "1.IH"[OF Some] steps unfolding skip_trivia.simps[of L]
      by (simp only: option.case split: if_splits) (blast, simp_all)
  qed (use "1.prems" in \<open>simp add: skip_trivia.simps[of L]\<close>)
qed

lemma skips_remaining: "remaining ((lx_skip ^^ n) L) \<le> remaining L"
  by (induction n) (auto intro: order_trans[OF diff_le_self])

lemma radix_int_remaining [consumption]: "radix_int radix name L = (r, L') \<Longrightarrow> remaining L' \<le> remaining L"
  by (auto simp: radix_int_def split: prod.splits if_splits option.splits dest: scan_run_remaining)

lemma decimal_number_remaining [consumption]: "decimal_number run L = (r, L') \<Longrightarrow> remaining L' \<le> remaining L"
  by (auto simp: decimal_number_def Let_def skips_remaining split: option.splits)

lemma number_remaining:
  assumes "number L = (r, L')" "lx_peek L = Some c" "ch_digit c"
  shows "remaining L' < remaining L"
proof (cases "lx_peek L = Some 48 \<and> (lx_peek2 L \<in> {Some 120, Some 88} \<or> lx_peek2 L \<in> {Some 98, Some 66})")
  case True
  then have "remaining L' \<le> remaining (lx_skip (lx_skip L))"
    using assms(1) by (auto simp: number_def simp del: remaining_skip dest!: radix_int_remaining)
  with peek_skip[OF assms(2)] show ?thesis by simp
next
  case False
  obtain run L1 where run: "scan_run (\<lambda>c. ch_digit c \<or> c = 95) (\<lambda>c. c \<noteq> 95) L = (run, L1)" by fastforce
  then have "remaining L1 < remaining L" using scan_run_progress[OF assms(2) _ run] assms(3) by simp
  moreover have "remaining L' \<le> remaining L1"
    using assms(1) False run
    by (auto simp: number_def split: if_splits option.splits prod.splits dest!: decimal_number_remaining scan_run_remaining)
  ultimately show ?thesis by simp
qed

lemma operator_remaining: "operator L = (Ok t, L') \<Longrightarrow> remaining L' < remaining L"
  by (auto simp: operator_def Let_def split: prod.splits option.splits if_splits dest!: bump_simps)

lemma scan_token_remaining:
  assumes "scan_token out c L = (Ok t, L')" "lx_peek L = Some c"
  shows "remaining L' < remaining L"
proof -
  have "remaining L' < remaining L" if "integer_index L = (Ok t, L')" "ch_digit c"
    using that scan_run_progress[OF assms(2)] by (auto simp: integer_index_def split: prod.splits option.splits)
  moreover have "remaining L' < remaining L" if "ident_or_keyword L = (t, L')" "ch_alphabetic c \<or> c = 95"
    using that scan_run_progress[OF assms(2), of ch_ident] by (auto simp: ident_or_keyword_def ch_ident_def split: prod.splits)
  moreover have "remaining L' < remaining L" if "lifetime L = (t, L')"
    using that peek_skip[OF assms(2)] by (auto simp: lifetime_def split: prod.splits dest!: scan_run_remaining)
  moreover have "remaining L' < remaining L" if "operator L = (Ok t, L')" using that by (rule operator_remaining)
  ultimately show ?thesis
    using assms number_remaining[of L "Ok t" L' c] by (auto simp: scan_token_def split: if_splits prod.splits)
qed

lemma string_loop_remaining:
  "string_loop inner fs line col s = (Ok ts, L') \<Longrightarrow> remaining L' < string_rest s"
proof (induction inner fs line col s rule: string_loop.induct)
  case (1 inner fs line col s)
  have stop: "remaining L' < string_rest s" if "string_turn inner fs line col s = Stop (Ok ts, L')"
    using that by (auto simp: string_turn_def string_rest_def after_hole_def split: prod.splits option.splits sum.splits if_splits
        dest!: bump_simps)
  show ?case
    using "1.prems" "1.IH" stop string_turn_remaining[of inner fs line col s]
    unfolding string_loop.simps[of inner fs line col s] by (fastforce split: turn.splits)
qed

lemma tag_loop_remaining: "tag_loop s = (Ok r, L') \<Longrightarrow> remaining L' < tag_rest s"
proof (induction s rule: tag_loop.induct)
  case (1 s)
  have stop: "remaining L' < tag_rest s" if "tag_turn s = Stop (Ok r, L')"
    using that by (auto simp: tag_turn_def tag_rest_def split: prod.splits option.splits sum.splits if_splits dest!: bump_simps)
  show ?case
    using "1.prems" "1.IH" stop tag_turn_remaining[of s] unfolding tag_loop.simps[of s] by (fastforce split: turn.splits)
qed

lemma lex_step_remaining:
  assumes "lex_step inner out before c L = (Ok out', L')" "lx_peek L = Some c"
  shows "remaining L' < remaining L"
proof -
  have shorter: "remaining M < remaining L" if "remaining M < remaining (lx_skip L)" for M using that by simp
  have "remaining L' < remaining L" if "tag_literal L = (Ok r, L')" for r
    using that by (auto simp: tag_literal_def tag_rest_def intro!: shorter dest!: tag_loop_remaining)
  moreover have "remaining L' < remaining L" if "lex_string inner fs line col L = (Ok ts, L')" for fs line col ts
    using that by (auto simp: lex_string_def string_rest_def intro!: shorter dest!: string_loop_remaining)
  moreover have "remaining L' < remaining L" if "lex_string inner fs line col (lx_skip L) = (Ok ts, L')" for fs line col ts
    using that by (auto simp: lex_string_def string_rest_def dest!: string_loop_remaining)
  ultimately show ?thesis
    using assms scan_token_remaining[of out c L _ L'] by (auto simp: lex_step_def Let_def split: if_splits prod.splits sum.splits)
qed

section \<open>The loop\<close>

function tokenize_loop ::
    "(nat list \<Rightarrow> (lex_fault, Token list) result) \<Rightarrow> Token list \<Rightarrow> Lexer \<Rightarrow> Token list lexed" where
  "tokenize_loop inner out L =
     (case skip_trivia L of
        (Inl e, L1) \<Rightarrow> (Err e, L1)
      | (Inr _, L1) \<Rightarrow>
          (case lx_peek L1 of
             None \<Rightarrow> (Ok (out @ [token_point TEof (lx_line L1) (lx_col L1)]), L1)
           | Some c \<Rightarrow>
               (case lex_step inner out (lx_pos L) c L1 of
                  (Inl e, L2) \<Rightarrow> (Err e, L2)
                | (Inr out', L2) \<Rightarrow> tokenize_loop inner out' L2)))"
  by pat_completeness auto
termination
  by (relation "measure (\<lambda>(_, _, L). remaining L)")
    (auto dest!: skip_trivia_remaining[OF sym] lex_step_remaining[OF sym])

declare tokenize_loop.simps [simp del]

primrec lex_at :: "nat \<Rightarrow> Lexer \<Rightarrow> Token list lexed" where
  "lex_at 0 L = (Err LexDepth, L)"
| "lex_at (Suc depth) L = tokenize_loop (\<lambda>src. fst (lex_at depth (Lexer_new src))) [] L"

text \<open>\<open>Lexer::tokenize\<close> on a lexer, and the functions that other modules call.\<close>

definition run_lexer :: "Lexer \<Rightarrow> Token list lexed" where
  "run_lexer L = lex_at (Suc (remaining L)) L"

definition tokenize :: "nat list \<Rightarrow> (lex_fault, Token list) result" where
  "tokenize src = fst (run_lexer (Lexer_new src))"

definition own_line_comments :: "nat list \<Rightarrow> (nat \<times> nat \<times> nat list) list" where
  "own_line_comments src = lx_comments (snd (run_lexer (Lexer_new src)))"

definition trailing_comments :: "nat list \<Rightarrow> (nat \<times> nat \<times> nat list) list" where
  "trailing_comments src = lx_trailing_comments (snd (run_lexer (Lexer_new src)))"

section \<open>The depth is never exhausted\<close>

text \<open>Two inner lexers that agree on all text shorter than what is left are interchangeable.\<close>

definition agree_below :: "nat \<Rightarrow> (nat list \<Rightarrow> 'a) \<Rightarrow> (nat list \<Rightarrow> 'a) \<Rightarrow> bool" where
  "agree_below n f g \<longleftrightarrow> (\<forall>src. length src < n \<longrightarrow> f src = g src)"

lemma agree_below_mono: "agree_below n f g \<Longrightarrow> m \<le> n \<Longrightarrow> agree_below m f g"
  by (simp add: agree_below_def)

lemma emit_interpolation_agree:
  "agree_below (remaining L) f g \<Longrightarrow> emit_interpolation f out str ip line col L = emit_interpolation g out str ip line col L"
  by (auto simp: emit_interpolation_def agree_below_def Let_def split: prod.splits sum.splits dest!: interp_source_remaining)

lemma string_turn_agree:
  "agree_below (string_rest s) f g \<Longrightarrow> string_turn f fs line col s = string_turn g fs line col s"
proof -
  assume agree: "agree_below (string_rest s) f g"
  obtain str out ip L where s: "s = (str, out, ip, L)" by (cases s)
  have "emit_interpolation f out str ip line col M = emit_interpolation g out str ip line col M" if "remaining M \<le> remaining L" for M
    using agree that by (intro emit_interpolation_agree) (auto simp: s string_rest_def intro: agree_below_mono)
  then show ?thesis
    by (auto simp: s string_turn_def split: prod.splits option.splits dest!: bump_simps)
qed

lemma string_loop_agree:
  "agree_below (string_rest s) f g \<Longrightarrow> string_loop f fs line col s = string_loop g fs line col s"
proof (induction f fs line col s rule: string_loop.induct)
  case (1 f fs line col s)
  show ?case
    unfolding string_loop.simps[of _ fs line col s] string_turn_agree[OF "1.prems", symmetric]
    using "1.IH" agree_below_mono[OF "1.prems" less_imp_le[OF string_turn_remaining]] by (simp split: turn.splits)
qed

lemma lex_step_agree: "agree_below (remaining L) f g \<Longrightarrow> lex_step f out before c L = lex_step g out before c L"
  by (auto simp: lex_step_def lex_string_def Let_def string_rest_def intro!: arg_cong[where f = "case_prod _"]
      string_loop_agree[THEN arg_cong] intro: agree_below_mono split: if_splits)

lemma tokenize_loop_agree:
  "agree_below (remaining L) f g \<Longrightarrow> tokenize_loop f out L = tokenize_loop g out L"
proof (induction f out L rule: tokenize_loop.induct)
  case (1 f out L)
  have "lex_step f out (lx_pos L) c L1 = lex_step g out (lx_pos L) c L1" if "skip_trivia L = (r, L1)" for r c L1
    using agree_below_mono[OF "1.prems" skip_trivia_remaining[OF that]] by (rule lex_step_agree)
  moreover have "tokenize_loop f out' L2 = tokenize_loop g out' L2"
    if "skip_trivia L = (Inr u, L1)" "lx_peek L1 = Some c" "lex_step f out (lx_pos L) c L1 = (Inr out', L2)" for u L1 c out' L2
    using "1.IH"[OF that(1)[symmetric] refl that(2) that(3)[symmetric] refl] lex_step_remaining[OF that(3,2)]
      skip_trivia_remaining[OF that(1)] agree_below_mono[OF "1.prems"] by simp
  ultimately show ?case
    unfolding tokenize_loop.simps[of _ out L] by (simp split: prod.splits sum.splits option.splits)
qed

lemma lex_at_enough: "remaining L < k \<Longrightarrow> remaining L < k' \<Longrightarrow> lex_at k L = lex_at k' L"
proof (induction k arbitrary: k' L)
  case (Suc k)
  then obtain j where k': "k' = Suc j" by (cases k') auto
  have "agree_below (remaining L) (\<lambda>src. fst (lex_at k (Lexer_new src))) (\<lambda>src. fst (lex_at j (Lexer_new src)))"
    unfolding agree_below_def
  proof (intro allI impI)
    fix src :: "nat list"
    assume "length src < remaining L"
    then have "remaining (Lexer_new src) < k" "remaining (Lexer_new src) < j"
      using Suc.prems k' by (simp_all add: remaining_def Lexer_new_def)
    from Suc.IH[OF this] show "fst (lex_at k (Lexer_new src)) = fst (lex_at j (Lexer_new src))" by simp
  qed
  then show ?case by (simp add: k' tokenize_loop_agree)
qed simp

text \<open>The equation of the code: the lexer of a hole is the lexer itself.\<close>

lemma run_lexer_unfold: "run_lexer L = tokenize_loop tokenize [] L"
proof -
  have "agree_below (remaining L) (\<lambda>src. fst (lex_at (remaining L) (Lexer_new src))) tokenize"
    unfolding agree_below_def tokenize_def run_lexer_def
    by (intro allI impI arg_cong[where f = fst] lex_at_enough) (simp_all add: remaining_def Lexer_new_def)
  then show ?thesis by (simp add: run_lexer_def tokenize_loop_agree)
qed

lemma tokenize_unfold: "tokenize src = fst (tokenize_loop tokenize [] (Lexer_new src))"
  by (simp add: tokenize_def run_lexer_unfold)

section \<open>Positions, errors and the end marker\<close>

text \<open>
  The contract of every reader on a text of \<open>n\<close> characters: the counters stay within the text, a failure is a
  reported error at a position within it, and the value satisfies the reader's own promise. Because the inner
  lexer promises the same about its shorter text, the rebased positions stay within bounds too.
\<close>

definition lx_ok :: "nat \<Rightarrow> Lexer \<Rightarrow> bool" where
  "lx_ok n L \<longleftrightarrow> length (lx_chars L) = n \<and> lx_pos L \<le> n \<and> 1 \<le> lx_line L \<and> lx_line L \<le> Suc (lx_pos L)
     \<and> 1 \<le> lx_col L \<and> lx_col L \<le> Suc (lx_pos L)"

definition fault_ok :: "nat \<Rightarrow> lex_fault \<Rightarrow> bool" where
  "fault_ok n e \<longleftrightarrow> (\<exists>err. e = LexFail err \<and> le_line err \<in> {1..Suc n} \<and> le_col err \<in> {1..Suc n})"

definition lexed_ok :: "nat \<Rightarrow> ('a \<Rightarrow> bool) \<Rightarrow> 'a lexed \<Rightarrow> bool" where
  "lexed_ok n good r \<longleftrightarrow> lx_ok n (snd r) \<and> (case fst r of Inl e \<Rightarrow> fault_ok n e | Inr x \<Rightarrow> good x)"

text \<open>A source token is neither an opening brace nor an end marker, and a closing brace has a width.\<close>

definition zero_width :: "Token \<Rightarrow> bool" where
  "zero_width t \<longleftrightarrow> tk_end_line t = tk_line t \<and> tk_end_col t = tk_col t"

definition token_ok :: "nat \<Rightarrow> Token \<Rightarrow> bool" where
  "token_ok n t \<longleftrightarrow> tk_line t \<in> {1..Suc n} \<and> tk_col t \<in> {1..Suc n} \<and> tk_end_line t \<in> {1..Suc n} \<and> tk_end_col t \<in> {1..Suc n}
     \<and> tk_kind t \<noteq> TEof \<and> tk_kind t \<noteq> TLBrace \<and> (tk_kind t = TRBrace \<longrightarrow> \<not> zero_width t)"

lemma lx_ok_new: "lx_ok (length src) (Lexer_new src)"
  by (simp add: lx_ok_def Lexer_new_def)

lemma lx_ok_bump: "bump L = (c, L') \<Longrightarrow> lx_ok n L \<Longrightarrow> lx_ok n L'"
  by (auto simp: bump_def lx_peek_def char_at_def lx_ok_def split: option.splits if_splits)

lemma lx_ok_skip: "lx_ok n L \<Longrightarrow> lx_ok n (lx_skip L)"
  using lx_ok_bump[of L "fst (bump L)" "lx_skip L" n] by (simp add: lx_skip_def)

lemma lx_ok_skips: "lx_ok n L \<Longrightarrow> lx_ok n ((lx_skip ^^ k) L)"
  by (induction k) (auto intro: lx_ok_skip)

lemma lx_ok_comment: "lx_ok n L \<Longrightarrow> lx_ok n (record_comment a b c d L)"
  by (simp add: lx_ok_def record_comment_def Let_def)

lemma fault_ok_err: "lx_ok n L \<Longrightarrow> fault_ok n (lex_err L message)"
  by (auto simp: fault_ok_def lex_err_def lx_ok_def)

lemma lexed_ok_simps [simp]:
  "lexed_ok n good (Inr x, L) \<longleftrightarrow> lx_ok n L \<and> good x"
  "lexed_ok n good (Inl e, L) \<longleftrightarrow> lx_ok n L \<and> fault_ok n e"
  by (auto simp: lexed_ok_def)

lemma lx_ok_scan_run: "scan_run accept keep L = (run, L') \<Longrightarrow> lx_ok n L \<Longrightarrow> lx_ok n L'"
proof (induction accept keep L arbitrary: run rule: scan_run.induct)
  case (1 accept keep L)
  show ?case
    using "1.prems" "1.IH" lx_ok_skip[of n L] unfolding scan_run.simps[of accept keep L]
    by (fastforce split: option.splits if_splits prod.splits)
qed

lemma lx_ok_block_comment: "lx_ok n L \<Longrightarrow> lx_ok n (block_comment depth L)"
proof (induction depth L rule: block_comment.induct)
  case (1 depth L)
  then show ?case by (subst block_comment.simps) (auto intro: lx_ok_skip)
qed

lemma skip_trivia_ok: "lx_ok n L \<Longrightarrow> lexed_ok n (\<lambda>_. True) (skip_trivia L)"
proof (induction L rule: skip_trivia.induct)
  case (1 L)
  have "lx_ok n (snd (scan_run (\<lambda>c. c \<noteq> 10) (\<lambda>c. True) L))" using lx_ok_scan_run[OF _ "1.prems"] by (metis prod.collapse)
  then show ?case
    using "1.prems" "1.IH" lx_ok_skip[OF "1.prems"] unfolding skip_trivia.simps[of L]
    by (auto split: option.splits intro: fault_ok_err lx_ok_skip lx_ok_comment lx_ok_block_comment)
qed

text \<open>The readers of a token that is not a string, under one contract.\<close>

definition outcome_ok :: "nat \<Rightarrow> Lexer \<Rightarrow> Tok lexed \<Rightarrow> bool" where
  "outcome_ok n L r \<longleftrightarrow>
     (case r of
        (Inl e, L') \<Rightarrow> lx_ok n L' \<and> fault_ok n e
      | (Inr k, L') \<Rightarrow> lx_ok n L' \<and> token_ok n \<lparr>tk_kind = k, tk_line = lx_line L, tk_col = lx_col L,
          tk_end_line = lx_line L', tk_end_col = lx_col L'\<rparr>)"

locale token_reader =
  fixes read :: "Lexer \<Rightarrow> Tok lexed"
    and kinds :: "Tok \<Rightarrow> bool"
  assumes read_ok: "lx_ok n L \<Longrightarrow> lx_peek L = Some c \<Longrightarrow> lexed_ok n kinds (read L)"
    and kinds_plain: "kinds k \<Longrightarrow> k \<noteq> TEof \<and> k \<noteq> TLBrace"
begin

lemma read_outcome:
  assumes "lx_ok n L" "lx_peek L = Some c" "\<And>L'. read L = (Ok TRBrace, L') \<Longrightarrow> lx_col L' \<noteq> lx_col L"
  shows "outcome_ok n L (read L)"
proof -
  obtain r L' where r: "read L = (r, L')" by fastforce
  show ?thesis using assms read_ok[OF assms(1,2)] kinds_plain
    by (cases r) (auto simp: outcome_ok_def r token_ok_def lx_ok_def zero_width_def)
qed

end

definition word_kind :: "Tok \<Rightarrow> bool" where
  "word_kind k \<longleftrightarrow> k \<notin> {TEof, TLBrace, TRBrace}"

lemma radix_int_ok: "lx_ok n L \<Longrightarrow> lexed_ok n word_kind (radix_int radix name L)"
  by (auto simp: radix_int_def word_kind_def split: prod.splits option.splits intro: fault_ok_err dest: lx_ok_scan_run)

lemma decimal_number_ok: "lx_ok n L \<Longrightarrow> lexed_ok n word_kind (decimal_number run L)"
  by (auto simp: decimal_number_def Let_def word_kind_def split: option.splits intro: fault_ok_err lx_ok_skips)

lemma keyword_token_kind: "word_kind (keyword_token run)"
proof -
  have "list_all (\<lambda>(s, t). word_kind t) KEYWORDS" by (simp add: KEYWORDS_def word_kind_def)
  then show ?thesis
    by (auto simp: keyword_token_def word_kind_def list_all_iff split: option.splits dest!: map_of_SomeD)
qed

interpretation reads_index: token_reader integer_index word_kind
  by unfold_locales
    (auto simp: integer_index_def word_kind_def split: prod.splits option.splits intro: fault_ok_err dest: lx_ok_scan_run)

interpretation reads_number: token_reader number word_kind
proof
  fix n L c
  assume ok: "lx_ok n L"
  show "lexed_ok n word_kind (number L)"
    using ok radix_int_ok[OF lx_ok_skip[OF lx_ok_skip[OF ok]]]
    by (auto simp: number_def split: prod.splits option.splits intro!: decimal_number_ok intro: fault_ok_err lx_ok_skip
        dest!: lx_ok_scan_run simp: word_kind_def)
qed (simp add: word_kind_def)

interpretation reads_name: token_reader "\<lambda>L. case ident_or_keyword L of (t, L') \<Rightarrow> (Ok t, L')" word_kind
  by unfold_locales
    (auto simp: ident_or_keyword_def keyword_token_kind split: prod.splits dest: lx_ok_scan_run, simp_all add: word_kind_def)

interpretation reads_lifetime: token_reader "\<lambda>L. case lifetime L of (t, L') \<Rightarrow> (Ok t, L')" word_kind
  by unfold_locales (auto simp: lifetime_def word_kind_def split: prod.splits dest: lx_ok_scan_run intro: lx_ok_skip)

lemma token_of_kind: "token_of table s = Some t \<Longrightarrow> list_all (\<lambda>(s, t). P t) table \<Longrightarrow> P t"
  by (auto simp: token_of_def list_all_iff dest!: map_of_SomeD)

lemma operator_tables:
  "list_all (\<lambda>(s, t). word_kind t) two_char_tokens" "list_all (\<lambda>(s, t). t \<noteq> TEof \<and> t \<noteq> TLBrace) one_char_tokens"
  by (simp_all add: two_char_tokens_def one_char_tokens_def word_kind_def)

interpretation reads_operator: token_reader operator "\<lambda>k. k \<noteq> TEof \<and> k \<noteq> TLBrace"
proof
  fix n L c
  assume ok: "lx_ok n L" and c: "lx_peek L = Some c"
  then obtain L1 where b: "bump L = (Some c, L1)" by (simp add: bump_def)
  note ok1 = lx_ok_bump[OF b ok]
  show "lexed_ok n (\<lambda>k. k \<noteq> TEof \<and> k \<noteq> TLBrace) (operator L)"
    using ok1 lx_ok_skip[OF ok1] lx_ok_skip[OF lx_ok_skip[OF ok1]] operator_tables
    by (auto simp: operator_def b Let_def word_kind_def split: option.splits intro: fault_ok_err
        dest: token_of_kind[where P = "\<lambda>t. t \<notin> {TEof, TLBrace, TRBrace}"] token_of_kind[where P = "\<lambda>t. t \<noteq> TEof \<and> t \<noteq> TLBrace"])
qed simp

lemma operator_RBrace:
  assumes "operator L = (Ok TRBrace, L')"
  shows "lx_col L' \<noteq> lx_col L"
proof -
  from assms obtain c L1 where b: "bump L = (Some c, L1)" by (auto simp: operator_def split: prod.splits option.splits)
  have no: "token_of two_char_tokens s \<noteq> Some TRBrace" for s
    using token_of_kind[OF _ operator_tables(1), of s TRBrace] by (auto simp: word_kind_def)
  have "L' = L1" "token_of one_char_tokens [c] = Some TRBrace"
    using assms no by (auto simp: operator_def b Let_def split: option.splits if_splits)
  moreover have "token_of one_char_tokens [10] = None" by (simp add: token_of_def one_char_tokens_def ucs_def ascii_code_def)
  ultimately show ?thesis using b by (auto simp: bump_def split: option.splits if_splits)
qed

lemma word_not_RBrace: "lexed_ok n word_kind r \<Longrightarrow> r \<noteq> (Ok TRBrace, L')"
  by (auto simp: word_kind_def)

lemma scan_token_ok:
  assumes "lx_ok n L" "lx_peek L = Some c"
  shows "outcome_ok n L (scan_token out c L)"
proof -
  note read = reads_index.read_outcome reads_number.read_outcome reads_name.read_outcome reads_lifetime.read_outcome
  note ok = reads_index.read_ok reads_number.read_ok reads_name.read_ok reads_lifetime.read_ok
  have "outcome_ok n L (integer_index L)" "outcome_ok n L (number L)"
    "outcome_ok n L (case ident_or_keyword L of (t, L') \<Rightarrow> (Ok t, L'))" "outcome_ok n L (case lifetime L of (t, L') \<Rightarrow> (Ok t, L'))"
    using read[OF assms] ok[OF assms, THEN word_not_RBrace] by blast+
  moreover have "outcome_ok n L (operator L)"
    using reads_operator.read_outcome[OF assms] operator_RBrace by blast
  ultimately show ?thesis by (simp add: scan_token_def)
qed

text \<open>Strings and holes.\<close>

lemma nested_string_ok: "lx_ok n L \<Longrightarrow> lexed_ok n (\<lambda>_. True) (nested_string src L)"
proof (induction src L rule: nested_string.induct)
  case (1 src L)
  obtain o1 L1 o2 L2 where b: "bump L = (o1, L1)" "bump L1 = (o2, L2)" by fastforce
  note ok = lx_ok_bump[OF b(1) "1.prems"] and ok2 = lx_ok_bump[OF b(2) lx_ok_bump[OF b(1) "1.prems"]]
  show ?case
    using "1.IH" ok ok2 unfolding nested_string.simps[of src L]
    by (cases o1; cases o2) (auto simp: b intro: fault_ok_err)
qed

lemma escaped_string_ok: "lx_ok n L \<Longrightarrow> lexed_ok n (\<lambda>_. True) (escaped_string src L)"
proof (induction src L rule: escaped_string.induct)
  case (1 src L)
  obtain o1 L1 o2 L2 where b: "bump L = (o1, L1)" "bump L1 = (o2, L2)" by fastforce
  note ok = lx_ok_bump[OF b(1) "1.prems"] and ok2 = lx_ok_bump[OF b(2) lx_ok_bump[OF b(1) "1.prems"]]
  show ?case
    using "1.IH" ok ok2 unfolding escaped_string.simps[of src L]
    by (cases o1; cases o2) (auto simp: b intro: fault_ok_err)
qed

lemma bump_before: "bump L = (Some c, L') \<Longrightarrow> lx_ok n L \<Longrightarrow> lx_line L \<in> {1..n} \<and> lx_col L \<in> {1..n}"
  by (auto simp: bump_def lx_peek_def char_at_def lx_ok_def split: option.splits if_splits)

lemma hole_source_ok: "lx_ok n L \<Longrightarrow> lexed_ok n (\<lambda>(src, l, c). l \<in> {1..n} \<and> c \<in> {1..n}) (hole_source depth src L)"
proof (induction depth src L rule: hole_source.induct)
  case (1 depth src L)
  obtain o1 L1 where b: "bump L = (o1, L1)" by fastforce
  note ok = lx_ok_bump[OF b "1.prems"]
  obtain r2 L2 where ns: "nested_string (src @ [34]) L1 = (r2, L2)" by fastforce
  obtain r3 L3 where es: "escaped_string (src @ [34]) (lx_skip L1) = (r3, L3)" by fastforce
  have ok2: "lx_ok n L2" "r2 = Inl e \<Longrightarrow> fault_ok n e" "lx_ok n L3" "r3 = Inl e \<Longrightarrow> fault_ok n e" for e
    using nested_string_ok[OF ok, of "src @ [34]"] escaped_string_ok[OF lx_ok_skip[OF ok], of "src @ [34]"]
    by (auto simp: ns es lexed_ok_def)
  show ?case
  proof (cases o1)
    case None
    then show ?thesis using ok by (simp add: hole_source.simps[of depth src L] b fault_ok_err)
  next
    case (Some c)
    show ?thesis
      using "1.IH"[OF b[symmetric] Some] ok ok2 bump_before[OF _ "1.prems"] b ns es
      by (subst hole_source.simps) (cases r2; cases r3; auto simp: Some)
  qed
qed

lemma interp_source_ok:
  assumes "lx_ok n L"
  shows "lexed_ok n (\<lambda>sp. lx_pos L + length (is_src sp) < n \<and> is_start_line sp \<in> {1..Suc (lx_pos L)} \<and> is_start_col sp \<in> {1..Suc (lx_pos L)}
    \<and> is_close_line sp \<in> {1..n} \<and> is_close_col sp \<in> {1..n}) (interp_source L)"
proof -
  obtain r L' where h: "hole_source 1 [] L = (r, L')" by fastforce
  have "lexed_ok n (\<lambda>(src, l, c). l \<in> {1..n} \<and> c \<in> {1..n}) (r, L')" using hole_source_ok[OF assms, of 1 "[]"] unfolding h .
  moreover have "lx_pos L + length src < n" if "r = Inr (src, p)" for src p
    using hole_source_remaining[of 1 "[]" L src p L'] h that assms by (auto simp: lx_ok_def remaining_def)
  ultimately show ?thesis using assms unfolding interp_source_def h by (cases r) (auto simp: lx_ok_def)
qed

lemma read_escape_ok: "lx_ok n L \<Longrightarrow> lexed_ok n (\<lambda>_. True) (read_escape what L)"
  by (auto simp: read_escape_def split: prod.splits option.splits intro: fault_ok_err dest: lx_ok_bump)

text \<open>What the inner lexer promises about shorter text, and what becomes of it in the enclosing text.\<close>

definition inner_ok :: "nat \<Rightarrow> (nat list \<Rightarrow> (lex_fault, Token list) result) \<Rightarrow> bool" where
  "inner_ok m inner \<longleftrightarrow>
     (\<forall>src. length src < m \<longrightarrow>
        (case inner src of
           Inl e \<Rightarrow> fault_ok (length src) e
         | Inr ts \<Rightarrow> list_all (token_ok (length src)) (takeWhile (\<lambda>t. tk_kind t \<noteq> TEof) ts)))"

lemma rebase_position_bounds:
  assumes "p + k < n" "sl \<in> {1..Suc p}" "sc \<in> {1..Suc p}" "l \<in> {1..Suc k}" "c \<in> {1..Suc k}" "rebase_inner_position sl sc l c = (l', c')"
  shows "l' \<in> {1..Suc n}" "c' \<in> {1..Suc n}"
  using assms by (auto simp: rebase_inner_position_def split: if_splits)

lemma rebase_position_inj:
  assumes "1 \<le> l" "1 \<le> c" "1 \<le> l2" "1 \<le> c2" "rebase_inner_position sl sc l c = rebase_inner_position sl sc l2 c2" "1 \<le> sl"
  shows "l = l2 \<and> c = c2"
  using assms by (auto simp: rebase_inner_position_def split: if_splits)

lemma rebase_token_ok:
  assumes "token_ok k t" "p + k < n" "is_start_line sp \<in> {1..Suc p}" "is_start_col sp \<in> {1..Suc p}"
  shows "token_ok n (rebase_token sp t)"
proof -
  let ?r = "rebase_inner_position (is_start_line sp) (is_start_col sp)"
  obtain l c l2 c2 where r: "?r (tk_line t) (tk_col t) = (l, c)" "?r (tk_end_line t) (tk_end_col t) = (l2, c2)" by fastforce
  have pos: "tk_line t \<in> {1..Suc k}" "tk_col t \<in> {1..Suc k}" "tk_end_line t \<in> {1..Suc k}" "tk_end_col t \<in> {1..Suc k}"
    using assms(1) by (simp_all add: token_ok_def)
  note bounds = rebase_position_bounds[OF assms(2-4)]
  have "\<not> zero_width (rebase_token sp t)" if "\<not> zero_width t"
    using rebase_position_inj[of "tk_end_line t" "tk_end_col t" "tk_line t" "tk_col t" "is_start_line sp" "is_start_col sp"] pos that assms(3) r
    by (auto simp: zero_width_def rebase_token_def Let_def)
  then show ?thesis
    using bounds[OF pos(1,2) r(1)] bounds[OF pos(3,4) r(2)] assms(1)
    by (auto simp: token_ok_def rebase_token_def Let_def r zero_width_def)
qed

lemma rebase_fault_ok:
  assumes "fault_ok k e" "p + k < n" "is_start_line sp \<in> {1..Suc p}" "is_start_col sp \<in> {1..Suc p}"
  shows "fault_ok n (rebase_fault sp e)"
proof -
  from assms(1) obtain err where e: "e = LexFail err" "le_line err \<in> {1..Suc k}" "le_col err \<in> {1..Suc k}" by (auto simp: fault_ok_def)
  obtain l c where r: "rebase_inner_position (is_start_line sp) (is_start_col sp) (le_line err) (le_col err) = (l, c)" by fastforce
  show ?thesis using rebase_position_bounds[OF assms(2-4) e(2,3) r] by (simp add: e(1) rebase_fault_def r fault_ok_def)
qed

lemma emit_interpolation_ok:
  assumes ok: "lx_ok n L" and inner: "inner_ok (remaining L) inner" and out: "list_all (token_ok n) out"
    and literal: "line \<in> {1..Suc n}" "col \<in> {1..Suc n}"
  shows "lexed_ok n (list_all (token_ok n)) (emit_interpolation inner out str ip line col L)"
proof -
  obtain r L' where h: "interp_source L = (r, L')" by fastforce
  note sp = interp_source_ok[OF ok, unfolded h]
  show ?thesis
  proof (cases r)
    case (Inl e)
    then show ?thesis using sp by (simp add: emit_interpolation_def h Let_def)
  next
    case (Inr x)
    with sp have ok': "lx_ok n L'" and len: "lx_pos L + length (is_src x) < n"
      and start: "is_start_line x \<in> {1..Suc (lx_pos L)}" "is_start_col x \<in> {1..Suc (lx_pos L)}"
      and close: "is_close_line x \<in> {1..n}" "is_close_col x \<in> {1..n}" by simp_all
    have shorter: "length (is_src x) < remaining L" using interp_source_remaining[of L x L'] h Inr by simp
    show ?thesis
    proof (cases "inner (is_src x)")
      case (Inl e)
      then have "fault_ok (length (is_src x)) e" using inner shorter by (force simp: inner_ok_def)
      from rebase_fault_ok[OF this len start] show ?thesis using ok' by (simp add: emit_interpolation_def h \<open>r = Inr x\<close> Inl Let_def)
    next
      case (Inr ts)
      then have "list_all (token_ok (length (is_src x))) (takeWhile (\<lambda>t. tk_kind t \<noteq> TEof) ts)"
        using inner shorter by (force simp: inner_ok_def)
      then have "list_all (token_ok n) (map (rebase_token x) (takeWhile (\<lambda>t. tk_kind t \<noteq> TEof) ts))"
        using rebase_token_ok[OF _ len start] by (auto simp: list_all_iff)
      moreover have "lx_line L \<in> {1..Suc n}" "lx_col L \<in> {1..Suc n}" using ok by (auto simp: lx_ok_def)
      ultimately show ?thesis
        using ok' out literal start close len by (auto simp: emit_interpolation_def h \<open>r = Inr x\<close> Inr Let_def token_ok_def token_point_def)
    qed
  qed
qed

text \<open>The loops over the characters of a literal keep the contract turn by turn.\<close>

definition turn_ok :: "('s \<Rightarrow> bool) \<Rightarrow> nat \<Rightarrow> ('r \<Rightarrow> bool) \<Rightarrow> ('s, 'r lexed) turn \<Rightarrow> bool" where
  "turn_ok state_ok n good t \<longleftrightarrow> (case t of Stop r \<Rightarrow> lexed_ok n good r | Go s \<Rightarrow> state_ok s)"

lemma turn_ok_simps [simp]:
  "turn_ok state_ok n good (Stop r) \<longleftrightarrow> lexed_ok n good r" "turn_ok state_ok n good (Go s) \<longleftrightarrow> state_ok s"
  by (simp_all add: turn_ok_def)

definition string_ok :: "nat \<Rightarrow> (nat list \<Rightarrow> (lex_fault, Token list) result) \<Rightarrow> string_state \<Rightarrow> bool" where
  "string_ok n inner s \<longleftrightarrow> (case s of (str, out, ip, L) \<Rightarrow> lx_ok n L \<and> inner_ok (remaining L) inner \<and> list_all (token_ok n) out)"

lemma inner_ok_mono: "inner_ok m inner \<Longrightarrow> k \<le> m \<Longrightarrow> inner_ok k inner"
  by (simp add: inner_ok_def)

lemma after_hole_ok:
  assumes "lx_ok n M" "inner_ok (remaining M) inner" "list_all (token_ok n) out" "line \<in> {1..Suc n}" "col \<in> {1..Suc n}"
  shows "turn_ok (string_ok n inner) n (list_all (token_ok n)) (after_hole (emit_interpolation inner out str ip line col M))"
proof -
  obtain r L' where e: "emit_interpolation inner out str ip line col M = (r, L')" by fastforce
  from emit_interpolation_ok[OF assms, of str ip] have ok: "lexed_ok n (list_all (token_ok n)) (r, L')" by (simp add: e)
  show ?thesis
  proof (cases r)
    case (Inr out')
    then have "inner_ok (remaining L') inner"
      using emit_interpolation_remaining[of inner out str ip line col M out' L'] e assms(2) by (auto intro: inner_ok_mono)
    then show ?thesis using ok Inr by (simp add: e after_hole_def string_ok_def)
  qed (use ok in \<open>simp add: e after_hole_def\<close>)
qed

lemma string_turn_ok:
  assumes "string_ok n inner s" "line \<in> {1..Suc n}" "col \<in> {1..Suc n}"
  shows "turn_ok (string_ok n inner) n (list_all (token_ok n)) (string_turn inner fs line col s)"
proof -
  obtain str out ip L where s: "s = (str, out, ip, L)" by (cases s)
  from assms(1) have ok: "lx_ok n L" and inner: "inner_ok (remaining L) inner" and out: "list_all (token_ok n) out"
    by (simp_all add: s string_ok_def)
  obtain o1 L1 where b: "bump L = (o1, L1)" by fastforce
  note ok1 = lx_ok_bump[OF b ok] and skip = lx_ok_skip[OF lx_ok_bump[OF b ok]]
  have rest: "remaining L1 \<le> remaining L" using b by (cases o1) (auto dest!: bump_simps)
  have inner1: "inner_ok (remaining L1) inner" "inner_ok (remaining (lx_skip L1)) inner" using rest by (auto intro: inner_ok_mono[OF inner])
  obtain r L2 where e: "read_escape ''string literal'' L1 = (r, L2)" by fastforce
  have esc: "lexed_ok n (\<lambda>_. True) (r, L2)" using read_escape_ok[OF ok1, of "''string literal''"] by (simp add: e)
  have inner2: "inner_ok (remaining L2) inner" if "r = Inr d" for d
    using read_escape_remaining[of "''string literal''" L1 d L2] e that rest by (auto intro: inner_ok_mono[OF inner])
  note holes = after_hole_ok[OF ok1 inner1(1) out assms(2,3)] after_hole_ok[OF skip inner1(2) out assms(2,3)]
  show ?thesis
  proof (cases o1)
    case None
    then show ?thesis using ok1 by (simp add: s string_turn_def b fault_ok_err)
  next
    case (Some c)
    show ?thesis
      using ok1 skip inner1 inner2 out esc holes assms(2,3)
      by (cases r) (auto simp: s string_turn_def b Some e string_ok_def token_ok_def token_point_def)
  qed
qed

lemma string_loop_ok:
  assumes "line \<in> {1..Suc n}" "col \<in> {1..Suc n}"
  shows "string_ok n inner s \<Longrightarrow> lexed_ok n (list_all (token_ok n)) (string_loop inner fs line col s)"
  using assms
proof (induction inner fs line col s rule: string_loop.induct)
  case (1 inner fs line col s)
  from string_turn_ok[OF "1.prems", of fs] "1.IH" "1.prems" show ?case
    unfolding string_loop.simps[of inner fs line col s] by (auto split: turn.splits)
qed

lemma tag_loop_ok: "lx_ok n (snd (snd s)) \<Longrightarrow> lexed_ok n (\<lambda>_. True) (tag_loop s)"
proof (induction s rule: tag_loop.induct)
  case (1 s)
  obtain parts holes spans str L where s: "s = ((parts, holes, spans), str, L)" by (metis prod.collapse)
  obtain o1 L1 where b: "bump L = (o1, L1)" by fastforce
  have ok1: "lx_ok n L1" using lx_ok_bump[OF b] "1.prems" by (simp add: s)
  obtain r L2 where e: "read_escape ''tagged literal'' L1 = (r, L2)" by fastforce
  have esc: "lexed_ok n (\<lambda>_. True) (r, L2)" using read_escape_ok[OF ok1, of "''tagged literal''"] by (simp add: e)
  obtain q L3 where h: "interp_source (lx_skip L1) = (q, L3)" by fastforce
  have hole: "lx_ok n L3" "q = Inl x \<Longrightarrow> fault_ok n x" for x
    using interp_source_ok[OF lx_ok_skip[OF ok1]] by (auto simp: h lexed_ok_def)
  have "turn_ok (\<lambda>s. lx_ok n (snd (snd s))) n (\<lambda>_. True) (tag_turn s)"
    using ok1 esc hole by (cases o1; cases r; cases q) (auto simp: s tag_turn_def b e h intro: fault_ok_err)
  with "1.IH" show ?case unfolding tag_loop.simps[of s] by (auto split: turn.splits)
qed

lemma list_all_butlast: "list_all P xs \<Longrightarrow> list_all P (butlast xs)"
  by (auto simp: list_all_iff dest: in_set_butlastD)

lemma list_all_last: "list_all P xs \<Longrightarrow> xs \<noteq> [] \<Longrightarrow> P (last xs)"
  by (simp add: list_all_iff)

lemma string_loop_last: "string_loop inner fs line col s = (Ok ts, L') \<Longrightarrow> ts \<noteq> [] \<and> tk_kind (last ts) \<noteq> TRBrace"
proof (induction inner fs line col s rule: string_loop.induct)
  case (1 inner fs line col s)
  have "ts \<noteq> [] \<and> tk_kind (last ts) \<noteq> TRBrace" if "string_turn inner fs line col s = Stop (Ok ts, L')"
    using that by (auto simp: string_turn_def after_hole_def token_point_def split: prod.splits option.splits sum.splits if_splits)
  then show ?case
    using "1.prems" "1.IH" unfolding string_loop.simps[of inner fs line col s] by (fastforce split: turn.splits)
qed

lemma close_last_ok:
  assumes "list_all (token_ok n) ts" "tk_kind (last ts) \<noteq> TRBrace" "lx_ok n L"
  shows "list_all (token_ok n) (close_last L ts)"
proof (cases "ts = []")
  case False
  then have "token_ok n (last ts)" using assms(1) by (simp add: list_all_iff)
  then have "token_ok n ((last ts)\<lparr>tk_end_line := lx_line L, tk_end_col := lx_col L\<rparr>)"
    using assms(2,3) by (auto simp: token_ok_def lx_ok_def)
  then show ?thesis using False list_all_butlast[OF assms(1)] by (simp add: close_last_def)
qed (simp add: close_last_def)

lemma lex_string_ok:
  assumes "lx_ok n M" "inner_ok (remaining M) inner" "line \<in> {1..Suc n}" "col \<in> {1..Suc n}" "list_all (token_ok n) out"
  shows "lexed_ok n (list_all (token_ok n))
    (case lex_string inner fs line col M of (Inl e, L') \<Rightarrow> (Err e, L') | (Inr ts, L') \<Rightarrow> (Ok (out @ close_last L' ts), L'))"
proof -
  have start: "string_ok n inner ([], [], False, lx_skip M)"
    using assms(1,2) by (auto simp: string_ok_def intro: lx_ok_skip inner_ok_mono)
  obtain r L' where r: "lex_string inner fs line col M = (r, L')" by fastforce
  have ok: "lexed_ok n (list_all (token_ok n)) (r, L')"
    using string_loop_ok[OF assms(3,4) start, of fs] r by (simp add: lex_string_def)
  have "list_all (token_ok n) (close_last L' ts)" if "r = Inr ts" for ts
    using close_last_ok[of n ts L'] ok that string_loop_last[of inner fs line col "([], [], False, lx_skip M)" ts L'] r
    by (simp add: lex_string_def)
  then show ?thesis using ok assms(5) by (cases r) (auto simp: r)
qed

lemma lex_step_ok:
  assumes ok: "lx_ok n L" and peek: "lx_peek L = Some c" and inner: "inner_ok (remaining L) inner" and out: "list_all (token_ok n) out"
  shows "lexed_ok n (list_all (token_ok n)) (lex_step inner out before c L)"
proof -
  have pos: "lx_line L \<in> {1..Suc n}" "lx_col L \<in> {1..Suc n}" using ok by (auto simp: lx_ok_def)
  have inner': "inner_ok (remaining (lx_skip L)) inner" by (rule inner_ok_mono[OF inner]) simp
  obtain q L' where q: "tag_literal L = (q, L')" by fastforce
  have tag: "lexed_ok n (\<lambda>_. True) (q, L')" using tag_loop_ok[of n "(([], [], []), [], lx_skip L)"] lx_ok_skip[OF ok] q by (simp add: tag_literal_def)
  have tok: "token_ok n \<lparr>tk_kind = TTagLit tag parts holes spans, tk_line = tk_line t, tk_col = tk_col t, tk_end_line = lx_line L', tk_end_col = lx_col L'\<rparr>"
    if "token_ok n t" for t tag parts holes spans using that tag by (auto simp: token_ok_def lexed_ok_def lx_ok_def)
  obtain k M where k: "scan_token out c L = (k, M)" by fastforce
  have scan: "outcome_ok n L (k, M)" using scan_token_ok[OF ok peek, of out] by (simp add: k)
  note strings = lex_string_ok[OF ok inner pos out] lex_string_ok[OF lx_ok_skip[OF ok] inner' pos out]
  show ?thesis
    unfolding lex_step_def Let_def q k
    using strings tag tok scan out list_all_butlast[OF out] list_all_last[OF out]
    by (cases q; cases k) (auto simp: outcome_ok_def)
qed

lemma tokenize_loop_ok:
  assumes "lx_ok n L" "inner_ok (remaining L) inner" "list_all (token_ok n) out"
  shows "lexed_ok n (\<lambda>ts. \<exists>body l c. ts = body @ [token_point TEof l c] \<and> list_all (token_ok n) body \<and> l \<in> {1..Suc n} \<and> c \<in> {1..Suc n})
    (tokenize_loop inner out L)"
  using assms
proof (induction inner out L rule: tokenize_loop.induct)
  case (1 inner out L)
  obtain r L1 where t: "skip_trivia L = (r, L1)" by fastforce
  have ok1: "lexed_ok n (\<lambda>_. True) (r, L1)" using skip_trivia_ok[OF "1.prems"(1)] by (simp add: t)
  then have lx1: "lx_ok n L1" by (simp add: lexed_ok_def)
  have inner1: "inner_ok (remaining L1) inner" by (rule inner_ok_mono[OF "1.prems"(2) skip_trivia_remaining[OF t]])
  show ?case
  proof (cases "r = Inr () \<and> lx_peek L1 \<noteq> None")
    case False
    then show ?thesis using ok1 lx1 "1.prems"(3) unfolding tokenize_loop.simps[of inner out L] t
      by (cases r) (auto simp: lx_ok_def token_point_def)
  next
    case True
    then obtain c where r: "r = Inr ()" and c: "lx_peek L1 = Some c" by auto
    obtain q L2 where s: "lex_step inner out (lx_pos L) c L1 = (q, L2)" by fastforce
    have step: "lexed_ok n (list_all (token_ok n)) (q, L2)" using lex_step_ok[OF lx1 c inner1 "1.prems"(3), of "lx_pos L"] by (simp add: s)
    show ?thesis
    proof (cases q)
      case (Inl e)
      then show ?thesis using step by (simp add: tokenize_loop.simps[of inner out L] t r c s)
    next
      case (Inr out')
      have "inner_ok (remaining L2) inner"
        using lex_step_remaining[OF s[unfolded Inr] c] by (intro inner_ok_mono[OF inner1]) simp
      with "1.IH"[OF t[symmetric] r c s[symmetric] Inr] step Inr show ?thesis
        by (simp add: tokenize_loop.simps[of inner out L] t r c s)
    qed
  qed
qed

lemma takeWhile_body: "list_all (token_ok n) body \<Longrightarrow> takeWhile (\<lambda>t. tk_kind t \<noteq> TEof) (body @ [token_point TEof l c]) = body"
  by (simp add: token_point_def list_all_iff token_ok_def takeWhile_append2)

lemma tokenize_ok: "case tokenize src of
    Inl e \<Rightarrow> fault_ok (length src) e
  | Inr ts \<Rightarrow> \<exists>body l c. ts = body @ [token_point TEof l c] \<and> list_all (token_ok (length src)) body \<and> l \<in> {1..Suc (length src)} \<and> c \<in> {1..Suc (length src)}"
proof (induction "length src" arbitrary: src rule: less_induct)
  case less
  have "inner_ok (length src) tokenize"
    unfolding inner_ok_def
  proof (intro allI impI)
    fix sub :: "nat list"
    assume "length sub < length src"
    from less[OF this] show "case tokenize sub of Inl e \<Rightarrow> fault_ok (length sub) e
      | Inr ts \<Rightarrow> list_all (token_ok (length sub)) (takeWhile (\<lambda>t. tk_kind t \<noteq> TEof) ts)"
      by (auto simp: takeWhile_body split: sum.splits)
  qed
  then have "inner_ok (remaining (Lexer_new src)) tokenize" by (simp add: remaining_def Lexer_new_def)
  from tokenize_loop_ok[OF lx_ok_new this, of "[]"] show ?case
    unfolding tokenize_unfold[of src] by (auto simp: lexed_ok_def split: sum.splits)
qed

section \<open>Properties\<close>

text \<open>
  C17: The lexer always returns: it satisfies the recursive equation of the code, in which the tokens of an
  interpolation hole come from the lexer itself, for every source and with no bound on the nesting, and it
  neither panics nor runs out of the depth that the definition carries.
\<close>

theorem tokenize_returns:
  "tokenize src = fst (tokenize_loop tokenize [] (Lexer_new src)) \<and> tokenize src \<noteq> Err LexDepth \<and> tokenize src \<noteq> Err LexPanic"
  using tokenize_unfold[of src] tokenize_ok[of src] by (auto simp: fault_ok_def)

text \<open>
  C20: What the parser may rely on: the token list has one end marker, at its end, and no source token is an
  opening brace; every line and column, of a token, of its end, or of an error, is between one and the number
  of characters plus one. In a source of fewer than \<open>2 ^ 32 - 1\<close> characters no position counter overflows.
\<close>

theorem tokenize_positions:
  "case tokenize src of
     Inl (LexFail err) \<Rightarrow> le_line err \<in> {1..Suc (length src)} \<and> le_col err \<in> {1..Suc (length src)}
   | Inl _ \<Rightarrow> False
   | Inr ts \<Rightarrow> ts \<noteq> [] \<and> tk_kind (last ts) = TEof \<and> list_all (\<lambda>t. tk_kind t \<notin> {TEof, TLBrace}) (butlast ts)
       \<and> list_all (\<lambda>t. {tk_line t, tk_col t, tk_end_line t, tk_end_col t} \<subseteq> {1..Suc (length src)}) ts"
proof (cases "tokenize src")
  case (Inl e)
  then show ?thesis using tokenize_ok[of src] by (auto simp: fault_ok_def)
next
  case (Inr ts)
  then obtain body l c where ts: "ts = body @ [token_point TEof l c]" "list_all (token_ok (length src)) body"
    "l \<in> {1..Suc (length src)}" "c \<in> {1..Suc (length src)}" using tokenize_ok[of src] by auto
  then have "list_all (\<lambda>t. tk_kind t \<notin> {TEof, TLBrace}) body"
    "list_all (\<lambda>t. {tk_line t, tk_col t, tk_end_line t, tk_end_col t} \<subseteq> {1..Suc (length src)}) body"
    by (auto simp: list_all_iff token_ok_def)
  then show ?thesis using Inr ts by (simp add: token_point_def)
qed

end
