(* ===== verification/Layout.thy ===== *)
theory Layout
  imports Tokenize
begin

text \<open>
  The off-side rule of crates/witchy-syntax/src/lexer.rs (\<open>apply_layout\<close>): tokens are grouped into lines with
  their indentation and bracket depth, and virtual braces are put around the indented blocks that follow a
  line ending in a colon or an arrow. The last element of a Rust vector used as a stack is the head of a list
  here. The properties show that the pass only adds virtual braces and only drops header colons, that every
  virtual block lies within one bracket level, and, for text without brackets, that the blocks are those of the
  recursive reading of indentation.
\<close>

section \<open>Lines\<close>

definition vtok :: "Tok \<Rightarrow> Token \<Rightarrow> Token" where
  "vtok kind near = token_point kind (tk_line near) (tk_col near)"

definition is_opener :: "Tok \<Rightarrow> bool" where
  "is_opener k \<longleftrightarrow> k \<in> {TLParen, TLBracket, TLBrace, TQuoteHoleStart, TDotLBrace, TDotLBracket}"

definition is_closer :: "Tok \<Rightarrow> bool" where
  "is_closer k \<longleftrightarrow> k \<in> {TRParen, TInterpRBrace, TRBracket, TRBrace}"

record LayoutLine =
  ll_indent :: nat
  ll_bdepth_start :: int
  ll_toks :: "Token list"

definition depth_after :: "Tok \<Rightarrow> int \<Rightarrow> int" where
  "depth_after k depth = (if is_opener k then depth + 1 else if is_closer k then depth - 1 else depth)"

definition add_to_lines :: "Token \<Rightarrow> int \<Rightarrow> nat \<Rightarrow> LayoutLine list \<Rightarrow> LayoutLine list" where
  "add_to_lines t depth prev_line lines =
     (if lines = [] \<or> tk_line t \<noteq> prev_line then lines @ [\<lparr>ll_indent = tk_col t, ll_bdepth_start = depth, ll_toks = [t]\<rparr>]
      else butlast lines @ [(last lines)\<lparr>ll_toks := ll_toks (last lines) @ [t]\<rparr>])"

fun group_lines :: "Token list \<Rightarrow> LayoutLine list \<Rightarrow> int \<Rightarrow> nat \<Rightarrow> LayoutLine list \<times> Token option" where
  "group_lines [] lines depth prev_line = (lines, None)"
| "group_lines (t # ts) lines depth prev_line =
     (if tk_kind t = TEof then (lines, Some t)
      else group_lines ts (add_to_lines t depth prev_line lines) (depth_after (tk_kind t) depth) (tk_line t))"

section \<open>Blocks\<close>

record LayoutState =
  ly_out :: "Token list"
  ly_stack :: "nat list"
  ly_block_bd :: "int list"
  ly_pending :: "nat option"
  ly_bdepth :: int

definition near_last :: "Token list \<Rightarrow> Token \<Rightarrow> Token" where
  "near_last out t = (if out = [] then t else last out)"

definition push_out :: "Token \<Rightarrow> LayoutState \<Rightarrow> LayoutState" where
  "push_out t s = s\<lparr>ly_out := ly_out s @ [t]\<rparr>"

text \<open>Close the innermost block with a brace next to the last token.\<close>

definition close_block :: "Token \<Rightarrow> LayoutState \<Rightarrow> LayoutState" where
  "close_block t s =
     (push_out (vtok TRBrace (near_last (ly_out s) t)) s)\<lparr>ly_stack := tl (ly_stack s), ly_block_bd := tl (ly_block_bd s)\<rparr>"

definition open_pending :: "LayoutLine \<Rightarrow> LayoutState \<Rightarrow> LayoutState" where
  "open_pending line s =
     (let here = hd (ll_toks line) in
      case ly_pending s of
        None \<Rightarrow> s
      | Some header_indent \<Rightarrow>
          if header_indent < ll_indent line then
            (push_out (vtok TLBrace here) s)\<lparr>ly_pending := None, ly_stack := header_indent # ly_stack s, ly_block_bd := ly_bdepth s # ly_block_bd s\<rparr>
          else (push_out (vtok TRBrace here) (push_out (vtok TLBrace here) s))\<lparr>ly_pending := None\<rparr>)"

function close_dedent :: "LayoutLine \<Rightarrow> LayoutState \<Rightarrow> LayoutState" where
  "close_dedent line s =
     (if (case ly_stack s of header # _ \<Rightarrow> ll_indent line \<le> header | [] \<Rightarrow> False)
         \<and> (case ly_block_bd s of bd # _ \<Rightarrow> ll_bdepth_start line \<le> bd | [] \<Rightarrow> False)
      then close_dedent line (close_block (hd (ll_toks line)) s) else s)"
  by pat_completeness auto
termination
  by (relation "measure (\<lambda>(_, s). length (ly_stack s))") (auto simp: close_block_def push_out_def split: list.splits)

function close_deeper :: "int \<Rightarrow> Token \<Rightarrow> LayoutState \<Rightarrow> LayoutState" where
  "close_deeper new_bd t s =
     (if (case ly_block_bd s of bd # _ \<Rightarrow> new_bd < bd | [] \<Rightarrow> False) then close_deeper new_bd t (close_block t s) else s)"
  by pat_completeness auto
termination
  by (relation "measure (\<lambda>(_, _, s). length (ly_block_bd s))") (auto simp: close_block_def push_out_def split: list.splits)

declare close_dedent.simps [simp del] close_deeper.simps [simp del]

definition emit_token :: "Token \<Rightarrow> LayoutState \<Rightarrow> LayoutState" where
  "emit_token t s =
     (if is_closer (tk_kind t) then
        push_out t ((close_deeper (ly_bdepth s - 1) t s)\<lparr>ly_bdepth := ly_bdepth s - 1\<rparr>)
      else if is_opener (tk_kind t) then push_out t (s\<lparr>ly_bdepth := ly_bdepth s + 1\<rparr>)
      else push_out t s)"

fun emit_tokens :: "nat \<Rightarrow> Token list \<Rightarrow> LayoutState \<Rightarrow> LayoutState" where
  "emit_tokens indent [] s = s"
| "emit_tokens indent (t # ts) s =
     (if ts = [] \<and> tk_kind t = TColon then s\<lparr>ly_pending := Some indent\<rparr> else emit_tokens indent ts (emit_token t s))"

definition ends_with_arrow :: "LayoutLine \<Rightarrow> bool" where
  "ends_with_arrow line \<longleftrightarrow> ll_toks line \<noteq> [] \<and> tk_kind (last (ll_toks line)) = TRArrow"

definition layout_line :: "LayoutLine \<Rightarrow> LayoutState \<Rightarrow> LayoutState" where
  "layout_line line s =
     (let s' = emit_tokens (ll_indent line) (ll_toks line) (close_dedent line (open_pending line s)) in
      if ends_with_arrow line then s'\<lparr>ly_pending := Some (ll_indent line)\<rparr> else s')"

fun close_all :: "Token \<Rightarrow> nat list \<Rightarrow> Token list \<Rightarrow> Token list" where
  "close_all eof [] out = out"
| "close_all eof (_ # stack) out = close_all eof stack (out @ [vtok TRBrace (near_last out eof)])"

definition finish_layout :: "Token \<Rightarrow> LayoutState \<Rightarrow> Token list" where
  "finish_layout eof s =
     (let near = near_last (ly_out s) eof;
          out = (if ly_pending s \<noteq> None then ly_out s @ [vtok TLBrace near, vtok TRBrace near] else ly_out s)
      in close_all eof (ly_stack s) out @ [eof])"

definition layout_start :: LayoutState where
  "layout_start = \<lparr>ly_out = [], ly_stack = [], ly_block_bd = [], ly_pending = None, ly_bdepth = 0\<rparr>"

definition apply_layout :: "Token list \<Rightarrow> Token list" where
  "apply_layout tokens =
     (case group_lines tokens [] 0 0 of (lines, eof) \<Rightarrow>
        (let s = fold layout_line lines layout_start in
         case eof of Some t \<Rightarrow> finish_layout t s | None \<Rightarrow> ly_out s))"

section \<open>What the pass adds and removes\<close>

definition is_virtual :: "Token \<Rightarrow> bool" where
  "is_virtual t \<longleftrightarrow> tk_kind t = TLBrace \<or> tk_kind t = TRBrace \<and> zero_width t"

definition source_token :: "Token \<Rightarrow> bool" where
  "source_token t \<longleftrightarrow> \<not> is_virtual t \<and> tk_kind t \<noteq> TEof"

text \<open>A colon is a header when nothing follows it on its line.\<close>

fun strip_headers :: "Token list \<Rightarrow> Token list" where
  "strip_headers [] = []"
| "strip_headers (t # ts) =
     (if tk_kind t = TColon \<and> (case ts of [] \<Rightarrow> True | u # _ \<Rightarrow> tk_line u \<noteq> tk_line t) then strip_headers ts
      else t # strip_headers ts)"

definition line_body :: "LayoutLine \<Rightarrow> Token list" where
  "line_body l = (if ll_toks l \<noteq> [] \<and> tk_kind (last (ll_toks l)) = TColon then butlast (ll_toks l) else ll_toks l)"

abbreviation real_tokens :: "Token list \<Rightarrow> Token list" where
  "real_tokens \<equiv> filter (\<lambda>t. \<not> is_virtual t)"

lemma virtual_vtok [simp]: "is_virtual (vtok TLBrace t)" "is_virtual (vtok TRBrace t)"
  by (simp_all add: is_virtual_def vtok_def token_point_def zero_width_def)

lemma close_block_real [simp]: "real_tokens (ly_out (close_block t s)) = real_tokens (ly_out s)"
  by (simp add: close_block_def push_out_def)

lemma open_pending_real [simp]: "real_tokens (ly_out (open_pending line s)) = real_tokens (ly_out s)"
  by (simp add: open_pending_def push_out_def Let_def split: option.splits)

lemma close_dedent_real [simp]: "real_tokens (ly_out (close_dedent line s)) = real_tokens (ly_out s)"
proof (induction line s rule: close_dedent.induct)
  case (1 line s)
  then show ?case by (subst close_dedent.simps) auto
qed

lemma close_deeper_real [simp]: "real_tokens (ly_out (close_deeper bd t s)) = real_tokens (ly_out s)"
proof (induction bd t s rule: close_deeper.induct)
  case (1 bd t s)
  then show ?case by (subst close_deeper.simps) auto
qed

lemma emit_token_real: "source_token t \<Longrightarrow> real_tokens (ly_out (emit_token t s)) = real_tokens (ly_out s) @ [t]"
  by (simp add: emit_token_def push_out_def source_token_def)

lemma emit_tokens_real: "list_all source_token ts \<Longrightarrow>
  real_tokens (ly_out (emit_tokens indent ts s)) = real_tokens (ly_out s) @ (if ts \<noteq> [] \<and> tk_kind (last ts) = TColon then butlast ts else ts)"
  by (induction indent ts s rule: emit_tokens.induct) (auto simp: emit_token_real)

lemma layout_line_real: "list_all source_token (ll_toks l) \<Longrightarrow> real_tokens (ly_out (layout_line l s)) = real_tokens (ly_out s) @ line_body l"
  by (simp add: layout_line_def Let_def emit_tokens_real line_body_def)

lemma layout_lines_real:
  "(\<And>l. l \<in> set ls \<Longrightarrow> list_all source_token (ll_toks l)) \<Longrightarrow>
   real_tokens (ly_out (fold layout_line ls s)) = real_tokens (ly_out s) @ concat (map line_body ls)"
  by (induction ls arbitrary: s) (simp_all add: layout_line_real)

lemma close_all_real [simp]: "real_tokens (close_all eof stack out) = real_tokens out"
  by (induction eof stack out rule: close_all.induct) simp_all

lemma finish_layout_real: "tk_kind eof = TEof \<Longrightarrow> real_tokens (finish_layout eof s) = real_tokens (ly_out s) @ [eof]"
  by (simp add: finish_layout_def Let_def is_virtual_def[of eof])

text \<open>Grouping into lines keeps the tokens, and cuts where the line number changes.\<close>

lemma strip_same_line:
  "(\<And>t. t \<in> set xs \<Longrightarrow> tk_line t = n) \<Longrightarrow> xs \<noteq> [] \<Longrightarrow> ys = [] \<or> tk_line (hd ys) \<noteq> n \<Longrightarrow>
   strip_headers (xs @ ys) = (if tk_kind (last xs) = TColon then butlast xs else xs) @ strip_headers ys"
proof (induction xs)
  case (Cons x xs)
  then show ?case by (cases xs; cases ys) auto
qed simp

definition group_inv :: "LayoutLine list \<Rightarrow> nat \<Rightarrow> bool" where
  "group_inv lines prev \<longleftrightarrow> lines \<noteq> [] \<and> ll_toks (last lines) \<noteq> [] \<and> (\<forall>t \<in> set (ll_toks (last lines)). tk_line t = prev)"

lemma group_inv_step: "lines = [] \<or> group_inv lines prev \<Longrightarrow> group_inv (add_to_lines t d prev lines) (tk_line t)"
  by (auto simp: group_inv_def add_to_lines_def)

lemma concat_last: "ls \<noteq> [] \<Longrightarrow> concat (map f ls) = concat (map f (butlast ls)) @ f (last ls)"
  by (cases ls rule: rev_cases) simp_all

lemma group_lines_strip:
  assumes "list_all source_token ts" "tk_kind eof = TEof" "group_inv lines prev"
  shows "concat (map line_body (fst (group_lines (ts @ [eof]) lines d prev))) =
    concat (map line_body (butlast lines)) @ strip_headers (ll_toks (last lines) @ ts)"
  using assms
proof (induction ts arbitrary: lines d prev)
  case Nil
  then have "concat (map line_body lines) = concat (map line_body (butlast lines)) @ line_body (last lines)"
    by (intro concat_last) (simp add: group_inv_def)
  with Nil show ?case using strip_same_line[of "ll_toks (last lines)" prev "[]"] by (auto simp: group_inv_def line_body_def[of "last lines"])
next
  case (Cons t ts)
  have inv: "group_inv (add_to_lines t d prev lines) (tk_line t)" using group_inv_step Cons.prems(3) by blast
  have not_eof: "tk_kind t \<noteq> TEof" using Cons.prems(1) by (simp add: source_token_def)
  have split: "concat (map line_body lines) = concat (map line_body (butlast lines)) @ line_body (last lines)"
    by (rule concat_last) (use Cons.prems(3) in \<open>simp add: group_inv_def\<close>)
  show ?case
  proof (cases "tk_line t = prev")
    case True
    then show ?thesis using Cons.IH[OF _ Cons.prems(2) inv] Cons.prems not_eof
      by (simp add: add_to_lines_def group_inv_def)
  next
    case False
    then have "strip_headers (ll_toks (last lines) @ t # ts) = line_body (last lines) @ strip_headers (t # ts)"
      using strip_same_line[of "ll_toks (last lines)" prev "t # ts"] Cons.prems(3) by (auto simp: group_inv_def line_body_def)
    then show ?thesis using Cons.IH[OF _ Cons.prems(2) inv] Cons.prems not_eof False split
      by (simp add: add_to_lines_def del: strip_headers.simps)
  qed
qed

lemma group_lines_all:
  "tk_kind eof = TEof \<Longrightarrow> list_all P ts \<Longrightarrow> (\<And>l. l \<in> set lines \<Longrightarrow> list_all P (ll_toks l)) \<Longrightarrow> l \<in> set (fst (group_lines (ts @ [eof]) lines d prev)) \<Longrightarrow>
   list_all P (ll_toks l)"
proof (induction ts arbitrary: lines d prev)
  case (Cons t ts)
  have "list_all P (ll_toks m)" if "m \<in> set (add_to_lines t d prev lines)" for m
    using that Cons.prems(2,3) by (auto simp: add_to_lines_def split: if_splits dest: in_set_butlastD)
  then show ?case using Cons by (auto split: if_splits)
qed (auto split: if_splits)

lemma group_lines_eof: "list_all source_token ts \<Longrightarrow> tk_kind eof = TEof \<Longrightarrow> snd (group_lines (ts @ [eof]) lines d prev) = Some eof"
  by (induction ts arbitrary: lines d prev) (auto simp: source_token_def)

lemma group_lines_body:
  assumes "list_all source_token ts" "tk_kind eof = TEof"
  shows "concat (map line_body (fst (group_lines (ts @ [eof]) [] d prev))) = strip_headers ts"
proof (cases ts)
  case (Cons t ts')
  have inv: "group_inv (add_to_lines t d prev []) (tk_line t)" using group_inv_step by blast
  from assms Cons have "tk_kind t \<noteq> TEof" "list_all source_token ts'" by (simp_all add: source_token_def)
  with Cons group_lines_strip[OF _ assms(2) inv] show ?thesis by (simp add: add_to_lines_def del: strip_headers.simps)
qed (simp add: assms(2))

section \<open>Blocks nest within brackets\<close>

text \<open>
  A bracket checker that tells source brackets from virtual braces: a virtual close must meet a virtual open,
  and a source closer a source opener.
\<close>

datatype opened = Bracket | Block

fun nest :: "opened list \<Rightarrow> Token list \<Rightarrow> opened list option" where
  "nest st [] = Some st"
| "nest st (t # ts) =
     (if tk_kind t = TLBrace then nest (Block # st) ts
      else if is_opener (tk_kind t) then nest (Bracket # st) ts
      else if is_closer (tk_kind t) then
        (case st of
           [] \<Rightarrow> None
         | top_open # st' \<Rightarrow> if top_open = (if is_virtual t then Block else Bracket) then nest st' ts else None)
      else nest st ts)"

fun block_depths :: "opened list \<Rightarrow> int list" where
  "block_depths [] = []"
| "block_depths (Bracket # st) = block_depths st"
| "block_depths (Block # st) = int (length (filter (\<lambda>x. x = Bracket) st)) # block_depths st"

abbreviation brackets :: "opened list \<Rightarrow> opened list" where
  "brackets st \<equiv> filter (\<lambda>x. x = Bracket) st"

lemma nest_append: "nest st (xs @ ys) = (case nest st xs of None \<Rightarrow> None | Some st' \<Rightarrow> nest st' ys)"
  by (induction st xs rule: nest.induct) (auto split: list.splits)

text \<open>The state of the pass mirrors the open brackets and blocks of its output.\<close>

definition layout_inv :: "LayoutState \<Rightarrow> opened list \<Rightarrow> bool" where
  "layout_inv s st \<longleftrightarrow> nest [] (ly_out s) = Some st \<and> ly_block_bd s = block_depths st
     \<and> length (ly_stack s) = length (block_depths st) \<and> ly_bdepth s = int (length (brackets st))"

lemma block_depths_le: "bd \<in> set (block_depths st) \<Longrightarrow> bd \<le> int (length (brackets st))"
  by (induction st rule: block_depths.induct) auto

lemma kind_vtok [simp]: "tk_kind (vtok k t) = k"
  by (simp add: vtok_def token_point_def)

lemma brace_brackets [simp]: "is_closer TRBrace" "\<not> is_opener TRBrace"
  by (simp_all add: is_closer_def is_opener_def)

lemma virtual_open: "nest st [vtok TLBrace t] = Some (Block # st)"
  by simp

lemma virtual_close: "nest (Block # st) [vtok TRBrace t] = Some st"
  by simp

text \<open>A block whose depth is the current one is the innermost thing that is open.\<close>

lemma innermost_block:
  assumes "block_depths st = bd # bds" "int (length (brackets st)) \<le> bd"
  shows "\<exists>st'. st = Block # st'"
proof (cases st)
  case (Cons x st')
  show ?thesis
  proof (cases x)
    case Bracket
    then have "bd \<le> int (length (brackets st'))" using assms(1) Cons block_depths_le[of bd st'] by simp
    then show ?thesis using assms(2) Cons Bracket by simp
  qed (use Cons in simp)
qed (use assms in simp)

lemma layout_inv_close:
  assumes "layout_inv s (Block # st)"
  shows "layout_inv (close_block t s) st"
  using assms virtual_close[of st] by (simp add: layout_inv_def close_block_def push_out_def nest_append)

lemma close_dedent_inv:
  assumes "layout_inv s st" "ll_bdepth_start line = ly_bdepth s"
  shows "\<exists>st'. layout_inv (close_dedent line s) st' \<and> brackets st' = brackets st \<and> ly_pending (close_dedent line s) = ly_pending s"
  using assms
proof (induction line s arbitrary: st rule: close_dedent.induct)
  case (1 line s)
  show ?case
  proof (cases "(case ly_stack s of header # _ \<Rightarrow> ll_indent line \<le> header | [] \<Rightarrow> False)
      \<and> (case ly_block_bd s of bd # _ \<Rightarrow> ll_bdepth_start line \<le> bd | [] \<Rightarrow> False)")
    case False
    then have "close_dedent line s = s" by (subst close_dedent.simps) auto
    then show ?thesis using "1.prems" by auto
  next
    case True
    then obtain bd bds where bd: "block_depths st = bd # bds" "ly_bdepth s \<le> bd" using "1.prems" by (auto simp: layout_inv_def split: list.splits)
    then obtain st1 where st: "st = Block # st1" using innermost_block[OF bd(1)] "1.prems"(1) by (auto simp: layout_inv_def)
    have step: "close_dedent line s = close_dedent line (close_block (hd (ll_toks line)) s)" using True by (subst close_dedent.simps) simp
    have "layout_inv (close_block (hd (ll_toks line)) s) st1" using layout_inv_close "1.prems"(1) st by blast
    moreover have "ll_bdepth_start line = ly_bdepth (close_block (hd (ll_toks line)) s)" using "1.prems"(2) by (simp add: close_block_def push_out_def)
    ultimately obtain st' where "layout_inv (close_dedent line s) st'" "brackets st' = brackets st1"
        "ly_pending (close_dedent line s) = ly_pending (close_block (hd (ll_toks line)) s)"
      using "1.IH"[OF True] step by auto
    then show ?thesis by (auto simp: st close_block_def push_out_def)
  qed
qed

lemma close_deeper_inv:
  assumes "layout_inv s st" "bd = ly_bdepth s - 1" "brackets st \<noteq> []"
  shows "\<exists>st'. layout_inv (close_deeper bd t s) (Bracket # st') \<and> brackets (Bracket # st') = brackets st"
  using assms
proof (induction bd t s arbitrary: st rule: close_deeper.induct)
  case (1 bd t s)
  show ?case
  proof (cases "case ly_block_bd s of b # _ \<Rightarrow> bd < b | [] \<Rightarrow> False")
    case False
    then have eq: "close_deeper bd t s = s" by (subst close_deeper.simps) auto
    from "1.prems"(3) obtain x st1 where st: "st = x # st1" by (cases st) auto
    have "x = Bracket"
    proof (cases x)
      case Block
      then show ?thesis using False "1.prems" st by (auto simp: layout_inv_def)
    qed
    then show ?thesis using eq "1.prems" st by auto
  next
    case True
    then obtain b bds where b: "block_depths st = b # bds" "bd < b" using "1.prems" by (auto simp: layout_inv_def split: list.splits)
    then obtain st1 where st: "st = Block # st1" using innermost_block[OF b(1)] "1.prems"(1,2) by (auto simp: layout_inv_def)
    have step: "close_deeper bd t s = close_deeper bd t (close_block t s)" using True by (subst close_deeper.simps) simp
    have "layout_inv (close_block t s) st1" "bd = ly_bdepth (close_block t s) - 1" "brackets st1 \<noteq> []"
      using layout_inv_close "1.prems" st by (auto simp: close_block_def push_out_def)
    from "1.IH"[OF True this] show ?thesis by (simp add: step st)
  qed
qed

lemma emit_token_inv:
  assumes "layout_inv s st" "source_token t" "nest (brackets st) [t] = Some st0"
  shows "\<exists>st'. layout_inv (emit_token t s) st' \<and> brackets st' = st0"
proof -
  have plain: "\<not> is_virtual t" "tk_kind t \<noteq> TLBrace" using assms(2) by (auto simp: source_token_def is_virtual_def)
  show ?thesis
  proof (cases "is_closer (tk_kind t)")
    case True
    then have no: "\<not> is_opener (tk_kind t)" by (auto simp: is_closer_def is_opener_def)
    with True assms(3) plain have st0: "brackets st = Bracket # st0" by (auto split: list.splits if_splits)
    obtain st' where st': "layout_inv (close_deeper (ly_bdepth s - 1) t s) (Bracket # st')" "brackets (Bracket # st') = brackets st"
      using close_deeper_inv[OF assms(1) refl] st0 by force
    moreover have "length (brackets st) = Suc (length (brackets st'))" using arg_cong[OF st'(2), of length] by simp
    ultimately have "layout_inv (emit_token t s) st'"
      using True no plain assms(1) by (simp add: layout_inv_def emit_token_def push_out_def nest_append)
    then show ?thesis using st' st0 by auto
  next
    case False
    show ?thesis
    proof (cases "is_opener (tk_kind t)")
      case True
      then have "layout_inv (emit_token t s) (Bracket # st)"
        using False plain assms(1) by (simp add: layout_inv_def emit_token_def push_out_def nest_append)
      then show ?thesis using assms(3) True plain by auto
    next
      case no: False
      then have "layout_inv (emit_token t s) st"
        using False plain assms(1) by (simp add: layout_inv_def emit_token_def push_out_def nest_append)
      then show ?thesis using assms(3) False no plain by auto
    qed
  qed
qed

lemma colon_no_bracket: "tk_kind t = TColon \<Longrightarrow> nest st [t] = Some st"
  by (simp add: is_opener_def is_closer_def)

lemma emit_tokens_inv:
  assumes "layout_inv s st" "list_all source_token ts" "nest (brackets st) ts = Some st0"
  shows "\<exists>st'. layout_inv (emit_tokens indent ts s) st' \<and> brackets st' = st0"
  using assms
proof (induction ts arbitrary: s st)
  case (Cons t ts)
  show ?case
  proof (cases "ts = [] \<and> tk_kind t = TColon")
    case True
    then have "st0 = brackets st" using Cons.prems(3) colon_no_bracket[of t "brackets st"] by simp
    then show ?thesis using True Cons.prems(1) by (auto simp: layout_inv_def)
  next
    case False
    from Cons.prems(3) obtain mid where mid: "nest (brackets st) [t] = Some mid" "nest mid ts = Some st0"
      using nest_append[of "brackets st" "[t]" ts] by (auto split: option.splits)
    obtain st1 where "layout_inv (emit_token t s) st1" "brackets st1 = mid"
      using emit_token_inv[OF Cons.prems(1) _ mid(1)] Cons.prems(2) by auto
    with Cons.IH[of "emit_token t s" st1] Cons.prems(2) mid(2) False show ?thesis by auto
  qed
qed auto

lemma open_pending_inv:
  assumes "layout_inv s st"
  shows "\<exists>st'. layout_inv (open_pending line s) st' \<and> brackets st' = brackets st \<and> ly_bdepth (open_pending line s) = ly_bdepth s"
proof (cases "ly_pending s")
  case None
  then show ?thesis using assms by (auto simp: open_pending_def Let_def)
next
  case (Some h)
  let ?here = "hd (ll_toks line)"
  note opened = virtual_open[of st ?here] and closed = virtual_close[of st ?here]
  show ?thesis
  proof (cases "h < ll_indent line")
    case True
    then have "layout_inv (open_pending line s) (Block # st)"
      using assms Some opened by (simp add: layout_inv_def open_pending_def push_out_def nest_append Let_def)
    then show ?thesis using True Some by (auto simp: open_pending_def push_out_def Let_def)
  next
    case False
    then have "layout_inv (open_pending line s) st"
      using assms Some opened closed by (simp add: layout_inv_def open_pending_def push_out_def nest_append Let_def)
    then show ?thesis using False Some by (auto simp: open_pending_def push_out_def Let_def)
  qed
qed

lemma layout_line_inv:
  assumes "layout_inv s st" "list_all source_token (ll_toks line)" "ll_bdepth_start line = int (length (brackets st))"
    "nest (brackets st) (ll_toks line) = Some st0"
  shows "\<exists>st'. layout_inv (layout_line line s) st' \<and> brackets st' = st0"
proof -
  obtain st1 where 1: "layout_inv (open_pending line s) st1" "brackets st1 = brackets st" using open_pending_inv[OF assms(1)] by blast
  then have "ll_bdepth_start line = ly_bdepth (open_pending line s)" using assms(3) by (simp add: layout_inv_def)
  then obtain st2 where 2: "layout_inv (close_dedent line (open_pending line s)) st2" "brackets st2 = brackets st1"
    using close_dedent_inv[OF 1(1)] by blast
  obtain st3 where "layout_inv (emit_tokens (ll_indent line) (ll_toks line) (close_dedent line (open_pending line s))) st3" "brackets st3 = st0"
    using emit_tokens_inv[OF 2(1) assms(2)] assms(4) 1(2) 2(2) by auto
  then show ?thesis by (auto simp: layout_line_def Let_def layout_inv_def)
qed

text \<open>The bracket depth noted for each line is the one its tokens start at.\<close>

fun depths_ok :: "opened list \<Rightarrow> LayoutLine list \<Rightarrow> opened list option" where
  "depths_ok st [] = Some st"
| "depths_ok st (l # ls) =
     (if ll_bdepth_start l = int (length st) then (case nest st (ll_toks l) of Some st' \<Rightarrow> depths_ok st' ls | None \<Rightarrow> None) else None)"

lemma depths_append: "depths_ok st (xs @ ys) = (case depths_ok st xs of None \<Rightarrow> None | Some st' \<Rightarrow> depths_ok st' ys)"
  by (induction st xs rule: depths_ok.induct) (auto split: option.splits)

lemma nest_brackets: "nest st [t] = Some st' \<Longrightarrow> \<not> is_virtual t \<Longrightarrow> int (length st') = depth_after (tk_kind t) (int (length st))"
  by (auto simp: depth_after_def is_virtual_def is_opener_def is_closer_def split: if_splits list.splits)

lemma depths_add:
  assumes "depths_ok [] lines = Some st" "nest st [t] = Some st'" "lines = [] \<or> ll_toks (last lines) \<noteq> []"
  shows "depths_ok [] (add_to_lines t (int (length st)) prev lines) = Some st'"
proof (cases "lines = [] \<or> tk_line t \<noteq> prev")
  case True
  then show ?thesis using assms(1,2) by (simp add: add_to_lines_def depths_append)
next
  case False
  then obtain ls l where lines: "lines = ls @ [l]" by (cases lines rule: rev_cases) auto
  with assms(1) obtain st1 where "depths_ok [] ls = Some st1" "ll_bdepth_start l = int (length st1)" "nest st1 (ll_toks l) = Some st"
    by (auto simp: depths_append split: option.splits if_splits)
  then show ?thesis using False assms(2) by (simp add: add_to_lines_def lines depths_append nest_append)
qed

lemma group_lines_depths:
  assumes "list_all source_token ts" "tk_kind eof = TEof" "depths_ok [] lines = Some st" "nest st ts = Some st'"
    "lines = [] \<or> group_inv lines prev"
  shows "depths_ok [] (fst (group_lines (ts @ [eof]) lines (int (length st)) prev)) = Some st'"
  using assms
proof (induction ts arbitrary: lines st prev)
  case (Cons t ts)
  from Cons.prems(4) obtain mid where mid: "nest st [t] = Some mid" "nest mid ts = Some st'"
    using nest_append[of st "[t]" ts] by (auto split: option.splits)
  have src: "tk_kind t \<noteq> TEof" "\<not> is_virtual t" "list_all source_token ts" using Cons.prems(1) by (simp_all add: source_token_def[of t])
  have "depths_ok [] (add_to_lines t (int (length st)) prev lines) = Some mid"
    using depths_add[OF Cons.prems(3) mid(1)] Cons.prems(5) by (auto simp: group_inv_def)
  from Cons.IH[OF src(3) Cons.prems(2) this mid(2)] group_inv_step[OF Cons.prems(5)] show ?case
    using src nest_brackets[OF mid(1)] by simp
qed simp

lemma layout_lines_inv:
  assumes "layout_inv s st" "depths_ok (brackets st) ls = Some st0" "\<And>l. l \<in> set ls \<Longrightarrow> list_all source_token (ll_toks l)"
  shows "\<exists>st'. layout_inv (fold layout_line ls s) st' \<and> brackets st' = st0"
  using assms
proof (induction ls arbitrary: s st)
  case (Cons l ls)
  then obtain mid where mid: "nest (brackets st) (ll_toks l) = Some mid" "depths_ok mid ls = Some st0" "ll_bdepth_start l = int (length (brackets st))"
    by (auto split: if_splits option.splits)
  from layout_line_inv[OF Cons.prems(1) _ mid(3,1)] Cons.prems(3) obtain st1 where "layout_inv (layout_line l s) st1" "brackets st1 = mid" by auto
  with Cons.IH[of "layout_line l s" st1] mid(2) Cons.prems(3) show ?case by simp
qed auto

lemma close_all_nest: "nest [] out = Some st \<Longrightarrow> brackets st = [] \<Longrightarrow> length st = length stack \<Longrightarrow> nest [] (close_all eof stack out) = Some []"
proof (induction eof stack out arbitrary: st rule: close_all.induct)
  case (2 eof h stack out)
  then obtain st' where st: "st = Block # st'" by (cases st; cases "hd st") auto
  from 2 virtual_close[of st'] show ?case by (simp add: st nest_append)
qed simp

lemma only_blocks: "brackets st = [] \<Longrightarrow> length (block_depths st) = length st"
  by (induction st rule: block_depths.induct) auto

lemma finish_layout_nest:
  assumes "layout_inv s st" "brackets st = []" "tk_kind eof = TEof"
  shows "nest [] (finish_layout eof s) = Some []"
proof -
  let ?near = "near_last (ly_out s) eof"
  have "nest [] (ly_out s @ [vtok TLBrace ?near, vtok TRBrace ?near]) = Some st"
    using assms(1) virtual_open[of st ?near] virtual_close[of st ?near] nest_append[of "Block # st"] nest_append[of st "[vtok TLBrace ?near]" "[vtok TRBrace ?near]"]
    by (simp add: layout_inv_def nest_append del: nest.simps)
  then have "nest [] (if ly_pending s \<noteq> None then ly_out s @ [vtok TLBrace ?near, vtok TRBrace ?near] else ly_out s) = Some st"
    using assms(1) by (simp add: layout_inv_def)
  from close_all_nest[OF this assms(2), of "ly_stack s" eof] only_blocks[OF assms(2)] assms(1,3) show ?thesis
    by (simp add: finish_layout_def Let_def nest_append layout_inv_def is_opener_def is_closer_def)
qed

lemma apply_layout_eof:
  assumes "list_all source_token body" "tk_kind eof = TEof"
  shows "apply_layout (body @ [eof]) = finish_layout eof (fold layout_line (fst (group_lines (body @ [eof]) [] 0 0)) layout_start)"
  using group_lines_eof[OF assms, of "[]" 0 0]
  by (cases "group_lines (body @ [eof]) [] 0 0") (simp add: apply_layout_def Let_def)

section \<open>The recursive reading of indentation\<close>

text \<open>
  Without brackets, the blocks are those a reader sees: a header line owns the lines after it that are indented
  more than it is, up to the first one that is not.
\<close>

definition is_header :: "LayoutLine \<Rightarrow> bool" where
  "is_header l \<longleftrightarrow> ll_toks l \<noteq> [] \<and> tk_kind (last (ll_toks l)) \<in> {TColon, TRArrow}"

function indented_blocks :: "LayoutLine list \<Rightarrow> Tok list" where
  "indented_blocks [] = []"
| "indented_blocks (l # ls) =
     map tk_kind (line_body l) @
     (if is_header l then
        TLBrace # indented_blocks (takeWhile (\<lambda>m. ll_indent l < ll_indent m) ls)
          @ TRBrace # indented_blocks (dropWhile (\<lambda>m. ll_indent l < ll_indent m) ls)
      else indented_blocks ls)"
  by pat_completeness auto
termination
  by (relation "measure length") (auto simp: le_imp_less_Suc length_takeWhile_le length_dropWhile_le)

text \<open>What is still to come when the blocks of the headers in \<open>stack\<close> are open.\<close>

fun blocks_left :: "nat list \<Rightarrow> LayoutLine list \<Rightarrow> Tok list" where
  "blocks_left [] ls = indented_blocks ls"
| "blocks_left (h # stack) ls =
     indented_blocks (takeWhile (\<lambda>m. h < ll_indent m) ls) @ TRBrace # blocks_left stack (dropWhile (\<lambda>m. h < ll_indent m) ls)"

definition pending_left :: "nat option \<Rightarrow> nat list \<Rightarrow> LayoutLine list \<Rightarrow> Tok list" where
  "pending_left pending stack ls = (case pending of None \<Rightarrow> blocks_left stack ls | Some h \<Rightarrow> TLBrace # blocks_left (h # stack) ls)"

definition bracket_free :: "Token \<Rightarrow> bool" where
  "bracket_free t \<longleftrightarrow> \<not> is_opener (tk_kind t) \<and> \<not> is_closer (tk_kind t)"

definition flat :: "LayoutState \<Rightarrow> bool" where
  "flat s \<longleftrightarrow> ly_bdepth s = 0 \<and> ly_block_bd s = map (\<lambda>_. 0) (ly_stack s)"

lemma close_block_flat:
  "flat s \<Longrightarrow> flat (close_block t s) \<and> map tk_kind (ly_out (close_block t s)) = map tk_kind (ly_out s) @ [TRBrace]
     \<and> ly_stack (close_block t s) = tl (ly_stack s) \<and> ly_pending (close_block t s) = ly_pending s"
  by (simp add: flat_def close_block_def push_out_def map_tl)

lemma close_dedent_flat:
  assumes "flat s" "ll_bdepth_start l = 0"
  shows "flat (close_dedent l s) \<and> ly_pending (close_dedent l s) = ly_pending s
    \<and> (case ly_stack (close_dedent l s) of h # _ \<Rightarrow> h < ll_indent l | [] \<Rightarrow> True)
    \<and> map tk_kind (ly_out (close_dedent l s)) @ blocks_left (ly_stack (close_dedent l s)) (l # ls) =
        map tk_kind (ly_out s) @ blocks_left (ly_stack s) (l # ls)"
  using assms
proof (induction l s rule: close_dedent.induct)
  case (1 l s)
  show ?case
  proof (cases "case ly_stack s of h # _ \<Rightarrow> ll_indent l \<le> h | [] \<Rightarrow> False")
    case True
    then obtain h stack where stack: "ly_stack s = h # stack" "ll_indent l \<le> h" by (auto split: list.splits)
    have cond: "(case ly_stack s of h # _ \<Rightarrow> ll_indent l \<le> h | [] \<Rightarrow> False)
        \<and> (case ly_block_bd s of bd # _ \<Rightarrow> ll_bdepth_start l \<le> bd | [] \<Rightarrow> False)"
      using True "1.prems" stack by (simp add: flat_def)
    have step: "close_dedent l s = close_dedent l (close_block (hd (ll_toks l)) s)" using cond by (subst close_dedent.simps) simp
    from close_block_flat[OF "1.prems"(1), of "hd (ll_toks l)"] "1.IH"[OF cond _ "1.prems"(2)] stack show ?thesis
      by (simp add: step)
  next
    case False
    then have "close_dedent l s = s" by (subst close_dedent.simps) auto
    with False "1.prems" show ?thesis by (auto split: list.splits)
  qed
qed

lemma open_pending_flat:
  assumes "flat s"
  shows "flat (open_pending l s) \<and> ly_pending (open_pending l s) = None
    \<and> map tk_kind (ly_out (open_pending l s)) @ blocks_left (ly_stack (open_pending l s)) (l # ls) =
      map tk_kind (ly_out s) @ pending_left (ly_pending s) (ly_stack s) (l # ls)"
  using assms by (auto simp: open_pending_def flat_def push_out_def pending_left_def Let_def split: option.splits)

lemma emit_tokens_flat:
  "flat s \<Longrightarrow> list_all bracket_free ts \<Longrightarrow> flat (emit_tokens i ts s) \<and> ly_stack (emit_tokens i ts s) = ly_stack s
    \<and> ly_pending (emit_tokens i ts s) = (if ts \<noteq> [] \<and> tk_kind (last ts) = TColon then Some i else ly_pending s)
    \<and> ly_out (emit_tokens i ts s) = ly_out s @ (if ts \<noteq> [] \<and> tk_kind (last ts) = TColon then butlast ts else ts)"
  by (induction i ts s rule: emit_tokens.induct) (auto simp: emit_token_def bracket_free_def push_out_def flat_def)

text \<open>The block of a header inside an open block ends no later than the open block.\<close>

lemma takeWhile_nested: "h < (i :: nat) \<Longrightarrow> takeWhile (\<lambda>m. i < f m) (takeWhile (\<lambda>m. h < f m) ls) = takeWhile (\<lambda>m. i < f m) ls"
  "h < i \<Longrightarrow> dropWhile (\<lambda>m. i < f m) (takeWhile (\<lambda>m. h < f m) ls) = takeWhile (\<lambda>m. h < f m) (dropWhile (\<lambda>m. i < f m) ls)"
  "h < i \<Longrightarrow> dropWhile (\<lambda>m. h < f m) (dropWhile (\<lambda>m. i < f m) ls) = dropWhile (\<lambda>m. h < f m) ls"
  by (induction ls) auto

lemma blocks_left_line:
  assumes "case stack of h # _ \<Rightarrow> h < ll_indent l | [] \<Rightarrow> True"
  shows "blocks_left stack (l # ls) = map tk_kind (line_body l) @ pending_left (if is_header l then Some (ll_indent l) else None) stack ls"
  using assms by (cases stack) (auto simp: pending_left_def takeWhile_nested)

lemma layout_line_flat:
  assumes "flat s" "ll_bdepth_start l = 0" "list_all bracket_free (ll_toks l)"
  shows "flat (layout_line l s) \<and> map tk_kind (ly_out (layout_line l s)) @ pending_left (ly_pending (layout_line l s)) (ly_stack (layout_line l s)) ls =
    map tk_kind (ly_out s) @ pending_left (ly_pending s) (ly_stack s) (l # ls)"
proof -
  let ?s1 = "open_pending l s" and ?s2 = "close_dedent l (open_pending l s)"
  note 1 = open_pending_flat[OF assms(1), of l ls]
  note 2 = close_dedent_flat[OF conjunct1[OF 1] assms(2), of ls]
  note 3 = emit_tokens_flat[OF conjunct1[OF 2] assms(3), of "ll_indent l"]
  have "ly_pending (layout_line l s) = (if is_header l then Some (ll_indent l) else None)"
    "ly_stack (layout_line l s) = ly_stack ?s2" "ly_out (layout_line l s) = ly_out ?s2 @ line_body l" "flat (layout_line l s)"
    using 1 2 3 by (auto simp: layout_line_def Let_def is_header_def ends_with_arrow_def line_body_def flat_def)
  then show ?thesis using 1 2 blocks_left_line[of l "ly_stack ?s2" ls] by simp
qed

lemma layout_lines_flat:
  assumes "flat s" "\<And>l. l \<in> set ls \<Longrightarrow> ll_bdepth_start l = 0 \<and> list_all bracket_free (ll_toks l)"
  shows "flat (fold layout_line ls s) \<and> map tk_kind (ly_out (fold layout_line ls s)) @ pending_left (ly_pending (fold layout_line ls s)) (ly_stack (fold layout_line ls s)) [] =
    map tk_kind (ly_out s) @ pending_left (ly_pending s) (ly_stack s) ls"
  using assms
proof (induction ls arbitrary: s)
  case (Cons l ls)
  then show ?case using layout_line_flat[of s l ls] by simp
qed simp

lemma blocks_left_Nil [simp]: "blocks_left stack [] = map (\<lambda>_. TRBrace) stack"
  by (induction stack) auto

lemma close_all_kinds: "map tk_kind (close_all eof stack out) = map tk_kind out @ map (\<lambda>_. TRBrace) stack"
  by (induction eof stack out rule: close_all.induct) auto

lemma finish_layout_kinds:
  "map tk_kind (finish_layout eof s) = map tk_kind (ly_out s) @ pending_left (ly_pending s) (ly_stack s) [] @ [tk_kind eof]"
  by (auto simp: finish_layout_def Let_def close_all_kinds pending_left_def split: option.splits)

lemma group_lines_flat:
  "list_all bracket_free ts \<Longrightarrow> tk_kind eof = TEof \<Longrightarrow> (\<And>l. l \<in> set lines \<Longrightarrow> ll_bdepth_start l = 0) \<Longrightarrow>
   l \<in> set (fst (group_lines (ts @ [eof]) lines 0 prev)) \<Longrightarrow> ll_bdepth_start l = 0"
proof (induction ts arbitrary: lines prev)
  case (Cons t ts)
  have "ll_bdepth_start m = 0" if "m \<in> set (add_to_lines t 0 prev lines)" for m
    using that Cons.prems(3) by (auto simp: add_to_lines_def split: if_splits dest: in_set_butlastD)
  moreover have "depth_after (tk_kind t) 0 = 0" using Cons.prems(1) by (simp add: depth_after_def bracket_free_def)
  ultimately show ?case using Cons by (auto split: if_splits)
qed (auto split: if_splits)

section \<open>Properties\<close>

lemma tokenize_source: "tokenize src = Ok ts \<Longrightarrow> \<exists>body eof. ts = body @ [eof] \<and> list_all source_token body \<and> tk_kind eof = TEof"
  using tokenize_ok[of src] by (fastforce simp: token_ok_def source_token_def is_virtual_def list_all_iff token_point_def)

definition on_line :: "nat \<Rightarrow> (Tok \<times> nat \<times> nat) list \<Rightarrow> Token list" where
  "on_line l = map (\<lambda>(k, a, b). \<lparr>tk_kind = k, tk_line = l, tk_col = a, tk_end_line = l, tk_end_col = b\<rparr>)"

text \<open>
  C19: The layout pass invents and loses nothing: of any source that lexes, the tokens that remain when the
  virtual braces are taken out of the result are the source tokens, in order, without the colons that end a
  line.
\<close>

theorem layout_keeps_tokens:
  assumes "tokenize src = Ok ts"
  shows "real_tokens (apply_layout ts) = strip_headers (butlast ts) @ [last ts]"
proof -
  obtain body eof where ts: "ts = body @ [eof]" "list_all source_token body" "tk_kind eof = TEof" using tokenize_source[OF assms] by blast
  let ?lines = "fst (group_lines (body @ [eof]) [] 0 0)"
  have "list_all source_token (ll_toks l)" if "l \<in> set ?lines" for l
    using group_lines_all[OF ts(3,2) _ that] by simp
  then have "real_tokens (ly_out (fold layout_line ?lines layout_start)) = strip_headers body"
    using layout_lines_real[of ?lines layout_start] group_lines_body[OF ts(2,3)] by (simp add: layout_start_def)
  then show ?thesis by (simp add: ts(1) apply_layout_eof[OF ts(2,3)] finish_layout_real[OF ts(3)])
qed

theorem layout_keeps_tokens_witness:
  "\<exists>ts. tokenize (ucs ''if x:'' @ [10] @ ucs ''  y'') = Ok ts \<and> real_tokens (apply_layout ts) = strip_headers (butlast ts) @ [last ts]
     \<and> map tk_kind (apply_layout ts) = [TIf, TIdent (ucs ''x''), TLBrace, TIdent (ucs ''y''), TRBrace, TEof]"
proof -
  let ?ts = "on_line 1 [(TIf, 1, 3), (TIdent (ucs ''x''), 4, 5), (TColon, 5, 6)] @ on_line 2 [(TIdent (ucs ''y''), 3, 4), (TEof, 4, 4)]"
  have ts: "tokenize (ucs ''if x:'' @ [10] @ ucs ''  y'') = Ok (?ts)" by code_simp+
  have out: "map tk_kind (apply_layout (?ts)) = [TIf, TIdent (ucs ''x''), TLBrace, TIdent (ucs ''y''), TRBrace, TEof]" by code_simp
  show ?thesis by (intro exI conjI, rule ts(1), rule layout_keeps_tokens[OF ts], rule out)
qed

text \<open>
  C4: Blocks and brackets nest: when the brackets of a source that lexes are balanced, the result of the layout
  pass is balanced with the virtual braces told apart from the brackets, so every virtual block opens and
  closes within one bracket level and no bracket pairs with a virtual brace.
\<close>

theorem layout_nests:
  assumes "tokenize src = Ok ts" "nest [] ts = Some []"
  shows "nest [] (apply_layout ts) = Some []"
proof -
  obtain body eof where ts: "ts = body @ [eof]" "list_all source_token body" "tk_kind eof = TEof" using tokenize_source[OF assms(1)] by blast
  let ?lines = "fst (group_lines (body @ [eof]) [] 0 0)"
  have "nest [] body = Some []" using assms(2) ts(3) by (auto simp: ts(1) nest_append is_opener_def is_closer_def split: option.splits)
  then have depths: "depths_ok [] ?lines = Some []" using group_lines_depths[OF ts(2,3), of "[]" "[]"] by simp
  have "list_all source_token (ll_toks l)" if "l \<in> set ?lines" for l using group_lines_all[OF ts(3,2) _ that] by simp
  moreover have "layout_inv layout_start []" by (simp add: layout_inv_def layout_start_def)
  ultimately obtain st where "layout_inv (fold layout_line ?lines layout_start) st" "brackets st = []"
    using layout_lines_inv[of layout_start "[]" ?lines] depths by auto
  from finish_layout_nest[OF this ts(3)] show ?thesis by (simp add: ts(1) apply_layout_eof[OF ts(2,3)])
qed

theorem layout_nests_witness:
  "\<exists>ts. tokenize (ucs ''f(fn(c):'' @ [10] @ ucs ''  c)'') = Ok ts \<and> nest [] (apply_layout ts) = Some []
     \<and> map tk_kind (apply_layout ts) = [TIdent (ucs ''f''), TLParen, TFn, TLParen, TIdent (ucs ''c''), TRParen, TLBrace, TIdent (ucs ''c''), TRBrace, TRParen, TEof]"
proof -
  let ?ts = "on_line 1 [(TIdent (ucs ''f''), 1, 2), (TLParen, 2, 3), (TFn, 3, 5), (TLParen, 5, 6), (TIdent (ucs ''c''), 6, 7), (TRParen, 7, 8), (TColon, 8, 9)] @ on_line 2 [(TIdent (ucs ''c''), 3, 4), (TRParen, 4, 5), (TEof, 5, 5)]"
  have ts: "tokenize (ucs ''f(fn(c):'' @ [10] @ ucs ''  c)'') = Ok (?ts)" "nest [] (?ts) = Some []" by code_simp+
  have out: "map tk_kind (apply_layout (?ts)) = [TIdent (ucs ''f''), TLParen, TFn, TLParen, TIdent (ucs ''c''), TRParen, TLBrace, TIdent (ucs ''c''), TRBrace, TRParen, TEof]" by code_simp
  show ?thesis by (intro exI conjI, rule ts(1), rule layout_nests[OF ts], rule out)
qed

text \<open>
  C18: For source without brackets the pass computes the recursive reading of indentation: after a line that
  ends in a colon or an arrow, a block with exactly the following lines that are indented more, each read the
  same way.
\<close>

theorem layout_is_indentation:
  assumes "tokenize src = Ok ts" "list_all bracket_free (butlast ts)"
  shows "map tk_kind (apply_layout ts) = indented_blocks (fst (group_lines ts [] 0 0)) @ [TEof]"
proof -
  obtain body eof where ts: "ts = body @ [eof]" "list_all source_token body" "tk_kind eof = TEof" using tokenize_source[OF assms(1)] by blast
  let ?lines = "fst (group_lines (body @ [eof]) [] 0 0)"
  have free: "list_all bracket_free body" using assms(2) ts(1) by simp
  have "ll_bdepth_start l = 0 \<and> list_all bracket_free (ll_toks l)" if "l \<in> set ?lines" for l
    using group_lines_flat[OF free ts(3) _ that] group_lines_all[OF ts(3) free _ that] by simp
  from layout_lines_flat[OF _ this, of layout_start]
  show ?thesis
    by (simp add: ts(1) apply_layout_eof[OF ts(2,3)] finish_layout_kinds ts(3) flat_def layout_start_def pending_left_def)
qed

theorem layout_is_indentation_witness:
  "\<exists>ts. tokenize (ucs ''a:'' @ [10] @ ucs '' b'' @ [10] @ ucs ''c'') = Ok ts \<and> map tk_kind (apply_layout ts) = indented_blocks (fst (group_lines ts [] 0 0)) @ [TEof]
     \<and> map tk_kind (apply_layout ts) = [TIdent (ucs ''a''), TLBrace, TIdent (ucs ''b''), TRBrace, TIdent (ucs ''c''), TEof]"
proof -
  let ?ts = "on_line 1 [(TIdent (ucs ''a''), 1, 2), (TColon, 2, 3)] @ on_line 2 [(TIdent (ucs ''b''), 2, 3)] @ on_line 3 [(TIdent (ucs ''c''), 1, 2), (TEof, 2, 2)]"
  have ts: "tokenize (ucs ''a:'' @ [10] @ ucs '' b'' @ [10] @ ucs ''c'') = Ok (?ts)" "list_all bracket_free (butlast (?ts))" by code_simp+
  have out: "map tk_kind (apply_layout (?ts)) = [TIdent (ucs ''a''), TLBrace, TIdent (ucs ''b''), TRBrace, TIdent (ucs ''c''), TEof]" by code_simp
  show ?thesis by (intro exI conjI, rule ts(1), rule layout_is_indentation[OF ts], rule out)
qed

end
