(* ===== verification/Literal_Roundtrip.thy ===== *)
theory Literal_Roundtrip
  imports Tokenize
begin

text \<open>
  The literal printers of the formatter (crates/witchy-syntax/src/format.rs) and the lexer: strings, tagged
  literals and durations print to source that lexes back to the same token. The formatter relies on this when
  it rewrites a file.
\<close>

section \<open>Printers\<close>

definition escape_char :: "nat \<Rightarrow> nat list" where
  "escape_char c =
     (if c = 34 then [92, 34] else if c = 92 then [92, 92] else if c = 10 then [92, 110] else if c = 9 then [92, 116]
      else if c = 13 then [92, 114] else if c = 0 then [92, 48] else [c])"

definition escape_dollar :: "nat \<Rightarrow> nat list" where
  "escape_dollar c = (if c = 36 then [92, 36] else escape_char c)"

definition interp_segment :: "nat list \<Rightarrow> nat list" where
  "interp_segment v = concat (map escape_dollar v)"

definition string_lit :: "nat list \<Rightarrow> nat list" where
  "string_lit v = 34 # concat (map escape_dollar v) @ [34]"

text \<open>In a tagged literal a dollar is escaped only where it would open a hole.\<close>

fun tagged_part :: "nat list \<Rightarrow> nat list" where
  "tagged_part [] = []"
| "tagged_part (c # cs) =
     (if c = 36 \<and> (case cs of d # _ \<Rightarrow> d = 123 | [] \<Rightarrow> False) then [92, 36] else escape_char c) @ tagged_part cs"

text \<open>The parts with the printed holes between them; \<open>holes.get(i)\<close> is absent past the last hole.\<close>

fun tagged_body :: "nat list list \<Rightarrow> nat list list \<Rightarrow> nat list" where
  "tagged_body [] holes = []"
| "tagged_body (part # parts) [] = tagged_part part @ tagged_body parts []"
| "tagged_body (part # parts) (hole # holes) = tagged_part part @ [36, 123] @ hole @ [125] @ tagged_body parts holes"

definition tagged_lit :: "nat list \<Rightarrow> nat list list \<Rightarrow> nat list list \<Rightarrow> nat list" where
  "tagged_lit tag parts holes = tag @ [34] @ tagged_body parts holes @ [34]"





section \<open>Reading from the rest of the text\<close>

definition lx_rest :: "Lexer \<Rightarrow> nat list" where
  "lx_rest L = drop (lx_pos L) (lx_chars L)"

lemma char_at_rest: "char_at L i = (case drop i (lx_chars L) of [] \<Rightarrow> None | c # _ \<Rightarrow> Some c)"
proof (cases "i < length (lx_chars L)")
  case True
  then have "drop i (lx_chars L) = lx_chars L ! i # drop (Suc i) (lx_chars L)" by (rule Cons_nth_drop_Suc[symmetric])
  with True show ?thesis by (simp add: char_at_def)
qed (simp add: char_at_def)

lemma peek_rest: "lx_peek L = (case lx_rest L of [] \<Rightarrow> None | c # _ \<Rightarrow> Some c)"
  by (simp add: lx_peek_def lx_rest_def char_at_rest)

lemma peek2_rest: "lx_peek2 L = (case lx_rest L of _ # d # _ \<Rightarrow> Some d | _ \<Rightarrow> None)"
proof -
  have "drop (lx_pos L + 1) (lx_chars L) = tl (lx_rest L)" by (simp add: lx_rest_def drop_Suc tl_drop)
  then show ?thesis by (cases "lx_rest L") (auto simp: lx_peek2_def char_at_rest split: list.splits)
qed

lemma bump_rest: "lx_rest L = c # cs \<Longrightarrow> \<exists>L'. bump L = (Some c, L') \<and> lx_rest L' = cs"
proof -
  assume r: "lx_rest L = c # cs"
  have "drop (Suc (lx_pos L)) (lx_chars L) = cs" using r by (simp add: lx_rest_def drop_Suc tl_drop[symmetric])
  then show ?thesis using r by (auto simp: bump_def peek_rest lx_rest_def)
qed

lemma skip_rest: "lx_rest L = c # cs \<Longrightarrow> lx_rest (lx_skip L) = cs"
  using bump_rest[of L c cs] by (auto simp: lx_skip_def)


lemma new_rest [simp]: "lx_rest (Lexer_new src) = src"
  by (simp add: lx_rest_def Lexer_new_def)

lemma scan_run_rest:
  "lx_rest L = xs @ ys \<Longrightarrow> list_all accept xs \<Longrightarrow> ys = [] \<or> \<not> accept (hd ys) \<Longrightarrow>
   \<exists>L'. scan_run accept keep L = (filter keep xs, L') \<and> lx_rest L' = ys"
proof (induction xs arbitrary: L)
  case Nil
  then show ?case by (subst scan_run.simps) (cases ys; auto simp: peek_rest)
next
  case (Cons x xs)
  then have "lx_rest (lx_skip L) = xs @ ys" by (simp add: skip_rest)
  with Cons obtain L' where "scan_run accept keep (lx_skip L) = (filter keep xs, L')" "lx_rest L' = ys" by auto
  with Cons.prems show ?case by (subst scan_run.simps) (simp add: peek_rest)
qed

section \<open>Strings\<close>

lemma escape_value_char: "escape_char c = [92, d] \<Longrightarrow> escape_value d = Some c"
  by (auto simp: escape_char_def escape_value_def split: if_splits)

lemma escape_char_cases: "escape_char c = [c] \<and> c \<noteq> 34 \<and> c \<noteq> 92 \<or> (\<exists>d. escape_char c = [92, d] \<and> escape_value d = Some c)"
  by (auto simp: escape_char_def escape_value_def)

lemma escape_dollar_cases: "escape_dollar c = [c] \<and> c \<notin> {34, 92, 36} \<or> (\<exists>d. escape_dollar c = [92, d] \<and> escape_value d = Some c)"
  using escape_char_cases[of c] by (auto simp: escape_dollar_def escape_value_def)

lemma read_escape_rest: "lx_rest L = d # cs \<Longrightarrow> escape_value d = Some c \<Longrightarrow> \<exists>L'. read_escape what L = (Ok c, L') \<and> lx_rest L' = cs"
  using bump_rest[of L d cs] by (auto simp: read_escape_def)

lemma string_loop_rest:
  "lx_rest L = interp_segment v @ 34 # rest \<Longrightarrow>
   \<exists>L'. string_loop inner False line col (str, [], False, L) = (Ok [token_point (TStr (str @ v)) line col], L') \<and> lx_rest L' = rest"
proof (induction v arbitrary: L str)
  case Nil
  then have "lx_rest L = 34 # rest" by (simp add: interp_segment_def)
  with bump_rest[OF this] show ?case by (subst string_loop.simps) (auto simp: string_turn_def)
next
  case (Cons c v)
  let ?more = "interp_segment v @ 34 # rest"
  from Cons.prems have r: "lx_rest L = escape_dollar c @ ?more" by (simp add: interp_segment_def)
  consider "escape_dollar c = [c]" "c \<notin> {34, 92, 36}" | d where "escape_dollar c = [92, d]" "escape_value d = Some c"
    using escape_dollar_cases[of c] by blast
  then obtain L1 where L1: "string_turn inner False line col (str, [], False, L) = Go (str @ [c], [], False, L1)" "lx_rest L1 = ?more"
  proof cases
    case 1
    with r bump_rest[of L c ?more] that show ?thesis by (auto simp: string_turn_def)
  next
    case 2
    with r obtain L0 where b: "bump L = (Some 92, L0)" "lx_rest L0 = d # ?more" using bump_rest[of L 92 "d # ?more"] by auto
    from read_escape_rest[OF b(2) 2(2), of "''string literal''"] b(1) that show ?thesis by (auto simp: string_turn_def)
  qed
  from Cons.IH[OF L1(2), of "str @ [c]"] L1(1) show ?case by (subst string_loop.simps) simp
qed

section \<open>Whole sources of one literal\<close>

definition plain_start :: "nat \<Rightarrow> bool" where
  "plain_start c \<longleftrightarrow> \<not> is_whitespace c \<and> c \<noteq> 47"

lemma skip_trivia_plain: "lx_rest L = [] \<or> plain_start (hd (lx_rest L)) \<Longrightarrow> skip_trivia L = (Ok (), L)"
  by (subst skip_trivia.simps) (cases "lx_rest L"; auto simp: peek_rest plain_start_def is_whitespace_def)

lemma tokenize_last:
  assumes "lx_rest L = []"
  shows "\<exists>l c. tokenize_loop inner out L = (Ok (out @ [token_point TEof l c]), L)"
  using skip_trivia_plain[of L] assms by (subst tokenize_loop.simps) (auto simp: peek_rest)

lemma tokenize_turn:
  assumes "lx_rest L = c # cs" "plain_start c" "lex_step inner out (lx_pos L) c L = (Ok out', L')"
  shows "tokenize_loop inner out L = tokenize_loop inner out' L'"
  using skip_trivia_plain[of L] assms by (subst tokenize_loop.simps) (simp add: peek_rest)

lemma tokenize_single:
  assumes "src = c # cs" "plain_start c" "lex_step tokenize [] 0 c (Lexer_new src) = (Ok [t], L)" "lx_rest L = []"
  shows "map_sum id (map tk_kind) (tokenize src) = Ok [tk_kind t, TEof]"
proof -
  have "tokenize_loop tokenize [] (Lexer_new src) = tokenize_loop tokenize [t] L"
    by (rule tokenize_turn[of _ c cs]) (use assms in \<open>simp_all add: Lexer_new_def lx_rest_def\<close>)
  with tokenize_last[OF assms(4), of tokenize "[t]"] show ?thesis by (auto simp: tokenize_unfold token_point_def)
qed

section \<open>Durations\<close>











section \<open>Tagged literals\<close>

text \<open>
  The source text that can stand in a hole: braces balance outside string literals, string literals end, and
  outside of them no quote is escaped. The flag says that the text starts inside a string literal.
\<close>

fun hole_text :: "bool \<Rightarrow> nat \<Rightarrow> nat list \<Rightarrow> bool" where
  "hole_text quoted depth [] \<longleftrightarrow> \<not> quoted \<and> depth = 0"
| "hole_text True depth [c] \<longleftrightarrow> c = 34 \<and> depth = 0"
| "hole_text True depth (c # d # cs) \<longleftrightarrow>
     (if c = 92 then hole_text True depth cs else hole_text (c \<noteq> 34) depth (d # cs))"
| "hole_text False depth (c # cs) \<longleftrightarrow>
     (if c = 123 then hole_text False (Suc depth) cs
      else if c = 125 then (case depth of 0 \<Rightarrow> False | Suc k \<Rightarrow> hole_text False k cs)
      else if c = 34 then hole_text True depth cs
      else (c \<noteq> 92 \<or> cs = [] \<or> hd cs \<noteq> 34) \<and> hole_text False depth cs)"

lemma nested_string_rest:
  "hole_text q depth cs \<Longrightarrow> q \<Longrightarrow> lx_rest L = cs @ rest \<Longrightarrow>
   \<exists>a b L'. cs = a @ b \<and> a \<noteq> [] \<and> hole_text False depth b \<and> nested_string src L = (Ok (src @ a), L') \<and> lx_rest L' = b @ rest"
proof (induction q depth cs arbitrary: src L rule: hole_text.induct)
  case (2 depth c)
  then have "lx_rest L = 34 # rest" by simp
  from bump_rest[OF this] obtain L' where "bump L = (Some 34, L')" "lx_rest L' = rest" by auto
  with 2 show ?case by (intro exI[of _ "[34]"] exI[of _ "[]"] exI[of _ L']) (subst nested_string.simps, simp)
next
  case (3 depth c d cs)
  then have r: "lx_rest L = c # d # cs @ rest" by simp
  from bump_rest[OF r] obtain L1 where L1: "bump L = (Some c, L1)" "lx_rest L1 = d # cs @ rest" by auto
  from bump_rest[OF L1(2)] obtain L2 where L2: "bump L1 = (Some d, L2)" "lx_rest L2 = cs @ rest" by auto
  consider "c = 92" | "c = 34" | "c \<noteq> 92" "c \<noteq> 34" by blast
  then show ?case
  proof cases
    case 1
    with "3.prems"(1) have t: "hole_text True depth cs" by simp
    from "3.IH"(1)[OF 1 t TrueI L2(2), of "src @ [92, d]"] obtain a b L' where
      ab: "cs = a @ b" "hole_text False depth b" "nested_string (src @ [92, d]) L2 = (Ok (src @ [92, d] @ a), L')" "lx_rest L' = b @ rest"
      by auto
    then have "nested_string src L = (Ok (src @ [92, d] @ a), L')" using 1 L1(1) L2(1) by (subst nested_string.simps) simp
    with ab 1 show ?thesis by (intro exI[of _ "c # d # a"] exI[of _ b] exI[of _ L']) simp
  next
    case 2
    with "3.prems"(1) L1 show ?thesis
      by (intro exI[of _ "[c]"] exI[of _ "d # cs"] exI[of _ L1]) (subst nested_string.simps, simp)
  next
    case 3
    with "3.prems"(1) have t: "hole_text (c \<noteq> 34) depth (d # cs)" by simp
    from "3.IH"(2)[OF 3(1) t] 3(2) L1(2) obtain a b L' where
      ab: "d # cs = a @ b" "hole_text False depth b" "nested_string (src @ [c]) L1 = (Ok (src @ [c] @ a), L')" "lx_rest L' = b @ rest"
      by (metis append.assoc append_Cons)
    then have "nested_string src L = (Ok (src @ [c] @ a), L')" using 3 L1(1) by (subst nested_string.simps) simp
    with ab show ?thesis by (intro exI[of _ "c # a"] exI[of _ b] exI[of _ L']) simp
  qed
qed simp_all

lemma hole_source_rest:
  "hole_text False depth cs \<Longrightarrow> lx_rest L = cs @ 125 # rest \<Longrightarrow>
   \<exists>p L'. hole_source (Suc depth) src L = (Ok (src @ cs, p), L') \<and> lx_rest L' = rest"
proof (induction "length cs" arbitrary: cs depth src L rule: less_induct)
  case less
  show ?case
  proof (cases cs)
    case Nil
    with less.prems have "lx_rest L = 125 # rest" "depth = 0" by simp_all
    then show ?thesis using bump_rest[of L 125 rest] Nil by (subst hole_source.simps) auto
  next
    case (Cons c ds)
    with less.prems(2) have "lx_rest L = c # ds @ 125 # rest" by simp
    from bump_rest[OF this] obtain L1 where L1: "bump L = (Some c, L1)" "lx_rest L1 = ds @ 125 # rest" by auto
    have step: ?thesis if "hole_source (Suc depth) src L = hole_source (Suc k) (src @ a) L2" "cs = a @ b" "a \<noteq> []"
        "hole_text False k b" "lx_rest L2 = b @ 125 # rest" for k a b L2
      using less.hyps[OF _ that(4,5), of "src @ a"] that(1-3) by simp
    consider "c = 123" | "c = 125" | "c = 34" | "c \<notin> {123, 125, 34}" by blast
    then show ?thesis
    proof cases
      case 1
      with Cons L1 less.prems(1) show ?thesis
        by (intro step[of "Suc depth" "[c]" L1 ds]) (subst hole_source.simps, simp_all)
    next
      case 2
      with less.prems(1) Cons obtain k where k: "depth = Suc k" "hole_text False k ds" by (auto split: nat.splits)
      with 2 Cons L1 show ?thesis by (intro step[of k "[c]" L1 ds]) (subst hole_source.simps, simp_all)
    next
      case 3
      with less.prems(1) Cons have "hole_text True depth ds" by simp
      from nested_string_rest[OF this TrueI L1(2), of "src @ [34]"] obtain a b L2 where
        ab: "ds = a @ b" "hole_text False depth b" "nested_string (src @ [34]) L1 = (Ok ((src @ [34]) @ a), L2)" "lx_rest L2 = b @ 125 # rest"
        by blast
      with 3 Cons L1 show ?thesis by (intro step[of depth "c # a" L2 b]) (subst hole_source.simps, simp_all)
    next
      case 4
      with less.prems(1) Cons have t: "c \<noteq> 92 \<or> ds = [] \<or> hd ds \<noteq> 34" "hole_text False depth ds" by auto
      then have "\<not> (c = 92 \<and> lx_peek L1 = Some 34)" using L1(2) by (cases ds) (auto simp: peek_rest)
      with 4 t(2) Cons L1 show ?thesis by (intro step[of depth "[c]" L1 ds]) (subst hole_source.simps, auto)
    qed
  qed
qed

lemma interp_source_rest:
  assumes "hole_text False 0 hole" "lx_rest L = hole @ 125 # rest"
  shows "\<exists>sp L'. interp_source L = (Ok sp, L') \<and> is_src sp = hole \<and> lx_rest L' = rest"
  using hole_source_rest[OF assms, of "[]"] by (auto simp: interp_source_def)

lemma tagged_part_rest:
  "lx_rest L = tagged_part v @ rest \<Longrightarrow> rest \<noteq> [] \<Longrightarrow> hd rest \<noteq> 123 \<Longrightarrow>
   \<exists>L'. tag_loop (tp, seen, L) = tag_loop (tp, seen @ v, L') \<and> lx_rest L' = rest"
proof (induction v arbitrary: L seen)
  case (Cons c v)
  obtain p h sp where tp: "tp = (p, h, sp)" by (cases tp)
  let ?more = "tagged_part v @ rest"
  have "\<exists>L1. tag_turn (tp, seen, L) = Go (tp, seen @ [c], L1) \<and> lx_rest L1 = ?more"
  proof -
    have escaped: ?thesis if "lx_rest L = 92 # d # ?more" "escape_value d = Some c" for d
    proof -
      from bump_rest[OF that(1)] obtain L0 where b: "bump L = (Some 92, L0)" "lx_rest L0 = d # ?more" by auto
      from read_escape_rest[OF b(2) that(2), of "''tagged literal''"] b(1) show ?thesis by (auto simp: tag_turn_def tp)
    qed
    have plain: ?thesis if "lx_rest L = c # ?more" "c \<notin> {34, 92}" "c = 36 \<Longrightarrow> hd ?more \<noteq> 123"
    proof -
      from bump_rest[OF that(1)] obtain L0 where b: "bump L = (Some c, L0)" "lx_rest L0 = ?more" by auto
      with that(3) have "\<not> (c = 36 \<and> lx_peek L0 = Some 123)" by (auto simp: peek_rest split: list.splits)
      with b that(2) show ?thesis by (auto simp: tag_turn_def tp)
    qed
    show ?thesis
    proof (cases "c = 36 \<and> (case v of d # _ \<Rightarrow> d = 123 | [] \<Rightarrow> False)")
      case True
      with Cons.prems(1) show ?thesis by (intro escaped[of 36]) (auto simp: escape_value_def)
    next
      case False
      have "hd ?more \<noteq> 123" if "c = 36"
        using that False Cons.prems(2,3) by (cases v) (auto simp: escape_char_def)
      with False Cons.prems(1) escape_char_cases[of c] plain escaped show ?thesis by auto
    qed
  qed
  then obtain L1 where "tag_turn (tp, seen, L) = Go (tp, seen @ [c], L1)" "lx_rest L1 = ?more" by blast
  with Cons.IH[of L1 "seen @ [c]"] Cons.prems(2,3) show ?case by (subst tag_loop.simps) simp
qed auto

lemma tagged_body_rest:
  "length parts = Suc (length holes) \<Longrightarrow> list_all (hole_text False 0) holes \<Longrightarrow> lx_rest L = tagged_body parts holes @ 34 # rest \<Longrightarrow>
   \<exists>sp' L'. tag_loop ((p, h, sp), [], L) = (Ok (p @ parts, h @ holes, sp'), L') \<and> lx_rest L' = rest"
proof (induction holes arbitrary: parts p h sp L)
  case Nil
  then obtain v where v: "parts = [v]" by (cases parts) auto
  with Nil tagged_part_rest[of L v "34 # rest" "(p, h, sp)" "[]"] obtain L1 where
    L1: "tag_loop ((p, h, sp), [], L) = tag_loop ((p, h, sp), v, L1)" "lx_rest L1 = 34 # rest" by auto
  from bump_rest[OF L1(2)] L1(1) v show ?case by (subst (asm) (2) tag_loop.simps) (auto simp: tag_turn_def)
next
  case (Cons hole holes)
  then obtain v vs where v: "parts = v # vs" "length vs = Suc (length holes)" by (cases parts) auto
  let ?more = "tagged_body vs holes @ 34 # rest"
  from Cons.prems(3) v tagged_part_rest[of L v "36 # 123 # hole @ 125 # ?more" "(p, h, sp)" "[]"] obtain L1 where
    L1: "tag_loop ((p, h, sp), [], L) = tag_loop ((p, h, sp), v, L1)" "lx_rest L1 = 36 # 123 # hole @ 125 # ?more" by auto
  from bump_rest[OF L1(2)] obtain L2 where L2: "bump L1 = (Some 36, L2)" "lx_rest L2 = 123 # hole @ 125 # ?more" by auto
  obtain src L3 where L3: "interp_source (lx_skip L2) = (Ok src, L3)" "is_src src = hole" "lx_rest L3 = ?more"
    using interp_source_rest[OF _ skip_rest[OF L2(2)]] Cons.prems(2) by auto
  let ?sp = "sp @ [(is_start_line src, is_start_col src)]"
  have "tag_turn ((p, h, sp), v, L1) = Go ((p @ [v], h @ [hole], ?sp), [], L3)"
    using L2 L3 by (simp add: tag_turn_def peek_rest)
  then have "tag_loop ((p, h, sp), [], L) = tag_loop ((p @ [v], h @ [hole], ?sp), [], L3)"
    using L1(1) by (simp add: tag_loop.simps[of "((p, h, sp), v, L1)"])
  with Cons.IH[OF v(2) _ L3(3), of "p @ [v]" "h @ [hole]" ?sp] Cons.prems(2) v(1) show ?case by simp
qed

section \<open>Properties\<close>

lemma close_last_single: "close_last L [t] = [t\<lparr>tk_end_line := lx_line L, tk_end_col := lx_col L\<rparr>]"
  by (simp add: close_last_def)

text \<open>
  C15: Printing a string value and lexing the result gives back the one string token with that value, whatever
  characters it holds: quotes, backslashes, control characters and a dollar in front of a brace included.
\<close>

theorem string_lit_roundtrip: "map_sum id (map tk_kind) (tokenize (string_lit v)) = Ok [TStr v, TEof]"
proof -
  let ?L = "Lexer_new (string_lit v)"
  have "lx_rest (lx_skip ?L) = interp_segment v @ 34 # []"
    by (rule skip_rest) (simp add: string_lit_def interp_segment_def)
  from string_loop_rest[OF this, of tokenize 1 1 "[]"]
  obtain L where L: "lex_string tokenize False 1 1 ?L = (Ok [token_point (TStr v) 1 1], L)" "lx_rest L = []"
    by (auto simp: lex_string_def)
  then have "lex_step tokenize [] 0 34 ?L = (Ok (close_last L [token_point (TStr v) 1 1]), L)"
    by (simp add: lex_step_def Let_def Lexer_new_def)
  then have "map_sum id (map tk_kind) (tokenize (string_lit v)) = Ok [tk_kind (token_point (TStr v) 1 1), TEof]"
    using tokenize_single[of "string_lit v" 34 _ _ L] L(2)
    by (simp add: string_lit_def close_last_single plain_start_def is_whitespace_def)
  then show ?thesis by (simp add: token_point_def)
qed



definition tag_name :: "nat list \<Rightarrow> bool" where
  "tag_name tag \<longleftrightarrow> tag \<noteq> [] \<and> list_all ch_ident tag \<and> \<not> ch_digit (hd tag) \<and> keyword_token tag = TIdent tag \<and> tag \<noteq> [102]"

lemma tag_name_step:
  assumes "tag_name tag" "src = tag @ 34 # rest"
  shows "\<exists>l c L. lex_step inner [] 0 (hd tag) (Lexer_new src) =
      (Ok [\<lparr>tk_kind = TIdent tag, tk_line = 1, tk_col = 1, tk_end_line = l, tk_end_col = c\<rparr>], L) \<and> lx_rest L = 34 # rest"
proof -
  obtain c cs where tag: "tag = c # cs" using assms(1) by (cases tag) (auto simp: tag_name_def)
  have first: "ch_alphabetic c \<or> c = 95" "\<not> ch_digit c" using assms(1) tag by (auto simp: tag_name_def ch_ident_def)
  have "\<not> (c = 102 \<and> lx_peek2 (Lexer_new src) = Some 34)"
    using assms tag by (cases cs) (auto simp: peek2_rest tag_name_def ch_ident_def ch_alphabetic_def ch_digit_def)
  moreover obtain L where L: "ident_or_keyword (Lexer_new src) = (TIdent tag, L)" "lx_rest L = 34 # rest"
    using scan_run_rest[of "Lexer_new src" tag "34 # rest" ch_ident "\<lambda>_. True"] assms
    by (auto simp: ident_or_keyword_def tag_name_def ch_ident_def ch_alphabetic_def ch_digit_def)
  moreover have "c \<noteq> 34" using first by (auto simp: ch_alphabetic_def)
  ultimately show ?thesis using first tag by (auto simp: lex_step_def scan_token_def Let_def Lexer_new_def)
qed

text \<open>
  C16: A tagged literal with its static parts and the source of its holes prints to text that lexes back to one
  tagged-literal token with the same tag, parts and holes: the parts may hold any characters, a dollar in front
  of a brace included, and the holes any text whose braces balance outside its string literals.
\<close>

theorem tagged_lit_roundtrip:
  assumes "tag_name tag" "length parts = Suc (length holes)" "list_all (hole_text False 0) holes"
  shows "\<exists>spans. map_sum id (map tk_kind) (tokenize (tagged_lit tag parts holes)) = Ok [TTagLit tag parts holes spans, TEof]"
proof -
  let ?src = "tagged_lit tag parts holes" and ?rest = "tagged_body parts holes @ [34]"
  have src: "?src = tag @ 34 # ?rest" by (simp add: tagged_lit_def)
  obtain c cs where tag: "tag = c # cs" "ch_ident c" using assms(1) by (cases tag) (auto simp: tag_name_def)
  then have c: "plain_start c" "plain_start 34"
    by (auto simp: plain_start_def is_whitespace_def ch_ident_def ch_alphabetic_def ch_digit_def)
  obtain t L where t: "lex_step tokenize [] 0 c (Lexer_new ?src) = (Ok [t], L)" "tk_kind t = TIdent tag" "lx_rest L = 34 # ?rest"
    using tag_name_step[OF assms(1) src, of tokenize] tag by fastforce
  from tagged_body_rest[OF assms(2,3), of "lx_skip L" "[]" "[]" "[]" "[]"] skip_rest[OF t(3)]
  obtain spans L2 where L2: "tag_literal L = (Ok (parts, holes, spans), L2)" "lx_rest L2 = []" by (auto simp: tag_literal_def)
  then obtain t2 where t2: "lex_step tokenize [t] (lx_pos L) 34 L = (Ok [t2], L2)" "tk_kind t2 = TTagLit tag parts holes spans"
    using t(2) by (auto simp: lex_step_def ident_of_def Let_def)
  have "tokenize_loop tokenize [] (Lexer_new ?src) = tokenize_loop tokenize [t] L"
    by (rule tokenize_turn[of _ c "cs @ 34 # ?rest"]) (use src tag t c in \<open>simp_all add: Lexer_new_def lx_rest_def\<close>)
  also have "\<dots> = tokenize_loop tokenize [t2] L2" by (rule tokenize_turn[OF t(3) c(2) t2(1)])
  finally show ?thesis using tokenize_last[OF L2(2), of tokenize "[t2]"] t2(2) by (auto simp: tokenize_unfold token_point_def)
qed

theorem tagged_lit_roundtrip_witness:
  "\<exists>spans. map_sum id (map tk_kind) (tokenize (tagged_lit (ucs ''sql'') [ucs ''a${'', [34]] [ucs ''f('' @ [34, 125, 34] @ ucs '')'']))
     = Ok [TTagLit (ucs ''sql'') [ucs ''a${'', [34]] [ucs ''f('' @ [34, 125, 34] @ ucs '')''] spans, TEof]"
proof (rule tagged_lit_roundtrip)
  show "tag_name (ucs ''sql'')" by code_simp
  show "list_all (hole_text False 0) [ucs ''f('' @ [34, 125, 34] @ ucs '')'']" by code_simp
qed simp

end
