(* ===== verification/Spec2Isabelle.thy ===== *)
theory Spec2Isabelle
  imports Cap_Kinds Dir_Policy Fetch_Url Rights_Sets Authority Worker_Response Launch
    Kernel_Lanes Select_Waits Async_Encoding Scheduler_Progress Net_Policy Host_Menu Grant_Docs Layout
    Literal_Roundtrip
begin

text \<open>
  A verification development of \<^emph>\<open>witchy\<close>, a capability-secure language: a program receives authority only
  through the parameters of its entry points, and every layer between the source text and the running host
  has to keep it to that. The paths below are relative to the root of the repository.

  \<^bold>\<open>The program.\<close> Source text is scanned into tokens and laid out by indentation; the declarations of the
  parsed module say which capabilities its entry points demand (the footprint). A release that demands more
  than the one before is held at a gate. To launch, the footprint is compared with a grant document or bound to
  the menu of a host, the secrets of the document are taken out of the environment, and a compiled artifact
  carries the authority and heap mode in a launch contract. At run time capabilities are narrowed (directories,
  networks, fetch origins, right sets), and the authority catalog says what each operation needs and yields.
  Compilation may run in a worker process behind a binary protocol. Resumable tasks are compiled to typed
  execution shapes that an interpreter kernel steps, with queues between tasks and a deterministic scheduler.

  \<^bold>\<open>Foundations.\<close>
  \<^item> Witchy_Prelude: results, strings as UTF-8 bytes, decimal numbers, and the locales that several components
    interpret: codings (a printer and its reader), narrowing policies, wire codecs.
  \<^item> Ordered_Collections: \<open>BTreeMap\<close> and \<open>BTreeSet\<close> as sorted lists, with a locale for the map contract.
  \<^item> State_Result: Rust methods on \<open>&mut self\<close> that return \<open>Result\<close>: the state survives a failure, and a panic
    is a value of its own, so that its absence can be stated and proved.

  \<^bold>\<open>Reading source\<close> (crates/witchy-syntax/src/lexer.rs). Lexer holds characters, tokens, the state record,
  trivia, numbers, names and the source of interpolation holes; Lexer_Steps strings, tagged literals, operators
  and one turn of the loop; Tokenize the loop and its entry points; Layout the off-side rule. A hole of an
  interpolated string is lexed by a fresh lexer: the loops take it as an argument, \<open>lex_at\<close> supplies it with a
  depth, and since a hole is shorter than what contains it the depth \<open>length + 1\<close> is always enough, so the
  equation of the code holds without one. Shown: the lexer returns on every source and never panics; tokens end
  in one end marker and all positions stay within the source, which bounds the 32-bit counters; the layout pass
  adds only virtual braces and drops only header colons; blocks nest within brackets; without brackets the pass
  is the recursive reading of indentation. Literal_Roundtrip adds the literal printers of the
  formatter (crates/witchy-syntax/src/format.rs): strings, tagged literals and durations lex back to what was
  printed.

  \<^bold>\<open>Capabilities and footprints\<close> (crates/witchy-cap-model/src/lib.rs, crates/witchy-syntax/src/ast.rs and
  build_entry.rs, crates/witchy-caps/src/capabilities.rs). Cap_Kinds is the vocabulary, Module_Ast the
  declarations and types of a module, Cap_Sets the sets of demanded capabilities, Taint the fixpoint that says
  which authority a type carries, Footprint the analysis of a module and the widening gate, Launch the launch
  contract. The fixpoint loop is a \<open>partial_function\<close>; its result is shown to exist, because every pass adds a
  fact of a finite universe, and to equal an inductive relation on types. Shown: the footprint is exactly what
  the entry points carry; the gate opens exactly for releases that demand no more; the launch contract is built
  for every module and read back.

  \<^bold>\<open>Launch decisions\<close> (crates/witchy-caps/src/menu.rs and grants.rs, crates/witchy-cap-model/src/process_env.rs).
  Host_Menu reads menus and binds requirements to providers; Grant_Docs validates documents, compares them with
  a footprint and consumes the environment variables of secrets. The properties at the end of this theory
  compose them with the footprint analysis: a menu binds a module exactly when it offers what the entry points
  carry, and a document passes the launch check exactly when its sections name it.

  \<^bold>\<open>Policies at run time\<close> (crates/witchy-cap-model/src/lib.rs and authority.rs, capabilities.rs). Dir_Policy is
  the narrowing of directory capabilities, Net_Policy that of network allowlists over Ip_Addr (the parsing and
  printing of addresses in \<open>std::net\<close>), Fetch_Url the URLs and origins of fetch grants, Rights_Sets the stable
  identities and canonical right sets, Authority the catalog of operations. Shown: chains of narrowings never
  widen, denies win over names, and no operation yields authority its receiver does not justify.

  \<^bold>\<open>Worker protocol\<close> (crates/witchy-worker-protocol/src). Wire_Format is the byte layer as a codec contract;
  Worker_Limits, Worker_Request and Worker_Response are the messages. Shown: round trips, agreement of the
  early prelude reader with the full one, and that a response is accepted only for the request it answers.

  \<^bold>\<open>Resumable tasks\<close> (crates/witchy-types/src/typed_execution.rs and async_program.rs, crates/witchy-interp/src).
  Typed_Execution and Must_Lanes validate shapes, Typed_Async is the kernel, Kernel_Lanes its soundness;
  Typed_Queue, Queue_Runtime, Runtime_Safety and Select_Waits are the queues and the runtime around them;
  Async_Program and Async_Encoding the canonical program with its bytes; Typed_Scheduler and
  Scheduler_Progress the scheduler. The must-consume worklist is total by a lexicographic measure. Shown: what a
  validated shape must consume is consumed, no kernel, runtime or scheduler call panics, queues deliver in order
  and lose nothing, a ready execution runs in the next round, the fingerprint binds the program.

  \<^bold>\<open>Parameters.\<close> Third-party code is an argument of the definitions that call it: SHA-256 (digests of 32 bytes),
  BLAKE3, the name resolver of the host, the TOML reader. Nothing else is assumed of them; where injectivity of
  a hash matters it is a named hypothesis. \<open>usize\<close> has 64 bits. A \<open>HashMap\<close> that is read only by key is a keyed map.

  \<^bold>\<open>Not modelled.\<close> The expression syntax and everything that works on it: parser, linker, type checker, loans,
  traits, lowering, code generation, the checker of the intermediate representation, the evaluator, the
  formatter but for its literals. The runtime engine, confinement, command line, web tools and language server are I/O around the
  parts modelled here. In the lexer, the native stack is unbounded (deeply nested interpolation recurses in the
  code), and the \<open>Display\<close> of tokens is left out. Locks are not modelled: each call on the process environment is
  one step.
\<close>

section \<open>From a program to its launch\<close>

text \<open>Every fact that a type carries is a host capability, or a right that this capability has.\<close>

lemma carries_universe: "carries items ty f \<Longrightarrow> f \<in> fact_universe"
proof (induction rule: carries.induct)
  case (host n f args)
  then show ?case using host_facts_universe[of n args] by (auto simp: host_facts_def)
qed auto

lemma full_rights_known: "r \<in> set (full_rights (kind_name kind)) \<Longrightarrow> kind_right kind r \<noteq> None"
  by (auto simp: full_rights_def kind_names.dec_enc kind_right_Some_iff)

lemma footprint_requirements:
  assumes "analyze items = Some fp"
  shows "\<exists>r. from_cap_set (fp_total fp) = Ok r \<and> hr_facilities r = []"
proof -
  from analyze_total[of items] assms have facts: "cap_facts (fp_total fp) \<subseteq> fact_universe"
    by (auto simp: types_carry_def intro: carries_universe)
  have "\<exists>kind. kind_from_name name = Some kind \<and> (\<forall>n \<in> set rights. \<exists>r. kind_right kind n = Some r)"
    if e: "(name, rights) \<in> set (fp_total fp)" for name rights
  proof -
    from e have "rights_facts name (set rights) \<subseteq> fact_universe" using facts by (fastforce simp: cap_facts_def)
    then have top: "(name, None) \<in> fact_universe" and sub: "\<And>n. n \<in> set rights \<Longrightarrow> (name, Some n) \<in> fact_universe"
      by (auto simp: rights_facts_def)
    from top obtain kind where "name = kind_name kind" by (auto simp: fact_universe_def rights_facts_def)
    moreover have "\<exists>r. kind_right kind n = Some r" if "n \<in> set rights" for n
      using sub[OF that] \<open>name = kind_name kind\<close> full_rights_known[of n kind]
      by (auto simp: fact_universe_def rights_facts_def kind_names.enc_inj)
    ultimately show ?thesis using kind_names.dec_enc by blast
  qed
  then obtain r where "from_cap_set (fp_total fp) = Ok r" using from_cap_set_total by blast
  then show ?thesis by (auto simp: from_cap_set_def result_simps)
qed

text \<open>
  C7: From the source to a host's providers: the footprint of every module is computed and every entry of it
  is a requirement a menu understands. A host menu then binds the module exactly when it offers every
  capability and right the entry points carry, and the plan hands out those and no other, each capability
  once; otherwise the caller gets a report, and planning never panics.
\<close>

theorem footprint_plan_exact:
  "\<exists>fp r. analyze items = Some fp \<and> from_cap_set (fp_total fp) = Ok r \<and>
     (case menu_plan menu r of
        Inr plan \<Rightarrow> cap_facts (fp_total fp) \<subseteq> named_fact ` menu_facts menu
          \<and> named_fact ` requirement_facts (map pc_requirement (gp_capabilities plan)) = cap_facts (fp_total fp)
          \<and> distinct (map (\<lambda>c. cr_kind (pc_requirement c)) (gp_capabilities plan)) \<and> gp_facilities plan = []
      | Inl (Unportable report) \<Rightarrow> \<not> cap_facts (fp_total fp) \<subseteq> named_fact ` menu_facts menu \<and> \<not> portable report
      | Inl PlanPanic \<Rightarrow> False)"
proof -
  obtain fp where fp: "analyze items = Some fp" using analyze_total by blast
  obtain r where r: "from_cap_set (fp_total fp) = Ok r" "hr_facilities r = []" using footprint_requirements[OF fp] by blast
  note facts = from_cap_set_facts[OF r(1)]
  have covers: "menu_covers menu r \<longleftrightarrow> cap_facts (fp_total fp) \<subseteq> named_fact ` menu_facts menu"
    unfolding menu_covers_def facts[symmetric] by (simp add: r(2) inj_image_subset_iff[OF named_fact_inj])
  show ?thesis
    by (intro exI conjI, rule fp, rule r(1))
      (use menu_plan_exact[of menu r] covers facts r(2) in \<open>auto split: sum.splits plan_error.splits\<close>)
qed




end
